(* ===== verification/Go_Prelude.thy ===== *)
theory Go_Prelude
  imports Main "HOL-Library.Word" "HOL-Library.Monad_Syntax"
begin

text \<open>
  The vocabulary every component shares: Go's machine integers and byte slices, the
  part of the Go standard library the sources use (\<open>encoding/binary\<close>, \<open>copy\<close>,
  \<open>strconv.Itoa\<close>, \<open>errors.Is\<close>), error values, and run-time panics.

  \<^item> A Go function that can panic returns an \<^typ>\<open>'a option\<close>: \<^const>\<open>None\<close> is the
    panic (an index out of range, a slice out of bounds), so the panic is a branch of the
    model and not an unspecified value. Go's \<open>error\<close> result is separate: it is a value of
    type \<open>error option\<close>, with \<^const>\<open>None\<close> for \<open>nil\<close>.
  \<^item> A fixed-size array \<open>[n]byte\<close> is a word of \<open>8 * n\<close> bits, its slice \<open>a[:]\<close> is
    \<open>be_bytes n a\<close>: comparing two arrays is comparing the words.
  \<^item> An \<open>int64\<close> is a 64-bit word read with \<^const>\<open>sint\<close>, so the conversions
    \<open>uint64(x)\<close> and \<open>int64(x)\<close> are the identity on the word, as they are in Go.
\<close>

unbundle bit_operations_syntax

named_theorems key_simps \<open>closed forms of the storage keys\<close>
named_theorems be_simps \<open>big-endian encoding and decoding\<close>
named_theorems exec_simps \<open>the action handlers, unfolded down to the storage operations\<close>

type_synonym byte = "8 word"
type_synonym bytes = "byte list"
type_synonym u16 = "16 word"
type_synonym u32 = "32 word"
type_synonym u64 = "64 word"
type_synonym i64 = "64 word"

text \<open>\<open>ids.ID\<close> is \<open>[32]byte\<close>, \<open>codec.Address\<close> is \<open>[33]byte\<close> (a type byte and an \<open>ids.ID\<close>).\<close>

type_synonym ID = "256 word"
type_synonym address = "264 word"

type_synonym 'a go = "'a option"

section \<open>Errors\<close>

text \<open>
  The sentinel errors of the repository, an error of a package outside it, and the two
  ways \<open>fmt.Errorf\<close> builds a new error from another: with \<open>%w\<close> the cause stays
  reachable for \<open>errors.Is\<close> (\<open>ErrWrap\<close>), with \<open>%s\<close> only its text is kept
  (\<open>ErrFmt\<close>). The rendered values of the remaining verbs are left out of the message.
\<close>

datatype error =
    ErrNotFound
  | ErrInvalidBalance
  | ErrAlreadyVoted
  | ErrTxNotFound
  | ErrInvalidSignature
  | ErrInvalidKeyType
  | ErrMessage string
  | ErrExternal string
  | ErrWrap error string
  | ErrFmt error string

fun errors_is :: "error \<Rightarrow> error \<Rightarrow> bool" where
  "errors_is (ErrWrap e m) t = (ErrWrap e m = t \<or> errors_is e t)"
| "errors_is e t = (e = t)"

definition err_is :: "error option \<Rightarrow> error \<Rightarrow> bool" where
  "err_is e t = (case e of None \<Rightarrow> False | Some x \<Rightarrow> errors_is x t)"

lemma err_is_simps [simp]: "\<not> err_is None t" "err_is (Some x) t = errors_is x t"
  by (simp_all add: err_is_def)

lemma errors_is_refl [simp]: "errors_is e e"
  by (cases e) simp_all

section \<open>Big-endian bytes\<close>

text \<open>\<open>be_bytes n w\<close> are the \<open>n\<close> low bytes of \<open>w\<close>, most significant first.\<close>

definition be_bytes :: "nat \<Rightarrow> 'a::len word \<Rightarrow> bytes" where
  "be_bytes n w = map (\<lambda>i. ucast (drop_bit (8 * i) w)) (rev [0..<n])"

definition be_word :: "bytes \<Rightarrow> 'a::len word" where
  "be_word bs = foldl (\<lambda>acc b. push_bit 8 acc OR ucast b) 0 bs"

lemma length_be_bytes [simp]: "length (be_bytes n w) = n"
  by (simp add: be_bytes_def)

lemma be_bytes_0 [simp]: "be_bytes 0 w = []"
  by (simp add: be_bytes_def)

lemma be_bytes_Suc: "be_bytes (Suc n) w = ucast (drop_bit (8 * n) w) # be_bytes n w"
  by (simp add: be_bytes_def)

lemma be_fold_take_bit:
  fixes w acc :: "'a::len word"
  shows "foldl (\<lambda>acc b. push_bit 8 acc OR ucast b) acc (be_bytes n w)
    = push_bit (8 * n) acc OR take_bit (8 * n) w"
proof (induction n arbitrary: acc)
  case 0
  then show ?case by simp
next
  case (Suc n)
  have "push_bit (8 * n) (push_bit 8 acc OR ucast (ucast (drop_bit (8 * n) w) :: byte))
      OR take_bit (8 * n) w = push_bit (8 * Suc n) acc OR take_bit (8 * Suc n) w"
    by (rule bit_eqI)
      (auto simp: bit_or_iff bit_push_bit_iff bit_take_bit_iff bit_ucast_iff bit_drop_bit_eq
        not_le not_less add.commute [of 8])
  with Suc show ?case by (simp add: be_bytes_Suc)
qed

lemma be_word_be_bytes [be_simps, simp]:
  fixes w :: "'a::len word"
  assumes "LENGTH('a) \<le> 8 * n"
  shows "be_word (be_bytes n w) = w"
  using assms by (simp add: be_word_def be_fold_take_bit take_bit_word_eq_self)

lemma be_bytes_inject:
  fixes v w :: "'a::len word"
  assumes "LENGTH('a) \<le> 8 * n"
  shows "be_bytes n v = be_bytes n w \<longleftrightarrow> v = w"
  using assms by (metis be_word_be_bytes)


section \<open>Slices and \<open>encoding/binary\<close>\<close>

text \<open>
  The writes into a fresh slice \<open>k\<close>: \<open>copy(k[off:], src)\<close> moves as many bytes as fit,
  \<open>PutUint16(k[off:], v)\<close> and \<open>PutUint64(k[off:], v)\<close> write two and eight. Every offset
  in the sources is a constant below the length of the slice; the length lemmas of the
  theories that use them show that each write is in range.
\<close>

definition make_bytes :: "nat \<Rightarrow> bytes" where
  "make_bytes n = replicate n 0"

definition copy_at :: "bytes \<Rightarrow> nat \<Rightarrow> bytes \<Rightarrow> bytes" where
  "copy_at k off src = take off k @ take (length k - off) src @ drop (off + length src) k"

definition PutUint16_at :: "bytes \<Rightarrow> nat \<Rightarrow> u16 \<Rightarrow> bytes" where
  "PutUint16_at k off v = take off k @ be_bytes 2 v @ drop (off + 2) k"

definition PutUint64_at :: "bytes \<Rightarrow> nat \<Rightarrow> u64 \<Rightarrow> bytes" where
  "PutUint64_at k off v = take off k @ be_bytes 8 v @ drop (off + 8) k"

text \<open>\<open>AppendUint16(nil, v)\<close> and \<open>AppendUint64(nil, v)\<close>.\<close>

definition AppendUint16 :: "u16 \<Rightarrow> bytes" where
  "AppendUint16 v = be_bytes 2 v"

definition AppendUint64 :: "u64 \<Rightarrow> bytes" where
  "AppendUint64 v = be_bytes 8 v"

text \<open>
  The reads index the last byte they need first, so a slice that is too short
  (\<open>nil\<close> after a failed read, for instance) panics; longer slices are read at the front.
\<close>

definition Uint16 :: "bytes \<Rightarrow> u16 go" where
  "Uint16 b = (if length b < 2 then None else Some (be_word (take 2 b)))"

definition Uint64 :: "bytes \<Rightarrow> u64 go" where
  "Uint64 b = (if length b < 8 then None else Some (be_word (take 8 b)))"

text \<open>\<open>b[lo:hi]\<close> and \<open>b[i]\<close> of a slice whose capacity is its length.\<close>

definition slice :: "bytes \<Rightarrow> nat \<Rightarrow> nat \<Rightarrow> bytes go" where
  "slice b lo hi = (if lo \<le> hi \<and> hi \<le> length b then Some (take (hi - lo) (drop lo b)) else None)"

definition index :: "'a list \<Rightarrow> nat \<Rightarrow> 'a go" where
  "index b i = (if i < length b then Some (b ! i) else None)"

lemma Uint16_append [be_simps, simp]: "Uint16 (be_bytes 2 v @ r) = Some v"
  by (simp add: Uint16_def)

lemma Uint16_be_bytes [be_simps, simp]: "Uint16 (be_bytes 2 v) = Some v"
  using Uint16_append [of v "[]"] by simp

lemma Uint64_append [be_simps, simp]: "Uint64 (be_bytes 8 v @ r) = Some v"
  by (simp add: Uint64_def)

lemma Uint64_be_bytes [be_simps, simp]: "Uint64 (be_bytes 8 v) = Some v"
  using Uint64_append [of v "[]"] by simp

lemma Uint64_Append [be_simps, simp]: "Uint64 (AppendUint64 v) = Some v"
  by (simp add: AppendUint64_def)

lemma Uint16_Append [be_simps, simp]: "Uint16 (AppendUint16 v) = Some v"
  by (simp add: AppendUint16_def)

lemma Uint16_nil [simp]: "Uint16 [] = None" and Uint64_nil [simp]: "Uint64 [] = None"
  by (simp_all add: Uint16_def Uint64_def)

lemma length_Append [simp]: "length (AppendUint16 v) = 2" "length (AppendUint64 w) = 8"
  by (simp_all add: AppendUint16_def AppendUint64_def)

lemma Uint64_some: "8 \<le> length b \<Longrightarrow> \<exists>v. Uint64 b = Some v"
  by (simp add: Uint64_def)

lemma length_writes [simp]:
  "length (make_bytes n) = n"
  "off + 2 \<le> length k \<Longrightarrow> length (PutUint16_at k off v) = length k"
  "off + 8 \<le> length k \<Longrightarrow> length (PutUint64_at k off w) = length k"
  "off + length src \<le> length k \<Longrightarrow> length (copy_at k off src) = length k"
  by (auto simp: make_bytes_def PutUint16_at_def PutUint64_at_def copy_at_def)

section \<open>\<open>strconv.Itoa\<close> on a non-negative int\<close>

definition digit :: "nat \<Rightarrow> char" where
  "digit d = char_of (48 + d)"

fun itoa :: "nat \<Rightarrow> string" where
  "itoa n = (if n < 10 then [digit n] else itoa (n div 10) @ [digit (n mod 10)])"

declare itoa.simps [simp del]

lemma of_char_digit: "d < 10 \<Longrightarrow> (of_char (digit d) :: nat) = 48 + d"
  by (simp add: digit_def)

lemma digit_inject: "d < 10 \<Longrightarrow> e < 10 \<Longrightarrow> digit d = digit e \<longleftrightarrow> d = e"
  by (metis add_left_cancel of_char_digit)

lemma itoa_nonempty [simp]: "itoa n \<noteq> []"
  by (subst itoa.simps) simp

lemma itoa_inject: "itoa m = itoa n \<longleftrightarrow> m = n"
proof (induction m arbitrary: n rule: itoa.induct)
  case (1 m)
  note IH = "1.IH"
  have big: "itoa k = itoa (k div 10) @ [digit (k mod 10)]" if "\<not> k < 10" for k
    using that by (subst itoa.simps) simp
  have small: "itoa k = [digit k]" if "k < 10" for k
    using that by (subst itoa.simps) simp
  consider "m < 10" "n < 10" | "m < 10" "\<not> n < 10" | "\<not> m < 10" "n < 10" | "\<not> m < 10" "\<not> n < 10"
    by blast
  then show ?case
  proof cases
    case 1
    then show ?thesis by (simp add: small digit_inject)
  next
    case 2
    then show ?thesis using itoa_nonempty [of "n div 10"] by (auto simp: small big simp del: itoa_nonempty)
  next
    case 3
    then show ?thesis using itoa_nonempty [of "m div 10"] by (auto simp: small big simp del: itoa_nonempty)
  next
    case 4
    have "m = n \<longleftrightarrow> m div 10 = n div 10 \<and> m mod 10 = n mod 10"
      by (metis div_mult_mod_eq)
    with 4 IH [OF 4(1), of "n div 10"] show ?thesis
      by (simp add: big digit_inject)
  qed
qed

section \<open>Strings as bytes\<close>

text \<open>A Go string is a sequence of bytes: \<open>[]byte(s)\<close> and \<open>string(b)\<close> convert one to one.\<close>

definition byte_of_char :: "char \<Rightarrow> byte" where
  "byte_of_char c = word_of_nat (of_char c)"

definition char_of_byte :: "byte \<Rightarrow> char" where
  "char_of_byte b = char_of (unat b)"

definition string_bytes :: "string \<Rightarrow> bytes" where
  "string_bytes t = map byte_of_char t"

definition bytes_string :: "bytes \<Rightarrow> string" where
  "bytes_string b = map char_of_byte b"

lemma char_of_byte_of_char [simp]: "char_of_byte (byte_of_char c) = c"
proof -
  have "(of_char c :: nat) < 256" by simp
  then show ?thesis
    by (simp add: byte_of_char_def char_of_byte_def unat_of_nat)
qed

lemma bytes_string_bytes [simp]: "bytes_string (string_bytes t) = t"
  by (simp add: bytes_string_def string_bytes_def comp_def)

lemma length_string_bytes [simp]: "length (string_bytes t) = length t"
  by (simp add: string_bytes_def)

lemma string_bytes_Nil [simp]: "string_bytes t = [] \<longleftrightarrow> t = []"
  by (simp add: string_bytes_def)

section \<open>Division of ints\<close>

text \<open>Go's \<open>/\<close> on \<open>int\<close> truncates towards zero and panics when the divisor is zero.\<close>

definition int_div :: "int \<Rightarrow> int \<Rightarrow> int go" where
  "int_div a b = (if b = 0 then None else Some (sgn a * sgn b * (\<bar>a\<bar> div \<bar>b\<bar>)))"

lemma int_div_pos: "0 \<le> a \<Longrightarrow> 0 < b \<Longrightarrow> int_div a b = Some (a div b)"
  by (cases "a = 0") (simp_all add: int_div_def)

lemma int_div_some: "b \<noteq> 0 \<Longrightarrow> \<exists>q. int_div a b = Some q"
  by (simp add: int_div_def)

section \<open>Slices and arrays\<close>

text \<open>The conversion of a slice to an array of \<open>n\<close> bytes panics when the slice is shorter.\<close>

definition to_array :: "nat \<Rightarrow> bytes \<Rightarrow> bytes go" where
  "to_array n b = (if n \<le> length b then Some (take n b) else None)"

section \<open>64-bit readings\<close>

lemma unat_u64_less: "unat (w :: u64) < 2 ^ 64"
proof -
  have "unat w < 2 ^ LENGTH(64)" by (rule unsigned_less)
  then show ?thesis by simp
qed

lemma sint_add_in_range:
  fixes a b :: i64
  assumes "- (2 ^ 63) \<le> sint a + sint b" "sint a + sint b < 2 ^ 63"
  shows "sint (a + b) = sint a + sint b"
proof -
  have "sint (a + b) = signed_take_bit 63 (sint a + sint b)"
    by (simp add: sint_word_ariths)
  also have "\<dots> = sint a + sint b"
    using assms by (simp add: signed_take_bit_int_eq_self)
  finally show ?thesis .
qed

end
