(* ===== verification/Host.thy ===== *)
theory Host
  imports Go_Prelude
begin

text \<open>
  The packages outside the repository that the storage layer calls: avalanchego's checked
  64-bit arithmetic (\<open>smath.Add64\<close>, \<open>smath.Sub\<close>) and hypersdk's view of the chain state
  (\<open>state.Immutable\<close>, \<open>state.Mutable\<close>). Their code is not in the repository, so they are
  parameters of the model: a record of functions that every definition using them takes as
  an argument. What the sources rely on is a locale each, whose assumptions are the
  documented behaviour; a theorem that needs it names the locale predicate as a hypothesis.
  The reference instances at the end of each section interpret the locales, which shows
  the assumptions consistent, and feed the witnesses.
\<close>

section \<open>Checked arithmetic\<close>

record math64 =
  Add64 :: "u64 \<Rightarrow> u64 \<Rightarrow> error + u64"
  Sub64 :: "u64 \<Rightarrow> u64 \<Rightarrow> error + u64"

locale checked_math =
  fixes A :: math64
  assumes Add64_ok: "unat a + unat b < 2 ^ 64 \<Longrightarrow> Add64 A a b = Inr (a + b)"
    and Add64_overflow: "2 ^ 64 \<le> unat a + unat b \<Longrightarrow> \<exists>e. Add64 A a b = Inl e"
    and Sub64_ok: "b \<le> a \<Longrightarrow> Sub64 A a b = Inr (a - b)"
    and Sub64_underflow: "a < b \<Longrightarrow> \<exists>e. Sub64 A a b = Inl e"
begin

lemma Add64_Inr_iff:
  "Add64 A a b = Inr c \<longleftrightarrow> unat a + unat b < 2 ^ 64 \<and> c = a + b"
  using Add64_ok [of a b] Add64_overflow [of a b] by (cases "unat a + unat b < 2 ^ 64") auto

lemma Sub64_Inr_iff: "Sub64 A a b = Inr c \<longleftrightarrow> b \<le> a \<and> c = a - b"
  using Sub64_ok [of b a] Sub64_underflow [of a b] by (cases "b \<le> a") (auto simp: not_le)

lemma Add64_exact:
  assumes "Add64 A a b = Inr c"
  shows "unat c = unat a + unat b"
  using assms by (auto simp: Add64_Inr_iff unat_word_ariths)

lemma Sub64_exact:
  assumes "Sub64 A a b = Inr c"
  shows "unat c = unat a - unat b \<and> unat b \<le> unat a"
  using assms by (auto simp: Sub64_Inr_iff unat_sub word_le_nat_alt)

end

definition ref_math :: math64 where
  "ref_math =
    \<lparr>Add64 = (\<lambda>a b. if unat a + unat b < 2 ^ 64 then Inr (a + b) else Inl (ErrExternal ''overflow'')),
     Sub64 = (\<lambda>a b. if b \<le> a then Inr (a - b) else Inl (ErrExternal ''underflow''))\<rparr>"

interpretation ref_math: checked_math ref_math
  by unfold_locales (auto simp: ref_math_def)

section \<open>The state an action reads and writes\<close>

text \<open>
  \<open>state.Mutable\<close> is an interface with \<open>GetValue\<close>, \<open>Insert\<close> and \<open>Remove\<close>. A read
  returns a slice and an error, as in Go: the sources do use the slice after an error.
\<close>

record 's mutable =
  GetValue :: "'s \<Rightarrow> bytes \<Rightarrow> bytes \<times> error option"
  Insert :: "'s \<Rightarrow> bytes \<Rightarrow> bytes \<Rightarrow> error option \<times> 's"
  Remove :: "'s \<Rightarrow> bytes \<Rightarrow> error option \<times> 's"

text \<open>
  The last two bytes of a key announce how many 64-byte chunks its value may take
  (\<open>storage.go\<close>: ``1 chunk = 64 bytes'').
\<close>

definition max_chunks :: "bytes \<Rightarrow> nat" where
  "max_chunks k = unat (be_word (drop (length k - 2) k) :: u16)"

text \<open>
  A transaction sees the state through the keys it declared (\<open>StateKeys\<close>): \<open>kv s\<close> is
  the content behind the view, \<open>scope\<close> the declared keys. A key outside the scope cannot
  be read or written, and the refusal is not \<open>ErrNotFound\<close>; a write to a declared key
  succeeds when its value is below the announced size; a write that fails changes nothing.
\<close>

locale state_view =
  fixes M :: "'s mutable" and kv :: "'s \<Rightarrow> bytes \<rightharpoonup> bytes" and scope :: "bytes set"
  assumes get_none: "k \<in> scope \<Longrightarrow> kv s k = None \<Longrightarrow> GetValue M s k = ([], Some ErrNotFound)"
    and get_some: "k \<in> scope \<Longrightarrow> kv s k = Some v \<Longrightarrow> GetValue M s k = (v, None)"
    and get_outside: "k \<notin> scope \<Longrightarrow> \<exists>e. GetValue M s k = ([], Some e) \<and> \<not> errors_is e ErrNotFound"
    and insert_cases: "Insert M s k v = (e, s') \<Longrightarrow>
      (e = None \<and> k \<in> scope \<and> kv s' = (kv s)(k \<mapsto> v)) \<or> (e \<noteq> None \<and> kv s' = kv s)"
    and insert_fits: "k \<in> scope \<Longrightarrow> length v < 64 * max_chunks k \<Longrightarrow> fst (Insert M s k v) = None"
    and remove_cases: "Remove M s k = (e, s') \<Longrightarrow>
      (e = None \<and> k \<in> scope \<and> kv s' = (kv s)(k := None)) \<or> (e \<noteq> None \<and> kv s' = kv s)"
    and remove_declared: "k \<in> scope \<Longrightarrow> fst (Remove M s k) = None"
begin

lemma insert_declared:
  assumes "k \<in> scope" "length v < 64 * max_chunks k"
  obtains s' where "Insert M s k v = (None, s')" "kv s' = (kv s)(k \<mapsto> v)"
  using insert_cases [of s k v] insert_fits [OF assms] by (metis prod.collapse)

lemma insert_outside:
  assumes "k \<notin> scope"
  obtains e s' where "Insert M s k v = (Some e, s')" "kv s' = kv s"
  using insert_cases [of s k v] assms by (metis option.exhaust prod.collapse)

lemma insert_frame: "Insert M s k v = (e, s') \<Longrightarrow> k' \<noteq> k \<Longrightarrow> kv s' k' = kv s k'"
  using insert_cases [of s k v] by fastforce

lemma remove_key:
  assumes "k \<in> scope"
  obtains s' where "Remove M s k = (None, s')" "kv s' = (kv s)(k := None)"
  using remove_cases [of s k] remove_declared [OF assms] by (metis prod.collapse)

lemma remove_frame: "Remove M s k = (e, s') \<Longrightarrow> k' \<noteq> k \<Longrightarrow> kv s' k' = kv s k'"
  using remove_cases [of s k] by fastforce

lemma get_declared:
  "k \<in> scope \<Longrightarrow> GetValue M s k = (case kv s k of None \<Rightarrow> ([], Some ErrNotFound) | Some v \<Rightarrow> (v, None))"
  by (cases "kv s k") (auto simp: get_none get_some)

end

text \<open>The reference view: a map, with the scope and the size announced by the key enforced.\<close>

definition mem_view :: "bytes set \<Rightarrow> (bytes \<rightharpoonup> bytes) mutable" where
  "mem_view scope =
    \<lparr>GetValue = (\<lambda>s k. if k \<in> scope
       then (case s k of None \<Rightarrow> ([], Some ErrNotFound) | Some v \<Rightarrow> (v, None))
       else ([], Some (ErrExternal ''invalid key or key permission''))),
     Insert = (\<lambda>s k v. if k \<in> scope \<and> length v < 64 * max_chunks k
       then (None, s(k \<mapsto> v)) else (Some (ErrExternal ''invalid key or value''), s)),
     Remove = (\<lambda>s k. if k \<in> scope then (None, s(k := None))
       else (Some (ErrExternal ''invalid key or key permission''), s))\<rparr>"

interpretation mem_view: state_view "mem_view scope" "\<lambda>s. s" scope for scope
  by unfold_locales (auto simp: mem_view_def split: if_splits)

end
