(* ===== verification/Storage_Keys.thy ===== *)
theory Storage_Keys
  imports Host
begin

text \<open>
  \<open>storage/storage.go\<close>: the keys under which everything is stored. Each key function is
  translated write by write (a fresh slice, a prefix byte, \<open>copy\<close> and \<open>PutUint16\<close> at
  constant offsets); its closed form, the prefix followed by the fields, is a lemma of
  \<open>key_simps\<close>, from which the lengths, the announced chunks and the fact that no two
  entries of the state share a key follow. \<open>DeployKey\<close> is a file name and not a state key.
\<close>

section \<open>Constants\<close>

text \<open>hypersdk's \<open>consts.IDLen\<close>, \<open>codec.AddressLen\<close> and \<open>consts.Uint16Len\<close> of the types above.\<close>

abbreviation (input) IDLen :: nat where "IDLen \<equiv> 32"
abbreviation (input) AddressLen :: nat where "AddressLen \<equiv> 33"
abbreviation (input) Uint16Len :: nat where "Uint16Len \<equiv> 2"
abbreviation (input) Uint64Len :: nat where "Uint64Len \<equiv> 8"
abbreviation (input) BoolLen :: nat where "BoolLen \<equiv> 1"

definition txPrefix :: byte where "txPrefix = 0x0"

definition balancePrefix :: byte where "balancePrefix = 0x0"
definition heightPrefix :: byte where "heightPrefix = 0x1"
definition timestampPrefix :: byte where "timestampPrefix = 0x2"
definition feePrefix :: byte where "feePrefix = 0x3"
definition incomingWarpPrefix :: byte where "incomingWarpPrefix = 0x4"
definition outgoingWarpPrefix :: byte where "outgoingWarpPrefix = 0x5"
definition registerPrefix :: byte where "registerPrefix = 0x6"
definition deployPrefix :: byte where "deployPrefix = 0x7"
definition timeOutPrefix :: byte where "timeOutPrefix = 0x8"
definition weightPrefix :: byte where "weightPrefix = 0x9"
definition statusPreifx :: byte where "statusPreifx = 0xa"
definition votePrefix :: byte where "votePrefix = 0xb"

definition BalanceChunks :: u16 where "BalanceChunks = 1"
definition HashChunksMax :: u16 where "HashChunksMax = 10"
definition TimeOutChunks :: u16 where "TimeOutChunks = 1"

lemmas prefix_defs = txPrefix_def balancePrefix_def heightPrefix_def timestampPrefix_def
  feePrefix_def incomingWarpPrefix_def outgoingWarpPrefix_def registerPrefix_def
  deployPrefix_def timeOutPrefix_def weightPrefix_def statusPreifx_def votePrefix_def

lemmas chunk_defs = BalanceChunks_def HashChunksMax_def TimeOutChunks_def

abbreviation (input) id_bytes :: "ID \<Rightarrow> bytes" where "id_bytes i \<equiv> be_bytes IDLen i"
abbreviation (input) addr_bytes :: "address \<Rightarrow> bytes" where "addr_bytes a \<equiv> be_bytes AddressLen a"

lemma id_bytes_inject [simp]: "id_bytes i = id_bytes j \<longleftrightarrow> i = j"
  by (simp add: be_bytes_inject)

lemma addr_bytes_inject [simp]: "addr_bytes a = addr_bytes b \<longleftrightarrow> a = b"
  by (simp add: be_bytes_inject)

section \<open>Key functions\<close>

definition TxKey :: "ID \<Rightarrow> bytes" where
  "TxKey i =
    (let k = make_bytes (1 + IDLen);
         k = k[0 := txPrefix];
         k = copy_at k 1 (id_bytes i)
     in k)"

definition BalanceKey :: "address \<Rightarrow> bytes" where
  "BalanceKey addr =
    (let k = make_bytes (1 + AddressLen + Uint16Len);
         k = k[0 := balancePrefix];
         k = copy_at k 1 (addr_bytes addr);
         k = PutUint16_at k (1 + AddressLen) BalanceChunks
     in k)"

definition HeightKey :: bytes where "HeightKey = [heightPrefix]"
definition TimestampKey :: bytes where "TimestampKey = [timestampPrefix]"
definition FeeKey :: bytes where "FeeKey = [feePrefix]"

definition IncomingWarpKeyPrefix :: "ID \<Rightarrow> ID \<Rightarrow> bytes" where
  "IncomingWarpKeyPrefix sourceChainID msgID =
    (let k = make_bytes (1 + IDLen * 2);
         k = k[0 := incomingWarpPrefix];
         k = copy_at k 1 (id_bytes sourceChainID);
         k = copy_at k (1 + IDLen) (id_bytes msgID)
     in k)"

definition OutgoingWarpKeyPrefix :: "ID \<Rightarrow> bytes" where
  "OutgoingWarpKeyPrefix txID =
    (let k = make_bytes (1 + IDLen);
         k = k[0 := outgoingWarpPrefix];
         k = copy_at k 1 (id_bytes txID)
     in k)"

definition ChunkKey :: "ID \<Rightarrow> u16 \<Rightarrow> bytes" where
  "ChunkKey imageID registerType =
    (let k = make_bytes (1 + IDLen + Uint16Len);
         k = k[0 := registerPrefix];
         k = copy_at k 1 (id_bytes imageID);
         k = PutUint16_at k (1 + IDLen) registerType
     in k)"

definition HashKey :: "ID \<Rightarrow> u16 \<Rightarrow> bytes" where
  "HashKey txID valType =
    (let k = make_bytes (1 + IDLen + Uint16Len + Uint16Len);
         k = k[0 := deployPrefix];
         k = copy_at k 1 (id_bytes txID);
         k = PutUint16_at k (1 + IDLen) valType;
         k = PutUint16_at k (1 + IDLen + Uint16Len) HashChunksMax
     in k)"

definition TimeOutKey :: "ID \<Rightarrow> bytes" where
  "TimeOutKey txID =
    (let k = make_bytes (1 + IDLen + Uint16Len);
         k = k[0 := timeOutPrefix];
         k = copy_at k 1 (id_bytes txID);
         k = PutUint16_at k (1 + IDLen) TimeOutChunks
     in k)"

definition WeightKey :: "ID \<Rightarrow> bytes" where
  "WeightKey txID =
    (let k = make_bytes (1 + IDLen + Uint16Len);
         k = k[0 := weightPrefix];
         k = copy_at k 1 (id_bytes txID);
         k = PutUint16_at k (1 + IDLen) TimeOutChunks
     in k)"

definition StatusKey :: "ID \<Rightarrow> bytes" where
  "StatusKey txID =
    (let k = make_bytes (1 + IDLen + Uint16Len);
         k = k[0 := statusPreifx];
         k = copy_at k 1 (id_bytes txID);
         k = PutUint16_at k (1 + IDLen) TimeOutChunks
     in k)"

definition VoteKey :: "ID \<Rightarrow> address \<Rightarrow> bytes" where
  "VoteKey txID actor =
    (let k = make_bytes (1 + IDLen + AddressLen + Uint16Len);
         k = k[0 := votePrefix];
         k = copy_at k 1 (id_bytes txID);
         k = copy_at k (1 + IDLen) (addr_bytes actor);
         k = PutUint16_at k (1 + IDLen + AddressLen) TimeOutChunks
     in k)"

text \<open>
  The file a proof or an ELF of an image is kept in. The hexadecimal rendering of an
  identifier (\<open>ids.ID.Hex\<close>) is a parameter.
\<close>

definition DeployKey :: "(ID \<Rightarrow> string) \<Rightarrow> ID \<Rightarrow> u16 \<Rightarrow> string" where
  "DeployKey Hex imageID proofValType =
    itoa (unat deployPrefix) @ Hex imageID @ itoa (unat proofValType) @ ''.pvalt''"

section \<open>Closed forms\<close>

lemma first_byte: "0 < n \<Longrightarrow> take (Suc 0) ((replicate n x)[0 := b]) = [b]"
  by (cases n) auto

lemmas write_defs = make_bytes_def copy_at_def PutUint16_at_def first_byte

lemma TxKey_closed [key_simps]: "TxKey i = txPrefix # id_bytes i"
  by (simp add: TxKey_def write_defs Let_def)

lemma BalanceKey_closed [key_simps]:
  "BalanceKey a = balancePrefix # addr_bytes a @ be_bytes 2 BalanceChunks"
  by (simp add: BalanceKey_def write_defs Let_def)

lemma IncomingWarpKeyPrefix_closed [key_simps]:
  "IncomingWarpKeyPrefix c m = incomingWarpPrefix # id_bytes c @ id_bytes m"
  by (simp add: IncomingWarpKeyPrefix_def write_defs Let_def)

lemma OutgoingWarpKeyPrefix_closed [key_simps]:
  "OutgoingWarpKeyPrefix i = outgoingWarpPrefix # id_bytes i"
  by (simp add: OutgoingWarpKeyPrefix_def write_defs Let_def)

lemma ChunkKey_closed [key_simps]: "ChunkKey i t = registerPrefix # id_bytes i @ be_bytes 2 t"
  by (simp add: ChunkKey_def write_defs Let_def)

lemma HashKey_closed [key_simps]:
  "HashKey i t = deployPrefix # id_bytes i @ be_bytes 2 t @ be_bytes 2 HashChunksMax"
  by (simp add: HashKey_def write_defs Let_def)

lemma TimeOutKey_closed [key_simps]:
  "TimeOutKey i = timeOutPrefix # id_bytes i @ be_bytes 2 TimeOutChunks"
  by (simp add: TimeOutKey_def write_defs Let_def)

lemma WeightKey_closed [key_simps]:
  "WeightKey i = weightPrefix # id_bytes i @ be_bytes 2 TimeOutChunks"
  by (simp add: WeightKey_def write_defs Let_def)

lemma StatusKey_closed [key_simps]:
  "StatusKey i = statusPreifx # id_bytes i @ be_bytes 2 TimeOutChunks"
  by (simp add: StatusKey_def write_defs Let_def)

lemma VoteKey_closed [key_simps]:
  "VoteKey i a = votePrefix # id_bytes i @ addr_bytes a @ be_bytes 2 TimeOutChunks"
  by (simp add: VoteKey_def write_defs Let_def)


section \<open>Lengths and announced chunks\<close>

lemma length_keys [simp]:
  "length (TxKey i) = 33" "length (BalanceKey a) = 36"
  "length (IncomingWarpKeyPrefix c i) = 65" "length (OutgoingWarpKeyPrefix i) = 33"
  "length (ChunkKey i t) = 35" "length (HashKey i t) = 37" "length (TimeOutKey i) = 35"
  "length (WeightKey i) = 35" "length (StatusKey i) = 35" "length (VoteKey i a) = 68"
  by (simp_all add: key_simps)

lemma max_chunks_keys [simp]:
  "max_chunks (BalanceKey a) = 1" "max_chunks (HashKey i t) = 10"
  "max_chunks (TimeOutKey i) = 1" "max_chunks (WeightKey i) = 1"
  "max_chunks (StatusKey i) = 1" "max_chunks (VoteKey i a) = 1"
  by (simp_all add: max_chunks_def key_simps chunk_defs)

section \<open>No two entries share a key\<close>

text \<open>
  The entries of the chain state, one constructor per key function. \<open>state_key\<close> is the key
  the code stores the entry under.
\<close>

datatype entry =
    EBalance address
  | EHeight
  | ETimestamp
  | EFee
  | EIncomingWarp ID ID
  | EOutgoingWarp ID
  | EChunk ID u16
  | EHash ID u16
  | ETimeOut ID
  | EWeight ID
  | EStatus ID
  | EVote ID address

fun state_key :: "entry \<Rightarrow> bytes" where
  "state_key (EBalance a) = BalanceKey a"
| "state_key EHeight = HeightKey"
| "state_key ETimestamp = TimestampKey"
| "state_key EFee = FeeKey"
| "state_key (EIncomingWarp c m) = IncomingWarpKeyPrefix c m"
| "state_key (EOutgoingWarp i) = OutgoingWarpKeyPrefix i"
| "state_key (EChunk i t) = ChunkKey i t"
| "state_key (EHash i t) = HashKey i t"
| "state_key (ETimeOut i) = TimeOutKey i"
| "state_key (EWeight i) = WeightKey i"
| "state_key (EStatus i) = StatusKey i"
| "state_key (EVote i a) = VoteKey i a"

fun entry_prefix :: "entry \<Rightarrow> byte" where
  "entry_prefix (EBalance a) = balancePrefix"
| "entry_prefix EHeight = heightPrefix"
| "entry_prefix ETimestamp = timestampPrefix"
| "entry_prefix EFee = feePrefix"
| "entry_prefix (EIncomingWarp c m) = incomingWarpPrefix"
| "entry_prefix (EOutgoingWarp i) = outgoingWarpPrefix"
| "entry_prefix (EChunk i t) = registerPrefix"
| "entry_prefix (EHash i t) = deployPrefix"
| "entry_prefix (ETimeOut i) = timeOutPrefix"
| "entry_prefix (EWeight i) = weightPrefix"
| "entry_prefix (EStatus i) = statusPreifx"
| "entry_prefix (EVote i a) = votePrefix"

lemma hd_state_key: "hd (state_key e) = entry_prefix e"
  by (cases e) (simp_all add: key_simps HeightKey_def TimestampKey_def FeeKey_def)

lemma u16_bytes_inject [simp]: "be_bytes 2 (v :: u16) = be_bytes 2 w \<longleftrightarrow> v = w"
  by (simp add: be_bytes_inject)

lemma state_key_eq_iff [simp]: "state_key d = state_key e \<longleftrightarrow> d = e"
proof
  assume eq: "state_key d = state_key e"
  then have "entry_prefix d = entry_prefix e"
    using hd_state_key by metis
  with eq show "d = e"
    by (cases d; cases e) (simp_all add: key_simps prefix_defs)
qed simp

text \<open>The instances the components use, as rewrite rules on the key functions themselves.\<close>

lemma key_inject [simp]:
  "BalanceKey a = BalanceKey b \<longleftrightarrow> a = b"
  "HashKey i t = HashKey j u \<longleftrightarrow> i = j \<and> t = u"
  "TimeOutKey i = TimeOutKey j \<longleftrightarrow> i = j"
  "WeightKey i = WeightKey j \<longleftrightarrow> i = j"
  "StatusKey i = StatusKey j \<longleftrightarrow> i = j"
  "VoteKey i a = VoteKey j b \<longleftrightarrow> i = j \<and> a = b"
  by (simp_all add: key_simps)

lemma key_distinct [simp]:
  "BalanceKey a \<noteq> HashKey i t" "BalanceKey a \<noteq> TimeOutKey i" "BalanceKey a \<noteq> WeightKey i"
  "BalanceKey a \<noteq> StatusKey i" "BalanceKey a \<noteq> VoteKey i b" "HashKey i t \<noteq> BalanceKey a"
  "HashKey i t \<noteq> TimeOutKey j" "HashKey i t \<noteq> WeightKey j" "HashKey i t \<noteq> StatusKey j"
  "HashKey i t \<noteq> VoteKey j b" "TimeOutKey i \<noteq> BalanceKey a" "TimeOutKey i \<noteq> HashKey j t"
  "TimeOutKey i \<noteq> WeightKey j" "TimeOutKey i \<noteq> StatusKey j" "TimeOutKey i \<noteq> VoteKey j b"
  "WeightKey i \<noteq> BalanceKey a" "WeightKey i \<noteq> HashKey j t" "WeightKey i \<noteq> TimeOutKey j"
  "WeightKey i \<noteq> StatusKey j" "WeightKey i \<noteq> VoteKey j b" "StatusKey i \<noteq> BalanceKey a"
  "StatusKey i \<noteq> HashKey j t" "StatusKey i \<noteq> TimeOutKey j" "StatusKey i \<noteq> WeightKey j"
  "StatusKey i \<noteq> VoteKey j b" "VoteKey i b \<noteq> BalanceKey a" "VoteKey i b \<noteq> HashKey j t"
  "VoteKey i b \<noteq> TimeOutKey j" "VoteKey i b \<noteq> WeightKey j" "VoteKey i b \<noteq> StatusKey j"
  by (simp_all add: key_simps prefix_defs)

lemma TxKey_inject [simp]: "TxKey i = TxKey j \<longleftrightarrow> i = j"
  by (simp add: key_simps)

section \<open>The claims about keys\<close>

text \<open>
  C34: no two distinct entries of the chain state (balances, block height, timestamp, fees,
  warp messages, registrations, image hashes, and the time-out, weight, status and votes
  of a verification) are stored under the same key.
\<close>

theorem state_keys_injective: "state_key d = state_key e \<longleftrightarrow> d = e"
  by simp

text \<open>A hexadecimal rendering of identifiers, to instantiate the parameter of \<open>DeployKey\<close>.\<close>

definition hex_digit :: "nat \<Rightarrow> char" where
  "hex_digit d = (if d < 10 then char_of (48 + d) else char_of (87 + d))"

definition ref_hex :: "ID \<Rightarrow> string" where
  "ref_hex i = concat (map (\<lambda>b. [hex_digit (unat b div 16), hex_digit (unat b mod 16)]) (id_bytes i))"

lemma hex_digit_inject:
  assumes "c < 16" "d < 16"
  shows "hex_digit c = hex_digit d \<longleftrightarrow> c = d"
proof -
  define n where "n k = (if k < 10 then 48 + k else 87 + k)" for k :: nat
  have "hex_digit k = char_of (n k)" for k
    by (simp add: hex_digit_def n_def)
  moreover have "n k < 256" if "k < 16" for k
    using that by (simp add: n_def)
  ultimately have "hex_digit c = hex_digit d \<longleftrightarrow> n c = n d"
    using assms by (metis of_char_of mod_less)
  also have "n c = n d \<longleftrightarrow> c = d"
    using assms by (auto simp: n_def)
  finally show ?thesis .
qed

lemma concat_pairs_inject:
  assumes "\<And>b c. f b = f c \<Longrightarrow> g b = g c \<Longrightarrow> b = c" "length xs = length ys"
    and "concat (map (\<lambda>b. [f b, g b]) xs) = concat (map (\<lambda>b. [f b, g b]) ys)"
  shows "xs = ys"
  using assms(2,3) by (induction xs ys rule: list_induct2) (auto dest: assms(1))

lemma ref_hex_inject: "ref_hex i = ref_hex j \<Longrightarrow> i = j"
proof -
  assume eq: "ref_hex i = ref_hex j"
  have "id_bytes i = id_bytes j"
  proof (rule concat_pairs_inject)
    fix b c :: byte
    assume "hex_digit (unat b div 16) = hex_digit (unat c div 16)"
      and "hex_digit (unat b mod 16) = hex_digit (unat c mod 16)"
    moreover have "unat b < 256" "unat c < 256"
      using unsigned_less [of b] unsigned_less [of c] by simp_all
    ultimately have "unat b div 16 = unat c div 16 \<and> unat b mod 16 = unat c mod 16"
      by (simp add: hex_digit_inject)
    then show "b = c"
      by (metis div_mult_mod_eq word_unat_eq_iff)
  next
    show "length (id_bytes i) = length (id_bytes j)" by simp
  next
    show "concat (map (\<lambda>b. [hex_digit (unat b div 16), hex_digit (unat b mod 16)]) (id_bytes i)) =
      concat (map (\<lambda>b. [hex_digit (unat b div 16), hex_digit (unat b mod 16)]) (id_bytes j))"
      using eq by (simp add: ref_hex_def)
  qed
  then show "i = j" by simp
qed

lemma length_ref_hex: "length (ref_hex i) = 64"
  by (simp add: ref_hex_def length_concat comp_def sum_list_triv)

text \<open>
  \<open>DeployKey\<close> gives different files to different pairs of an image and a value type,
  for a hexadecimal rendering of identifiers that is injective and has a fixed length.
\<close>

theorem DeployKey_injective:
  assumes "\<And>i j. Hex i = Hex j \<Longrightarrow> i = j"
    and "\<And>i. length (Hex i) = 64"
  shows "DeployKey Hex i t = DeployKey Hex j u \<longleftrightarrow> i = j \<and> t = u"
proof
  assume "DeployKey Hex i t = DeployKey Hex j u"
  then have "Hex i @ itoa (unat t) @ ''.pvalt'' = Hex j @ itoa (unat u) @ ''.pvalt''"
    by (simp add: DeployKey_def)
  then have "Hex i = Hex j \<and> itoa (unat t) @ ''.pvalt'' = itoa (unat u) @ ''.pvalt''"
    by (metis append_eq_append_conv assms(2))
  then have "Hex i = Hex j" "unat t = unat u"
    by (simp_all add: itoa_inject)
  then show "i = j \<and> t = u"
    using assms(1) word_unat_eq_iff by blast
qed simp

theorem DeployKey_injective_witness: "DeployKey ref_hex 5 1 \<noteq> DeployKey ref_hex 5 17"
  using DeployKey_injective [of ref_hex 5 1 5 17] ref_hex_inject length_ref_hex by simp

end
