(* ===== verification/Storage_Balance.thy ===== *)
theory Storage_Balance
  imports Storage_Keys
begin

text \<open>
  The account balances: \<open>GetBalance\<close> to \<open>SubBalance\<close> of \<open>storage/storage.go\<close> and the
  \<open>StateManager\<close> of \<open>storage/state_manager.go\<close>, which hypersdk calls to charge fees. The
  contract the clients rely on (the transfer action, the fee path, the genesis) is the
  locale \<open>balance_store\<close>: an abstract map of accounts that the operations read, increase
  and decrease. \<open>storage_balances\<close> shows that the code meets it over any state view.
\<close>

section \<open>Operations\<close>

definition innerGetBalance :: "bytes \<Rightarrow> error option \<Rightarrow> (u64 \<times> bool \<times> error option) go" where
  "innerGetBalance v err =
    (if err_is err ErrNotFound then Some (0, False, None)
     else if err \<noteq> None then Some (0, False, err)
     else do { bal \<leftarrow> Uint64 v; Some (bal, True, None) })"

definition getBalance ::
  "'s mutable \<Rightarrow> 's \<Rightarrow> address \<Rightarrow> (bytes \<times> u64 \<times> bool \<times> error option) go" where
  "getBalance im s addr =
    (let k = BalanceKey addr; (v, err) = GetValue im s k
     in do { (bal, exists, err) \<leftarrow> innerGetBalance v err; Some (k, bal, exists, err) })"

definition GetBalance :: "'s mutable \<Rightarrow> 's \<Rightarrow> address \<Rightarrow> (u64 \<times> error option) go" where
  "GetBalance im s addr = do { (_, bal, _, err) \<leftarrow> getBalance im s addr; Some (bal, err) }"

text \<open>\<open>ReadState\<close>, which serves the queries, takes a batch of keys.\<close>

type_synonym read_state = "bytes list \<Rightarrow> bytes list \<times> error option list"

definition GetBalanceFromState :: "read_state \<Rightarrow> address \<Rightarrow> (u64 \<times> error option) go" where
  "GetBalanceFromState f addr =
    (let k = BalanceKey addr; (values, errs) = f [k]
     in do { v \<leftarrow> index values 0;
             e \<leftarrow> index errs 0;
             (bal, _, err) \<leftarrow> innerGetBalance v e;
             Some (bal, err) })"

definition setBalance :: "'s mutable \<Rightarrow> 's \<Rightarrow> bytes \<Rightarrow> u64 \<Rightarrow> error option \<times> 's" where
  "setBalance mu s key balance = Insert mu s key (AppendUint64 balance)"

definition SetBalance :: "'s mutable \<Rightarrow> 's \<Rightarrow> address \<Rightarrow> u64 \<Rightarrow> error option \<times> 's" where
  "SetBalance mu s addr balance = (let k = BalanceKey addr in setBalance mu s k balance)"

definition AddBalance ::
  "math64 \<Rightarrow> 's mutable \<Rightarrow> 's \<Rightarrow> address \<Rightarrow> u64 \<Rightarrow> bool \<Rightarrow> (error option \<times> 's) go" where
  "AddBalance smath mu s addr amount create =
    do { (key, bal, exists, err) \<leftarrow> getBalance mu s addr;
         if err \<noteq> None then Some (err, s)
         else if \<not> exists \<and> \<not> create then Some (None, s)
         else case Add64 smath bal amount of
             Inl _ \<Rightarrow> Some (Some (ErrWrap ErrInvalidBalance ''could not add balance''), s)
           | Inr nbal \<Rightarrow> Some (setBalance mu s key nbal) }"

definition SubBalance ::
  "math64 \<Rightarrow> 's mutable \<Rightarrow> 's \<Rightarrow> address \<Rightarrow> u64 \<Rightarrow> (error option \<times> 's) go" where
  "SubBalance smath mu s addr amount =
    do { (key, bal, _, err) \<leftarrow> getBalance mu s addr;
         if err \<noteq> None then Some (err, s)
         else case Sub64 smath bal amount of
             Inl _ \<Rightarrow> Some (Some (ErrWrap ErrInvalidBalance ''could not subtract balance''), s)
           | Inr nbal \<Rightarrow>
               if nbal = 0 then Some (Remove mu s key)
               else Some (setBalance mu s key nbal) }"

subsection \<open>\<open>StateManager\<close>\<close>

text \<open>
  \<open>state.Keys\<close> maps each declared key to a permission. The repository only ever asks for
  \<open>state.All\<close>, so the map is the set of its keys.
\<close>

type_synonym state_keys = "bytes set"

definition SponsorStateKeys :: "address \<Rightarrow> state_keys" where
  "SponsorStateKeys addr = {BalanceKey addr}"

definition CanDeduct :: "'s mutable \<Rightarrow> 's \<Rightarrow> address \<Rightarrow> u64 \<Rightarrow> error option go" where
  "CanDeduct im s addr amount =
    do { (bal, err) \<leftarrow> GetBalance im s addr;
         if err \<noteq> None then Some err
         else if bal < amount then Some (Some ErrInvalidBalance)
         else Some None }"

definition Deduct ::
  "math64 \<Rightarrow> 's mutable \<Rightarrow> 's \<Rightarrow> address \<Rightarrow> u64 \<Rightarrow> (error option \<times> 's) go" where
  "Deduct smath mu s addr amount = SubBalance smath mu s addr amount"

definition Refund ::
  "math64 \<Rightarrow> 's mutable \<Rightarrow> 's \<Rightarrow> address \<Rightarrow> u64 \<Rightarrow> (error option \<times> 's) go" where
  "Refund smath mu s addr amount = AddBalance smath mu s addr amount False"

text \<open>The other methods of \<open>StateManager\<close> return the keys of \<^theory_text>\<open>Storage_Keys\<close>.\<close>

definition StateManager_HeightKey :: bytes where "StateManager_HeightKey = HeightKey"
definition StateManager_TimestampKey :: bytes where "StateManager_TimestampKey = TimestampKey"
definition StateManager_FeeKey :: bytes where "StateManager_FeeKey = FeeKey"

definition StateManager_IncomingWarpKeyPrefix :: "ID \<Rightarrow> ID \<Rightarrow> bytes" where
  "StateManager_IncomingWarpKeyPrefix sourceChainID msgID = IncomingWarpKeyPrefix sourceChainID msgID"

definition StateManager_OutgoingWarpKeyPrefix :: "ID \<Rightarrow> bytes" where
  "StateManager_OutgoingWarpKeyPrefix txID = OutgoingWarpKeyPrefix txID"


section \<open>The contract of the balance store\<close>

text \<open>
  An account that is absent holds nothing. The operations act on the account they name:
  a credit creates the account when asked to, a debit that empties it removes it, and an
  amount that does not fit leaves the state as it was with an error that \<open>errors.Is\<close>
  recognises as \<open>ErrInvalidBalance\<close>.
\<close>

definition amount_of :: "u64 option \<Rightarrow> u64" where
  "amount_of b = (case b of None \<Rightarrow> 0 | Some v \<Rightarrow> v)"

lemma amount_of_simps [simp]: "amount_of None = 0" "amount_of (Some v) = v"
  by (simp_all add: amount_of_def)

definition total_on :: "address set \<Rightarrow> (address \<rightharpoonup> u64) \<Rightarrow> nat" where
  "total_on S acc = (\<Sum>a\<in>S. unat (amount_of (acc a)))"

lemma total_on_upd:
  assumes "finite S" "a \<in> S"
  shows "total_on S (acc(a := b)) + unat (amount_of (acc a)) = total_on S acc + unat (amount_of b)"
proof -
  have "total_on S (acc(a := b)) = unat (amount_of b) + total_on (S - {a}) acc"
    using assms by (simp add: total_on_def sum.remove)
  moreover have "total_on S acc = unat (amount_of (acc a)) + total_on (S - {a}) acc"
    using assms by (simp add: total_on_def sum.remove)
  ultimately show ?thesis by simp
qed

locale balance_store =
  fixes get :: "'s \<Rightarrow> address \<Rightarrow> (u64 \<times> error option) go"
    and add :: "'s \<Rightarrow> address \<Rightarrow> u64 \<Rightarrow> bool \<Rightarrow> (error option \<times> 's) go"
    and sub :: "'s \<Rightarrow> address \<Rightarrow> u64 \<Rightarrow> (error option \<times> 's) go"
    and acct :: "'s \<Rightarrow> address \<rightharpoonup> u64"
    and inv :: "'s \<Rightarrow> bool"
    and reach :: "address set"
  assumes get_amount: "inv s \<Longrightarrow> a \<in> reach \<Longrightarrow> get s a = Some (amount_of (acct s a), None)"
    and add_absent: "inv s \<Longrightarrow> a \<in> reach \<Longrightarrow> acct s a = None \<Longrightarrow> add s a v False = Some (None, s)"
    and add_fits: "inv s \<Longrightarrow> a \<in> reach \<Longrightarrow> c \<or> acct s a \<noteq> None \<Longrightarrow>
      unat (amount_of (acct s a)) + unat v < 2 ^ 64 \<Longrightarrow>
      \<exists>s'. add s a v c = Some (None, s') \<and> inv s' \<and> acct s' = (acct s)(a \<mapsto> amount_of (acct s a) + v)"
    and add_overflow: "inv s \<Longrightarrow> a \<in> reach \<Longrightarrow> c \<or> acct s a \<noteq> None \<Longrightarrow>
      2 ^ 64 \<le> unat (amount_of (acct s a)) + unat v \<Longrightarrow>
      \<exists>e. add s a v c = Some (Some e, s) \<and> errors_is e ErrInvalidBalance"
    and sub_fits: "inv s \<Longrightarrow> a \<in> reach \<Longrightarrow> v \<le> amount_of (acct s a) \<Longrightarrow>
      \<exists>s'. sub s a v = Some (None, s') \<and> inv s' \<and>
        acct s' = (acct s)(a := if v = amount_of (acct s a) then None
                                else Some (amount_of (acct s a) - v))"
    and sub_insufficient: "inv s \<Longrightarrow> a \<in> reach \<Longrightarrow> amount_of (acct s a) < v \<Longrightarrow>
      \<exists>e. sub s a v = Some (Some e, s) \<and> errors_is e ErrInvalidBalance"
begin

lemma sub_success_iff:
  assumes "inv s" "a \<in> reach"
  shows "(\<exists>s'. sub s a v = Some (None, s')) \<longleftrightarrow> v \<le> amount_of (acct s a)"
  using sub_fits [OF assms, of v] sub_insufficient [OF assms, of v] by (fastforce simp: not_le)

lemma sub_cases:
  assumes "inv s" "a \<in> reach"
  obtains s' where "sub s a v = Some (None, s')" "inv s'" "v \<le> amount_of (acct s a)"
      "acct s' = (acct s)(a := if v = amount_of (acct s a) then None else Some (amount_of (acct s a) - v))"
    | e where "sub s a v = Some (Some e, s)" "errors_is e ErrInvalidBalance" "amount_of (acct s a) < v"
  using sub_fits [OF assms, of v] sub_insufficient [OF assms, of v] by (metis not_le)

lemma sub_amount:
  assumes "inv s" "a \<in> reach" "sub s a v = Some (None, s')"
  shows "inv s' \<and> v \<le> amount_of (acct s a) \<and>
    unat (amount_of (acct s' a)) = unat (amount_of (acct s a)) - unat v \<and>
    (\<forall>b. b \<noteq> a \<longrightarrow> acct s' b = acct s b)"
  using assms by (cases rule: sub_cases [OF assms(1,2), of v]) (auto simp: unat_sub)

lemma add_cases:
  assumes "inv s" "a \<in> reach" "c \<or> acct s a \<noteq> None"
  obtains s' where "add s a v c = Some (None, s')" "inv s'"
      "unat (amount_of (acct s a)) + unat v < 2 ^ 64"
      "acct s' = (acct s)(a \<mapsto> amount_of (acct s a) + v)"
    | e where "add s a v c = Some (Some e, s)" "errors_is e ErrInvalidBalance"
      "2 ^ 64 \<le> unat (amount_of (acct s a)) + unat v"
  using add_fits [OF assms, of v] add_overflow [OF assms, of v] by (metis not_le)

lemma sub_total:
  assumes "inv s" "a \<in> reach" "sub s a v = Some (None, s')" "finite S" "a \<in> S"
  shows "total_on S (acct s') + unat v = total_on S (acct s)"
proof (cases rule: sub_cases [OF assms(1,2), of v])
  case (1 s'')
  then have "acct s' = (acct s)(a := if v = amount_of (acct s a) then None
      else Some (amount_of (acct s a) - v))"
    using assms(3) by simp
  moreover have "unat v \<le> unat (amount_of (acct s a))"
    using 1 by (simp add: word_le_nat_alt)
  ultimately show ?thesis
    using total_on_upd [OF assms(4,5), of "acct s" "acct s' a"] 1(3)
    by (cases "v = amount_of (acct s a)") (simp_all add: unat_sub)
qed (use assms(3) in simp)

lemma add_total:
  assumes "inv s" "a \<in> reach" "add s a v True = Some (None, s')" "finite S" "a \<in> S"
  shows "total_on S (acct s') = total_on S (acct s) + unat v"
proof (cases rule: add_cases [OF assms(1,2), of True v])
  case (2 s'')
  then have "acct s' = (acct s)(a \<mapsto> amount_of (acct s a) + v)"
    using assms(3) by simp
  moreover have "unat (amount_of (acct s a) + v) = unat (amount_of (acct s a)) + unat v"
    using 2 by (simp add: unat_word_ariths)
  ultimately show ?thesis
    using total_on_upd [OF assms(4,5), of "acct s" "acct s' a"] by simp
qed (use assms(3) in simp_all)

end


section \<open>The code meets the contract\<close>

text \<open>
  The accounts behind a state: a balance record is eight big-endian bytes. The operations
  keep that shape, so \<open>Uint64\<close> never panics on a stored balance.
\<close>

definition account :: "(bytes \<rightharpoonup> bytes) \<Rightarrow> address \<rightharpoonup> u64" where
  "account m a = map_option (\<lambda>v. be_word (take 8 v)) (m (BalanceKey a))"

definition wf_balances :: "(bytes \<rightharpoonup> bytes) \<Rightarrow> bool" where
  "wf_balances m \<longleftrightarrow> (\<forall>a v. m (BalanceKey a) = Some v \<longrightarrow> length v = 8)"

lemma account_upd [simp]:
  "account (m(BalanceKey a \<mapsto> be_bytes 8 w)) = (account m)(a \<mapsto> w)"
  "account (m(BalanceKey a := None)) = (account m)(a := None)"
  by (auto simp: account_def fun_eq_iff)

lemma account_other: "(\<And>a. k \<noteq> BalanceKey a) \<Longrightarrow> account (m(k := v)) = account m"
  by (auto simp: account_def fun_eq_iff)

lemma wf_balances_upd [simp]:
  "wf_balances m \<Longrightarrow> wf_balances (m(BalanceKey a \<mapsto> be_bytes 8 w))"
  "wf_balances m \<Longrightarrow> wf_balances (m(BalanceKey a := None))"
  by (auto simp: wf_balances_def)

lemma wf_balances_empty [simp]: "wf_balances Map.empty"
  by (simp add: wf_balances_def)

locale balance_view = state_view M kv scope + checked_math A
  for M :: "'s mutable" and kv :: "'s \<Rightarrow> bytes \<rightharpoonup> bytes" and scope :: "bytes set" and A :: math64
begin

lemma getBalance_eval:
  assumes "wf_balances (kv s)" "BalanceKey a \<in> scope"
  shows "getBalance M s a =
    Some (BalanceKey a, amount_of (account (kv s) a), account (kv s) a \<noteq> None, None)"
proof (cases "kv s (BalanceKey a)")
  case None
  then show ?thesis
    by (simp add: getBalance_def innerGetBalance_def get_none [OF assms(2)] account_def)
next
  case (Some v)
  then have "length v = 8"
    using assms(1) by (simp add: wf_balances_def)
  with Some show ?thesis
    by (simp add: getBalance_def innerGetBalance_def get_some [OF assms(2)] account_def Uint64_def)
qed

lemma setBalance_eval:
  assumes "BalanceKey a \<in> scope"
  obtains s' where "setBalance M s (BalanceKey a) w = (None, s')"
    "kv s' = (kv s)(BalanceKey a \<mapsto> be_bytes 8 w)"
  by (rule insert_declared [OF assms, of "be_bytes 8 w" s])
    (simp_all add: setBalance_def AppendUint64_def)

sublocale store: balance_store "GetBalance M" "AddBalance A M" "SubBalance A M"
  "\<lambda>s. account (kv s)" "\<lambda>s. wf_balances (kv s)" "{a. BalanceKey a \<in> scope}"
proof unfold_locales
  fix s a v c
  assume wf: "wf_balances (kv s)" and "a \<in> {a. BalanceKey a \<in> scope}"
  then have a: "BalanceKey a \<in> scope" by simp
  note get = getBalance_eval [OF wf a]
  show "GetBalance M s a = Some (amount_of (account (kv s) a), None)"
    by (simp add: GetBalance_def get)
  show "AddBalance A M s a v False = Some (None, s)" if "account (kv s) a = None"
    using that by (simp add: AddBalance_def get)
  show "\<exists>s'. AddBalance A M s a v c = Some (None, s') \<and> wf_balances (kv s') \<and>
      account (kv s') = (account (kv s))(a \<mapsto> amount_of (account (kv s) a) + v)"
    if "c \<or> account (kv s) a \<noteq> None" "unat (amount_of (account (kv s) a)) + unat v < 2 ^ 64"
    by (rule setBalance_eval [OF a, of s "amount_of (account (kv s) a) + v"])
      (use that wf in \<open>auto simp: AddBalance_def get Add64_ok\<close>)
  show "\<exists>e. AddBalance A M s a v c = Some (Some e, s) \<and> errors_is e ErrInvalidBalance"
    if "c \<or> account (kv s) a \<noteq> None" "2 ^ 64 \<le> unat (amount_of (account (kv s) a)) + unat v"
    using that Add64_overflow by (fastforce simp: AddBalance_def get)
  show "\<exists>s'. SubBalance A M s a v = Some (None, s') \<and> wf_balances (kv s') \<and>
      account (kv s') = (account (kv s))(a := if v = amount_of (account (kv s) a) then None
        else Some (amount_of (account (kv s) a) - v))"
    if "v \<le> amount_of (account (kv s) a)"
  proof (cases "v = amount_of (account (kv s) a)")
    case True
    then show ?thesis
      by (rule_tac remove_key [OF a, of s]) (use wf in \<open>simp add: SubBalance_def get Sub64_ok\<close>)
  next
    case False
    then show ?thesis
      by (rule_tac setBalance_eval [OF a, of s "amount_of (account (kv s) a) - v"])
        (use that wf in \<open>auto simp: SubBalance_def get Sub64_ok\<close>)
  qed
  show "\<exists>e. SubBalance A M s a v = Some (Some e, s) \<and> errors_is e ErrInvalidBalance"
    if "amount_of (account (kv s) a) < v"
    using that Sub64_underflow by (fastforce simp: SubBalance_def get)
qed

lemma is_balance_store:
  "balance_store (GetBalance M) (AddBalance A M) (SubBalance A M)
    (\<lambda>s. account (kv s)) (\<lambda>s. wf_balances (kv s)) {a. BalanceKey a \<in> scope}"
  by unfold_locales

end

lemma storage_balances:
  assumes "state_view M kv scope" "checked_math A"
  shows "balance_store (GetBalance M) (AddBalance A M) (SubBalance A M)
    (\<lambda>s. account (kv s)) (\<lambda>s. wf_balances (kv s)) {a. BalanceKey a \<in> scope}"
  by (rule balance_view.is_balance_store [OF balance_view.intro [OF assms]])

interpretation ref_balances: balance_view "mem_view scope" "\<lambda>s. s" scope ref_math for scope
  by unfold_locales


section \<open>Footprint and panics\<close>

lemma getBalance_key: "getBalance M s a = Some (k, r) \<Longrightarrow> k = BalanceKey a"
  by (auto simp: getBalance_def Let_def bind_eq_Some_conv split: prod.splits)

context state_view
begin

lemma setBalance_frame:
  "setBalance M s k w = (e, s') \<Longrightarrow> k' \<noteq> k \<Longrightarrow> kv s' k' = kv s k'"
  by (simp add: setBalance_def insert_frame)

lemma AddBalance_frame:
  assumes "AddBalance A M s a v c = Some (e, s')" "k \<noteq> BalanceKey a"
  shows "kv s' k = kv s k"
  using assms
  by (auto simp: AddBalance_def Let_def bind_eq_Some_conv split: if_splits sum.splits prod.splits
      dest!: getBalance_key dest: setBalance_frame)

lemma SubBalance_frame:
  assumes "SubBalance A M s a v = Some (e, s')" "k \<noteq> BalanceKey a"
  shows "kv s' k = kv s k"
  using assms
  by (auto simp: SubBalance_def Let_def bind_eq_Some_conv split: if_splits sum.splits prod.splits
      dest!: getBalance_key dest: setBalance_frame remove_frame)

lemma getBalance_returns:
  assumes "wf_balances (kv s)"
  shows "\<exists>b x e. getBalance M s a = Some (BalanceKey a, b, x, e)"
proof (cases "BalanceKey a \<in> scope")
  case True
  then show ?thesis
    using assms by (cases "kv s (BalanceKey a)")
      (auto simp: getBalance_def innerGetBalance_def get_declared wf_balances_def Uint64_def)
next
  case False
  then show ?thesis
    using get_outside [of "BalanceKey a" s] by (auto simp: getBalance_def innerGetBalance_def)
qed

lemma AddBalance_returns: "wf_balances (kv s) \<Longrightarrow> \<exists>e s'. AddBalance A M s a v c = Some (e, s')"
  using getBalance_returns [of s a] by (auto simp: AddBalance_def split: sum.splits)

lemma SubBalance_returns: "wf_balances (kv s) \<Longrightarrow> \<exists>e s'. SubBalance A M s a v = Some (e, s')"
  using getBalance_returns [of s a] by (auto simp: SubBalance_def split: sum.splits)

end

section \<open>The fee path\<close>

text \<open>
  hypersdk asks \<open>CanDeduct\<close> before it executes a transaction, then calls \<open>Deduct\<close> for the
  maximal fee and \<open>Refund\<close> for the part that was not used.
\<close>

context balance_store
begin

lemma deduct_then_refund:
  assumes "inv s" "a \<in> reach" "fee \<le> amount_of (acct s a)" "unused \<le> fee"
  shows "\<exists>s1 s2. sub s a fee = Some (None, s1) \<and> add s1 a unused False = Some (None, s2) \<and>
    acct s2 = (acct s)(a := if fee = amount_of (acct s a) then None
                            else Some (amount_of (acct s a) - (fee - unused)))"
proof (cases rule: sub_cases [OF assms(1,2), of fee])
  case (1 s1)
  let ?b = "amount_of (acct s a)"
  show ?thesis
  proof (cases "fee = ?b")
    case True
    with 1 have "acct s1 a = None" by simp
    with add_absent [OF 1(2) assms(2) this, of unused] 1 True show ?thesis
      by fastforce
  next
    case False
    with 1 have s1: "acct s1 = (acct s)(a \<mapsto> ?b - fee)" by simp
    have le: "unat unused \<le> unat fee" "unat fee \<le> unat ?b"
      using assms(3,4) by (simp_all add: word_le_nat_alt)
    have "unat (?b - fee) + unat unused < 2 ^ 64"
      using le unat_u64_less [of ?b] by (simp add: unat_sub assms(3))
    then obtain s2 where s2: "add s1 a unused False = Some (None, s2)"
        "acct s2 = (acct s1)(a \<mapsto> amount_of (acct s1 a) + unused)"
      using add_fits [OF 1(2) assms(2), of False unused] s1 by auto
    have "?b - fee + unused = ?b - (fee - unused)" by simp
    with 1 False s1 s2 show ?thesis by auto
  qed
qed (use assms(3) in simp)

end

text \<open>
  \<open>CanDeduct\<close> answers yes exactly when the sponsor's balance covers the amount, and then
  \<open>Deduct\<close> succeeds; refunding any part of the deduction afterwards leaves the account with
  its old balance less what was kept, unless the deduction took the whole balance: then the
  account is gone and the refund is dropped. All other accounts are untouched.
\<close>

theorem fee_path:
  assumes "state_view M kv scope" "checked_math A"
    and "wf_balances (kv s)" "SponsorStateKeys a \<subseteq> scope" "unused \<le> fee"
  shows "(CanDeduct M s a fee = Some None \<longleftrightarrow> fee \<le> amount_of (account (kv s) a)) \<and>
    (fee \<le> amount_of (account (kv s) a) \<longrightarrow>
      (\<exists>s1 s2. Deduct A M s a fee = Some (None, s1) \<and> Refund A M s1 a unused = Some (None, s2) \<and>
        account (kv s2) = (account (kv s))(a := if fee = amount_of (account (kv s) a) then None
          else Some (amount_of (account (kv s) a) - (fee - unused)))))"
proof (rule conjI)
  note store = storage_balances [OF assms(1,2)]
  have a: "a \<in> {a. BalanceKey a \<in> scope}"
    using assms(4) by (simp add: SponsorStateKeys_def)
  show "CanDeduct M s a fee = Some None \<longleftrightarrow> fee \<le> amount_of (account (kv s) a)"
    by (simp add: CanDeduct_def balance_store.get_amount [OF store assms(3) a] linorder_not_less [symmetric])
  show "fee \<le> amount_of (account (kv s) a) \<longrightarrow>
      (\<exists>s1 s2. Deduct A M s a fee = Some (None, s1) \<and> Refund A M s1 a unused = Some (None, s2) \<and>
        account (kv s2) = (account (kv s))(a := if fee = amount_of (account (kv s) a) then None
          else Some (amount_of (account (kv s) a) - (fee - unused))))"
    using balance_store.deduct_then_refund [OF store assms(3) a _ assms(5)]
    by (simp add: Deduct_def Refund_def)
qed

text \<open>A state of one account, for the witnesses.\<close>

definition one_account :: "address \<Rightarrow> u64 \<Rightarrow> bytes \<rightharpoonup> bytes" where
  "one_account a v = [BalanceKey a \<mapsto> be_bytes 8 v]"

lemma one_account_wf [simp]: "wf_balances (one_account a v)"
  by (simp add: one_account_def)

lemma one_account_account [simp]: "account (one_account a v) b = (if b = a then Some v else None)"
  by (simp add: one_account_def account_def)

theorem fee_path_witness:
  "CanDeduct (mem_view {BalanceKey 5}) (one_account 5 100) 5 30 = Some None \<and>
   (\<exists>s1 s2. Deduct ref_math (mem_view {BalanceKey 5}) (one_account 5 100) 5 30 = Some (None, s1) \<and>
      Refund ref_math (mem_view {BalanceKey 5}) s1 5 10 = Some (None, s2) \<and>
      account s2 5 = Some 80)"
  using fee_path [OF mem_view.state_view_axioms ref_math.checked_math_axioms,
      of "one_account 5 100" 5 "{BalanceKey 5}" 10 30]
  by (auto simp: SponsorStateKeys_def)

end
