(* ===== verification/Storage_Verify.thy ===== *)
theory Storage_Verify
  imports Storage_Keys
begin

text \<open>
  The records of proof verification in \<open>storage/storage.go\<close>: image hashes, the voting
  deadline of a verification, the weight of the votes for it, its status and who voted.
  \<open>get_eval\<close>, \<open>put_eval\<close> and the frame lemmas describe each operation over any state view;
  the theories of the actions rest on them.
\<close>

section \<open>Operations\<close>

definition GetRegistration :: "'s mutable \<Rightarrow> 's \<Rightarrow> ID \<Rightarrow> u16 \<Rightarrow> (u16 \<times> u64 \<times> error option) go" where
  "GetRegistration im s imageID valType =
    (let key = ChunkKey imageID valType; (data, err) = GetValue im s key
     in if err \<noteq> None then Some (0, 0, err)
        else do { d2 \<leftarrow> slice data 0 2;
                  chunkSize \<leftarrow> Uint16 d2;
                  rest \<leftarrow> slice data 2 (length data);
                  totalBytes \<leftarrow> Uint64 rest;
                  Some (chunkSize, totalBytes, None) })"

definition StoreHashKeyType ::
  "'s mutable \<Rightarrow> 's \<Rightarrow> ID \<Rightarrow> u16 \<Rightarrow> bytes \<Rightarrow> error option \<times> 's" where
  "StoreHashKeyType mu s imageID valType data =
    (let k = HashKey imageID valType in Insert mu s k data)"

definition GetHashKeyType :: "'s mutable \<Rightarrow> 's \<Rightarrow> ID \<Rightarrow> u16 \<Rightarrow> bytes \<times> error option" where
  "GetHashKeyType im s imageID valType =
    (let k = HashKey imageID valType in GetValue im s k)"

text \<open>
  The deadline is \<open>timeStamp\<close> (milliseconds) plus the time-out, clamped to 20 and 300 and
  taken as seconds: \<open>uint64(timeStamp + int64(timeOut)*1000)\<close>.
\<close>

definition StoreTimeOut ::
  "'s mutable \<Rightarrow> 's \<Rightarrow> ID \<Rightarrow> u64 \<Rightarrow> i64 \<Rightarrow> error option \<times> 's" where
  "StoreTimeOut mu s txID timeOut timeStamp =
    (let k = TimeOutKey txID;
         timeOut = (if timeOut < 20 then 20 else timeOut);
         timeOut = (if timeOut > 300 then 300 else timeOut)
     in Insert mu s k (AppendUint64 (timeStamp + timeOut * 1000)))"

definition GetTimeOut :: "'s mutable \<Rightarrow> 's \<Rightarrow> ID \<Rightarrow> (i64 \<times> error option) go" where
  "GetTimeOut im s txID =
    (let k = TimeOutKey txID; (val, err) = GetValue im s k
     in if err \<noteq> None then Some (0, err)
        else do { t \<leftarrow> Uint64 val; Some (t, None) })"

text \<open>
  An error other than \<open>ErrNotFound\<close> takes the \<open>else\<close> branch, where the empty value makes
  \<open>Uint64\<close> panic. The sum of the weights wraps around. The result of the write of the
  status is dropped.
\<close>

definition UpdateWeight ::
  "'s mutable \<Rightarrow> 's \<Rightarrow> ID \<Rightarrow> u64 \<Rightarrow> u64 \<Rightarrow> (error option \<times> 's) go" where
  "UpdateWeight mu s txID weight totalWeight =
    (let k = WeightKey txID; (val, err) = GetValue mu s k
     in if err_is err ErrNotFound then Some (Insert mu s k (AppendUint64 weight))
        else do { vW \<leftarrow> Uint64 val;
                  let nW = vW + weight;
                  let s = (if nW > totalWeight
                           then snd (Insert mu s (StatusKey txID) (AppendUint16 1)) else s);
                  Some (Insert mu s k (AppendUint64 nW)) })"

definition GetVerifyStatusFromState ::
  "(bytes list \<Rightarrow> bytes list \<times> error option list) \<Rightarrow> ID \<Rightarrow> (bool \<times> error option) go" where
  "GetVerifyStatusFromState f txID =
    (let k = StatusKey txID; (values, errs) = f [k]
     in do { e \<leftarrow> index errs 0;
             if e \<noteq> None then Some (False, e)
             else do { v \<leftarrow> index values 0;
                       st \<leftarrow> Uint16 v;
                       Some (st = 1, None) } })"

definition GetVote :: "'s mutable \<Rightarrow> 's \<Rightarrow> ID \<Rightarrow> address \<Rightarrow> error option go" where
  "GetVote im s txID actor =
    (let k = VoteKey txID actor; (v, err) = GetValue im s k
     in if err_is err ErrNotFound then Some None
        else do { x \<leftarrow> Uint16 v;
                  if x = 1 then Some (Some ErrAlreadyVoted) else Some err })"

definition StoreVote :: "'s mutable \<Rightarrow> 's \<Rightarrow> ID \<Rightarrow> address \<Rightarrow> error option \<times> 's" where
  "StoreVote mu s txID actor =
    (let k = VoteKey txID actor in Insert mu s k (AppendUint16 1))"

section \<open>The records behind a state\<close>

text \<open>
  What the entries of a verification say: the deadline, the weight so far, whether the
  status is set, who voted. \<open>wf_verify\<close> is the shape the operations keep: weights and
  deadlines are eight bytes, a vote record is the two bytes of 1.
\<close>

definition deadline :: "(bytes \<rightharpoonup> bytes) \<Rightarrow> ID \<Rightarrow> i64 option" where
  "deadline m i = map_option (\<lambda>v. be_word (take 8 v)) (m (TimeOutKey i))"

definition weight_of :: "(bytes \<rightharpoonup> bytes) \<Rightarrow> ID \<Rightarrow> u64 option" where
  "weight_of m i = map_option (\<lambda>v. be_word (take 8 v)) (m (WeightKey i))"

definition status_set :: "(bytes \<rightharpoonup> bytes) \<Rightarrow> ID \<Rightarrow> bool" where
  "status_set m i \<longleftrightarrow> m (StatusKey i) = Some (AppendUint16 1)"

definition has_voted :: "(bytes \<rightharpoonup> bytes) \<Rightarrow> ID \<Rightarrow> address \<Rightarrow> bool" where
  "has_voted m i a \<longleftrightarrow> m (VoteKey i a) = Some (AppendUint16 1)"

definition wf_verify :: "(bytes \<rightharpoonup> bytes) \<Rightarrow> bool" where
  "wf_verify m \<longleftrightarrow>
    (\<forall>i v. m (TimeOutKey i) = Some v \<longrightarrow> length v = 8) \<and>
    (\<forall>i v. m (WeightKey i) = Some v \<longrightarrow> length v = 8) \<and>
    (\<forall>i a v. m (VoteKey i a) = Some v \<longrightarrow> v = AppendUint16 1)"

lemma wf_verifyD:
  assumes "wf_verify m"
  shows "m (TimeOutKey i) = Some v \<Longrightarrow> length v = 8" "m (WeightKey i) = Some v \<Longrightarrow> length v = 8"
    "m (VoteKey i a) = Some v \<Longrightarrow> v = AppendUint16 1"
  using assms unfolding wf_verify_def by blast+

lemma wf_verify_empty [simp]: "wf_verify Map.empty"
  by (simp add: wf_verify_def)

lemma wf_verify_upd [simp]:
  assumes "wf_verify m"
  shows "wf_verify (m(TimeOutKey i \<mapsto> AppendUint64 t))" "wf_verify (m(WeightKey i \<mapsto> AppendUint64 w))"
    "wf_verify (m(VoteKey i a \<mapsto> AppendUint16 1))" "wf_verify (m(StatusKey i \<mapsto> v))"
    "wf_verify (m(HashKey i h \<mapsto> v))" "wf_verify (m(BalanceKey a \<mapsto> v))"
    "wf_verify (m(BalanceKey a := None))"
  using assms by (auto simp: wf_verify_def)

lemma records_upd [simp]:
  "deadline (m(TimeOutKey i \<mapsto> AppendUint64 t)) = (deadline m)(i \<mapsto> t)"
  "deadline (m(WeightKey i := v)) = deadline m" "deadline (m(StatusKey i := v)) = deadline m"
  "deadline (m(VoteKey i a := v)) = deadline m"
  "weight_of (m(WeightKey i \<mapsto> AppendUint64 t)) = (weight_of m)(i \<mapsto> t)"
  "weight_of (m(TimeOutKey i := v)) = weight_of m" "weight_of (m(StatusKey i := v)) = weight_of m"
  "weight_of (m(VoteKey i a := v)) = weight_of m"
  "has_voted (m(WeightKey i := v)) = has_voted m" "has_voted (m(StatusKey i := v)) = has_voted m"
  "has_voted (m(TimeOutKey i := v)) = has_voted m"
  "has_voted (m(VoteKey i a \<mapsto> AppendUint16 1)) j b \<longleftrightarrow> has_voted m j b \<or> (i = j \<and> a = b)"
  "status_set (m(WeightKey i := v)) = status_set m" "status_set (m(VoteKey i a := v)) = status_set m"
  "status_set (m(TimeOutKey i := v)) = status_set m"
  "status_set (m(StatusKey i \<mapsto> AppendUint16 1)) j \<longleftrightarrow> status_set m j \<or> i = j"
  by (auto simp: deadline_def weight_of_def has_voted_def status_set_def fun_eq_iff AppendUint64_def)


section \<open>What each operation does over a state view\<close>

definition clamp_timeout :: "u64 \<Rightarrow> u64" where
  "clamp_timeout t = (if t < 20 then 20 else if t > 300 then 300 else t)"

lemma clamp_timeout_range: "20 \<le> clamp_timeout t \<and> clamp_timeout t \<le> 300"
  by (auto simp: clamp_timeout_def not_less)

context state_view
begin

lemma StoreTimeOut_eval:
  assumes "TimeOutKey i \<in> scope"
  obtains s' where "StoreTimeOut M s i t ts = (None, s')"
    "kv s' = (kv s)(TimeOutKey i \<mapsto> AppendUint64 (ts + clamp_timeout t * 1000))"
proof -
  obtain s' where "Insert M s (TimeOutKey i) (AppendUint64 (ts + clamp_timeout t * 1000)) = (None, s')"
    "kv s' = (kv s)(TimeOutKey i \<mapsto> AppendUint64 (ts + clamp_timeout t * 1000))"
    by (rule insert_declared [OF assms, of "AppendUint64 (ts + clamp_timeout t * 1000)" s]) simp_all
  then show thesis
    by (intro that) (auto simp: StoreTimeOut_def clamp_timeout_def Let_def)
qed

lemma GetTimeOut_eval:
  assumes "TimeOutKey i \<in> scope" "wf_verify (kv s)"
  shows "GetTimeOut M s i =
    Some (case deadline (kv s) i of None \<Rightarrow> (0, Some ErrNotFound) | Some t \<Rightarrow> (t, None))"
proof (cases "kv s (TimeOutKey i)")
  case None
  then show ?thesis
    by (simp add: GetTimeOut_def deadline_def get_none [OF assms(1)])
next
  case (Some v)
  then show ?thesis
    using wf_verifyD(1) [OF assms(2) Some]
    by (simp add: GetTimeOut_def deadline_def get_some [OF assms(1)] Uint64_def)
qed

lemma UpdateWeight_first:
  assumes "WeightKey i \<in> scope" "weight_of (kv s) i = None"
  obtains s' where "UpdateWeight M s i w tot = Some (None, s')"
    "kv s' = (kv s)(WeightKey i \<mapsto> AppendUint64 w)"
proof -
  have "kv s (WeightKey i) = None"
    using assms(2) by (simp add: weight_of_def)
  then show thesis
    by (rule_tac insert_declared [OF assms(1), of "AppendUint64 w" s])
      (auto simp: UpdateWeight_def get_none [OF assms(1)] intro: that)
qed

lemma UpdateWeight_next:
  assumes "WeightKey i \<in> scope" "wf_verify (kv s)" "weight_of (kv s) i = Some old"
  obtains s' where "UpdateWeight M s i w tot = Some (None, s')"
    "kv s' = (if old + w > tot \<and> StatusKey i \<in> scope
       then (kv s)(StatusKey i \<mapsto> AppendUint16 1) else kv s)(WeightKey i \<mapsto> AppendUint64 (old + w))"
proof -
  obtain v where v: "kv s (WeightKey i) = Some v" "be_word (take 8 v) = old" "length v = 8"
    using assms(3) wf_verifyD(2) [OF assms(2)] by (auto simp: weight_of_def)
  define s1 where "s1 = (if old + w > tot then snd (Insert M s (StatusKey i) (AppendUint16 1)) else s)"
  have s1: "kv s1 = (if old + w > tot \<and> StatusKey i \<in> scope
       then (kv s)(StatusKey i \<mapsto> AppendUint16 1) else kv s)"
  proof (cases "StatusKey i \<in> scope")
    case True
    obtain s2 where "Insert M s (StatusKey i) (AppendUint16 1) = (None, s2)"
      "kv s2 = (kv s)(StatusKey i \<mapsto> AppendUint16 1)"
      by (rule insert_declared [OF True, of "AppendUint16 1" s]) simp_all
    with True show ?thesis by (simp add: s1_def)
  next
    case False
    obtain e s2 where "Insert M s (StatusKey i) (AppendUint16 1) = (Some e, s2)" "kv s2 = kv s"
      by (rule insert_outside [OF False])
    with False show ?thesis by (simp add: s1_def)
  qed
  obtain s' where s': "Insert M s1 (WeightKey i) (AppendUint64 (old + w)) = (None, s')"
    "kv s' = (kv s1)(WeightKey i \<mapsto> AppendUint64 (old + w))"
    by (rule insert_declared [OF assms(1), of "AppendUint64 (old + w)" s1]) simp_all
  then have "UpdateWeight M s i w tot = Some (None, s')"
    using v by (simp add: UpdateWeight_def get_some [OF assms(1) v(1)] Uint64_def Let_def s1_def)
  with s' s1 show thesis by (intro that) simp_all
qed

lemma GetVote_eval:
  assumes "VoteKey i a \<in> scope" "wf_verify (kv s)"
  shows "GetVote M s i a = Some (if has_voted (kv s) i a then Some ErrAlreadyVoted else None)"
proof (cases "kv s (VoteKey i a)")
  case None
  then show ?thesis
    by (simp add: GetVote_def has_voted_def get_none [OF assms(1)])
next
  case (Some v)
  then show ?thesis
    using wf_verifyD(3) [OF assms(2) Some]
    by (simp add: GetVote_def has_voted_def get_some [OF assms(1) Some])
qed

lemma StoreVote_eval:
  assumes "VoteKey i a \<in> scope"
  obtains s' where "StoreVote M s i a = (None, s')" "kv s' = (kv s)(VoteKey i a \<mapsto> AppendUint16 1)"
  by (rule insert_declared [OF assms, of "AppendUint16 1" s]) (simp_all add: StoreVote_def)

subsection \<open>Footprints\<close>

lemma StoreTimeOut_frame:
  "StoreTimeOut M s i t ts = (e, s') \<Longrightarrow> k \<noteq> TimeOutKey i \<Longrightarrow> kv s' k = kv s k"
  by (auto simp: StoreTimeOut_def Let_def insert_frame)

lemma StoreHashKeyType_frame:
  "StoreHashKeyType M s i h d = (e, s') \<Longrightarrow> k \<noteq> HashKey i h \<Longrightarrow> kv s' k = kv s k"
  by (auto simp: StoreHashKeyType_def insert_frame)

lemma StoreVote_frame:
  "StoreVote M s i a = (e, s') \<Longrightarrow> k \<noteq> VoteKey i a \<Longrightarrow> kv s' k = kv s k"
  by (auto simp: StoreVote_def insert_frame)

lemma Insert_snd_frame: "k' \<noteq> k \<Longrightarrow> kv (snd (Insert M s k v)) k' = kv s k'"
  using insert_frame [of s k v] by (cases "Insert M s k v") simp

lemma UpdateWeight_frame:
  assumes "UpdateWeight M s i w tot = Some (e, s')" "k \<noteq> WeightKey i" "k \<noteq> StatusKey i"
  shows "kv s' k = kv s k"
  using assms
  by (auto simp: UpdateWeight_def Let_def bind_eq_Some_conv Insert_snd_frame
      split: if_splits prod.splits dest: insert_frame)

end


section \<open>The claim about deadlines\<close>

lemma sint_clamped:
  "sint (clamp_timeout t * 1000) = uint (clamp_timeout t) * 1000"
  "20 \<le> uint (clamp_timeout t)" "uint (clamp_timeout t) \<le> 300"
proof -
  have r: "20 \<le> uint (clamp_timeout t)" "uint (clamp_timeout t) \<le> 300"
    using clamp_timeout_range [of t] by (simp_all add: word_le_def)
  then show "20 \<le> uint (clamp_timeout t)" "uint (clamp_timeout t) \<le> 300" .
  have u: "uint (clamp_timeout t * 1000) = uint (clamp_timeout t) * 1000"
    using r by (simp add: uint_word_ariths)
  have "sint (clamp_timeout t * 1000) = signed_take_bit 63 (uint (clamp_timeout t * 1000))"
    by (simp add: sint_uint)
  also have "\<dots> = uint (clamp_timeout t * 1000)"
    using u r by (intro signed_take_bit_int_eq_self) simp_all
  finally show "sint (clamp_timeout t * 1000) = uint (clamp_timeout t) * 1000"
    using u by simp
qed

text \<open>
  The deadline of a verification that was stored at time \<open>ts\<close> (in milliseconds) is read
  back as \<open>ts\<close> plus the requested time-out in seconds, clamped to the range from 20 to 300
  seconds, as long as \<open>ts + 300000\<close> fits an \<open>int64\<close>.
\<close>

theorem timeout_roundtrip:
  assumes "state_view M kv scope" "TimeOutKey i \<in> scope"
    and "StoreTimeOut M s i t ts = (e, s')"
    and "sint ts < 2 ^ 63 - 300000"
  shows "e = None \<and> (\<exists>d. GetTimeOut M s' i = Some (d, None) \<and>
    sint d = sint ts + 1000 * max 20 (min 300 (uint t)) \<and>
    sint ts + 20000 \<le> sint d \<and> sint d \<le> sint ts + 300000)"
proof -
  let ?c = "clamp_timeout t"
  obtain s1 where s1: "StoreTimeOut M s i t ts = (None, s1)"
    "kv s1 = (kv s)(TimeOutKey i \<mapsto> AppendUint64 (ts + ?c * 1000))"
    by (rule state_view.StoreTimeOut_eval [OF assms(1,2)])
  have get: "GetTimeOut M s1 i = Some (ts + ?c * 1000, None)"
    using state_view.get_some [OF assms(1,2), of s1] s1(2) by (simp add: GetTimeOut_def)
  have low: "- (2 ^ 63) \<le> sint ts"
    using sint_greater_eq [of ts] by simp
  have "sint (ts + ?c * 1000) = sint ts + sint (?c * 1000)"
    using low assms(4) sint_clamped [of t] by (intro sint_add_in_range) simp_all
  moreover have "uint ?c = max 20 (min 300 (uint t))"
    by (auto simp: clamp_timeout_def word_less_def)
  ultimately show ?thesis
    using s1(1) get assms(3) sint_clamped [of t] by simp
qed

theorem timeout_roundtrip_witness:
  "\<exists>s'. StoreTimeOut (mem_view {TimeOutKey 9}) Map.empty 9 5 1000 = (None, s') \<and>
     (\<exists>d. GetTimeOut (mem_view {TimeOutKey 9}) s' 9 = Some (d, None) \<and> sint d = 21000)"
proof -
  obtain e s' where s: "StoreTimeOut (mem_view {TimeOutKey 9}) Map.empty 9 5 1000 = (e, s')"
    by fastforce
  from timeout_roundtrip [OF mem_view.state_view_axioms _ s] s show ?thesis by auto
qed

end
