(* ===== verification/Codec.thy ===== *)
theory Codec
  imports Storage_Keys
begin

text \<open>
  hypersdk's \<open>codec.Packer\<close>, through which every action and every signature is written to
  and read from a transaction. It is a parameter: a record of its methods over an
  unspecified packer state. The locale \<open>packer_spec\<close> holds its documented behaviour, and
  derives two small calculi from it, one for \<open>Marshal\<close> (\<open>writes\<close>) and one for
  \<open>Unmarshal\<close> (\<open>reads\<close>), so that the round trip of an action is a composition of the
  round trips of its fields.
\<close>

record 'p packer =
  PackID :: "'p \<Rightarrow> ID \<Rightarrow> 'p"
  PackUint64 :: "'p \<Rightarrow> u64 \<Rightarrow> 'p"
  PackBool :: "'p \<Rightarrow> bool \<Rightarrow> 'p"
  PackString :: "'p \<Rightarrow> string \<Rightarrow> 'p"
  PackBytes :: "'p \<Rightarrow> bytes \<Rightarrow> 'p"
  PackFixedBytes :: "'p \<Rightarrow> bytes \<Rightarrow> 'p"
  PackAddress :: "'p \<Rightarrow> address \<Rightarrow> 'p"
  UnpackID :: "'p \<Rightarrow> bool \<Rightarrow> ID \<times> 'p"
  UnpackUint64 :: "'p \<Rightarrow> bool \<Rightarrow> u64 \<times> 'p"
  UnpackBool :: "'p \<Rightarrow> bool \<times> 'p"
  UnpackString :: "'p \<Rightarrow> bool \<Rightarrow> string \<times> 'p"
  UnpackBytes :: "'p \<Rightarrow> nat \<Rightarrow> bool \<Rightarrow> bytes \<times> 'p"
  UnpackFixedBytes :: "'p \<Rightarrow> nat \<Rightarrow> bytes \<times> 'p"
  UnpackAddress :: "'p \<Rightarrow> address \<times> 'p"
  PackerErr :: "'p \<Rightarrow> error option"

text \<open>
  \<open>writes\<close>: from a packer in the state before, \<open>w\<close> either ends in an error or has
  appended \<open>enc\<close> to what was written. \<open>reads\<close>: \<open>u\<close> consumes \<open>enc\<close> from the front of the
  unread bytes, returns \<open>x\<close> and raises no error, whatever follows.
\<close>

definition writes :: "'p packer \<Rightarrow> ('p \<Rightarrow> bytes) \<Rightarrow> ('p \<Rightarrow> 'p) \<Rightarrow> bytes \<Rightarrow> bool" where
  "writes P written w enc \<longleftrightarrow> (\<forall>p. PackerErr P (w p) = None \<longrightarrow>
     PackerErr P p = None \<and> written (w p) = written p @ enc)"

definition reads :: "'p packer \<Rightarrow> ('p \<Rightarrow> bytes) \<Rightarrow> ('p \<Rightarrow> 'x \<times> 'p) \<Rightarrow> 'x \<Rightarrow> bytes \<Rightarrow> bool" where
  "reads P unread u x enc \<longleftrightarrow> (\<forall>p r. PackerErr P p = None \<longrightarrow> unread p = enc @ r \<longrightarrow>
     (\<exists>p'. u p = (x, p') \<and> PackerErr P p' = None \<and> unread p' = r))"

lemma writes_comp:
  "writes P wr f e \<Longrightarrow> writes P wr g e' \<Longrightarrow> writes P wr (\<lambda>p. g (f p)) (e @ e')"
  unfolding writes_def by (metis append_assoc)

lemma readsE:
  assumes "reads P un u x e" "PackerErr P p = None" "un p = e @ r"
  obtains p' where "u p = (x, p')" "PackerErr P p' = None" "un p' = r"
  using assms(1) [unfolded reads_def, rule_format, OF assms(2,3)] that by blast

lemma reads_bind:
  assumes "reads P un u x e" "reads P un (f x) y e'"
  shows "reads P un (\<lambda>p. case u p of (v, p') \<Rightarrow> f v p') y (e @ e')"
  unfolding reads_def
proof (intro allI impI)
  fix p r assume ok: "PackerErr P p = None" "un p = (e @ e') @ r"
  obtain p1 where p1: "u p = (x, p1)" "PackerErr P p1 = None" "un p1 = e' @ r"
    by (rule readsE [OF assms(1) ok(1), of "e' @ r"]) (use ok(2) in simp_all)
  obtain p2 where "f x p1 = (y, p2)" "PackerErr P p2 = None" "un p2 = r"
    by (rule readsE [OF assms(2) p1(2,3)])
  with p1 show "\<exists>p'. (case u p of (v, p') \<Rightarrow> f v p') = (y, p') \<and> PackerErr P p' = None \<and> un p' = r"
    by simp
qed

lemma reads_return: "reads P un (\<lambda>p. (x, p)) x []"
  by (simp add: reads_def)

lemma reads_last:
  assumes "reads P un u x e" "y = g x"
  shows "reads P un (\<lambda>p. case u p of (v, p') \<Rightarrow> (g v, p')) y e"
  using reads_bind [OF assms(1), of "\<lambda>v p. (g v, p)" "g x" "[]"] by (simp add: reads_return assms(2))

text \<open>The last field of an unmarshaller that checks the packer's error afterwards.\<close>

lemma reads_check:
  assumes "reads P un u x e" "y = Inr (g x)"
  shows "reads P un (\<lambda>p. case u p of (v, p') \<Rightarrow>
    (case PackerErr P p' of None \<Rightarrow> Inr (g v) | Some err \<Rightarrow> Inl err, p')) y e"
  unfolding reads_def
proof (intro allI impI)
  fix p r assume "PackerErr P p = None" "un p = e @ r"
  then obtain p' where "u p = (x, p')" "PackerErr P p' = None" "un p' = r"
    by (rule readsE [OF assms(1)])
  then show "\<exists>p'. (case u p of (v, p') \<Rightarrow>
      (case PackerErr P p' of None \<Rightarrow> Inr (g v) | Some err \<Rightarrow> Inl err, p')) = (y, p') \<and>
      PackerErr P p' = None \<and> un p' = r"
    by (simp add: assms(2))
qed

text \<open>
  The documented behaviour. Fixed-size fields are written as their bytes; strings and byte
  slices in some self-delimiting form (\<open>encS\<close>, \<open>encB\<close>), for at most 65535 bytes of a string.
  A required field that is read as zero or empty, a slice above the limit of the call,
  and an input that is too short are errors; an error is never cleared.
\<close>

locale packer_spec =
  fixes P :: "'p packer" and written unread :: "'p \<Rightarrow> bytes"
    and encS :: "string \<Rightarrow> bytes" and encB :: "bytes \<Rightarrow> bytes"
  assumes PackID_writes: "writes P written (\<lambda>p. PackID P p i) (id_bytes i)"
    and PackUint64_writes: "writes P written (\<lambda>p. PackUint64 P p n) (be_bytes 8 n)"
    and PackBool_writes: "writes P written (\<lambda>p. PackBool P p b) [of_bool b]"
    and PackString_writes: "writes P written (\<lambda>p. PackString P p t) (encS t)"
    and PackBytes_writes: "writes P written (\<lambda>p. PackBytes P p v) (encB v)"
    and PackFixedBytes_writes: "writes P written (\<lambda>p. PackFixedBytes P p v) v"
    and PackAddress_writes: "writes P written (\<lambda>p. PackAddress P p a) (addr_bytes a)"
    and UnpackID_reads: "(req \<longrightarrow> i \<noteq> 0) \<Longrightarrow> reads P unread (\<lambda>p. UnpackID P p req) i (id_bytes i)"
    and UnpackUint64_reads:
      "(req \<longrightarrow> n \<noteq> 0) \<Longrightarrow> reads P unread (\<lambda>p. UnpackUint64 P p req) n (be_bytes 8 n)"
    and UnpackBool_reads: "reads P unread (UnpackBool P) b [of_bool b]"
    and UnpackString_reads: "(req \<longrightarrow> t \<noteq> []) \<Longrightarrow> length t < 2 ^ 16 \<Longrightarrow>
      reads P unread (\<lambda>p. UnpackString P p req) t (encS t)"
    and UnpackBytes_reads: "(req \<longrightarrow> v \<noteq> []) \<Longrightarrow> length v \<le> lim \<Longrightarrow> length v < 2 ^ 31 \<Longrightarrow>
      reads P unread (\<lambda>p. UnpackBytes P p lim req) v (encB v)"
    and UnpackFixedBytes_reads: "length v = len \<Longrightarrow> reads P unread (\<lambda>p. UnpackFixedBytes P p len) v v"
    and UnpackAddress_reads: "reads P unread (UnpackAddress P) a (addr_bytes a)"
    and UnpackUint64_short: "length (unread p) < 8 \<Longrightarrow>
      PackerErr P (snd (UnpackUint64 P p req)) \<noteq> None"
    and UnpackUint64_required: "PackerErr P p = None \<Longrightarrow> unread p = be_bytes 8 (0 :: u64) @ r \<Longrightarrow>
      PackerErr P (snd (UnpackUint64 P p True)) \<noteq> None"
    and UnpackUint64_sticky: "PackerErr P p \<noteq> None \<Longrightarrow>
      PackerErr P (snd (UnpackUint64 P p req)) \<noteq> None"
    and UnpackAddress_short: "length (unread p) < 33 \<Longrightarrow>
      PackerErr P (snd (UnpackAddress P p)) \<noteq> None"
    and UnpackAddress_consumes: "PackerErr P p = None \<Longrightarrow> 33 \<le> length (unread p) \<Longrightarrow>
      unread (snd (UnpackAddress P p)) = drop 33 (unread p)"
begin

lemmas field_writes = PackID_writes PackUint64_writes PackBool_writes PackString_writes
  PackBytes_writes PackFixedBytes_writes PackAddress_writes

lemmas field_reads = UnpackID_reads UnpackUint64_reads UnpackBool_reads UnpackString_reads
  UnpackBytes_reads UnpackFixedBytes_reads UnpackAddress_reads

end


section \<open>The codec contract of a type\<close>

text \<open>
  A type of the repository that is written by \<open>marshal\<close> and read by \<open>unmarshal\<close>, in the
  encoding \<open>enc\<close>. \<open>valid\<close> are the values that can be read back: required fields are not
  zero, lengths are within the limits. The round trip follows, with nothing of what comes
  after the value consumed.
\<close>

locale action_codec =
  fixes P :: "'p packer" and written unread :: "'p \<Rightarrow> bytes"
    and marshal :: "'a \<Rightarrow> 'p \<Rightarrow> 'p" and unmarshal :: "'p \<Rightarrow> (error + 'a) \<times> 'p"
    and enc :: "'a \<Rightarrow> bytes" and valid :: "'a \<Rightarrow> bool"
  assumes marshal_writes: "writes P written (marshal a) (enc a)"
    and unmarshal_reads: "valid a \<Longrightarrow> reads P unread unmarshal (Inr a) (enc a)"
begin

lemma roundtrip:
  assumes "valid a" "PackerErr P (marshal a w) = None" "written w = []"
    and "PackerErr P r = None" "unread r = written (marshal a w) @ rest"
  shows "\<exists>r'. unmarshal r = (Inr a, r') \<and> PackerErr P r' = None \<and> unread r' = rest"
proof -
  have "written (marshal a w) = enc a"
    using marshal_writes [of a] assms(2,3) by (auto simp: writes_def)
  with assms(5) have "unread r = enc a @ rest" by simp
  then show ?thesis
    by (rule_tac readsE [OF unmarshal_reads [OF assms(1)] assms(4)]) auto
qed

end

section \<open>A reference packer\<close>

text \<open>
  The written or unread bytes and an error; strings carry a two-byte length, byte slices
  a four-byte one.
\<close>

type_synonym ref_packer_state = "bytes \<times> error option"

definition packer_error :: error where
  "packer_error = ErrExternal ''packer''"

definition ref_enc_string :: "string \<Rightarrow> bytes" where
  "ref_enc_string t = be_bytes 2 (word_of_nat (length t) :: u16) @ string_bytes t"

definition ref_enc_bytes :: "bytes \<Rightarrow> bytes" where
  "ref_enc_bytes v = be_bytes 4 (word_of_nat (length v) :: u32) @ v"

definition ref_write :: "ref_packer_state \<Rightarrow> bytes \<Rightarrow> ref_packer_state" where
  "ref_write p enc = (if snd p = None then (fst p @ enc, None) else p)"

definition ref_take :: "nat \<Rightarrow> ref_packer_state \<Rightarrow> bytes \<times> ref_packer_state" where
  "ref_take n p = (if snd p = None \<and> n \<le> length (fst p) then (take n (fst p), (drop n (fst p), None))
     else ([], (fst p, Some packer_error)))"

definition ref_require :: "bool \<Rightarrow> 'x \<times> ref_packer_state \<Rightarrow> 'x \<times> ref_packer_state" where
  "ref_require ok r = (case r of (x, (b, e)) \<Rightarrow> (x, (b, if ok then e else Some packer_error)))"

definition ref_take_word :: "nat \<Rightarrow> bool \<Rightarrow> ref_packer_state \<Rightarrow> 'a::len word \<times> ref_packer_state" where
  "ref_take_word n req p =
    (case ref_take n p of (v, p') \<Rightarrow> ref_require (req \<longrightarrow> (be_word v :: 'a word) \<noteq> 0) (be_word v, p'))"

definition ref_packer :: "ref_packer_state packer" where
  "ref_packer =
    \<lparr>PackID = (\<lambda>p i. ref_write p (id_bytes i)),
     PackUint64 = (\<lambda>p n. ref_write p (be_bytes 8 n)),
     PackBool = (\<lambda>p b. ref_write p [of_bool b]),
     PackString = (\<lambda>p t. ref_write p (ref_enc_string t)),
     PackBytes = (\<lambda>p v. ref_write p (ref_enc_bytes v)),
     PackFixedBytes = (\<lambda>p v. ref_write p v),
     PackAddress = (\<lambda>p a. ref_write p (addr_bytes a)),
     UnpackID = (\<lambda>p req. ref_take_word 32 req p),
     UnpackUint64 = (\<lambda>p req. ref_take_word 8 req p),
     UnpackBool = (\<lambda>p. case ref_take 1 p of (v, p') \<Rightarrow> (v = [1], p')),
     UnpackString = (\<lambda>p req. case ref_take 2 p of (l, p1) \<Rightarrow>
       (case ref_take (unat (be_word l :: u16)) p1 of (v, p2) \<Rightarrow>
         ref_require (req \<longrightarrow> v \<noteq> []) (bytes_string v, p2))),
     UnpackBytes = (\<lambda>p lim req. case ref_take 4 p of (l, p1) \<Rightarrow>
       (case ref_take (unat (be_word l :: u32)) p1 of (v, p2) \<Rightarrow>
         ref_require ((req \<longrightarrow> v \<noteq> []) \<and> length v \<le> lim) (v, p2))),
     UnpackFixedBytes = (\<lambda>p n. ref_take n p),
     UnpackAddress = (\<lambda>p. ref_take_word 33 False p),
     PackerErr = snd\<rparr>"

lemma ref_packer_fields [simp]:
  "PackID ref_packer p i = ref_write p (id_bytes i)"
  "PackUint64 ref_packer p n = ref_write p (be_bytes 8 n)"
  "PackBool ref_packer p b = ref_write p [of_bool b]"
  "PackString ref_packer p t = ref_write p (ref_enc_string t)"
  "PackBytes ref_packer p v = ref_write p (ref_enc_bytes v)"
  "PackFixedBytes ref_packer p v = ref_write p v"
  "PackAddress ref_packer p a = ref_write p (addr_bytes a)"
  "UnpackID ref_packer p req = ref_take_word 32 req p"
  "UnpackUint64 ref_packer p req = ref_take_word 8 req p"
  "UnpackFixedBytes ref_packer p m = ref_take m p"
  "UnpackAddress ref_packer p = ref_take_word 33 False p"
  "PackerErr ref_packer p = snd p"
  by (simp_all add: ref_packer_def)

lemma reads_ref_take: "length v = n \<Longrightarrow> reads ref_packer fst (ref_take n) v v"
  by (simp add: reads_def ref_take_def)

lemma reads_ref_word:
  fixes w :: "'a::len word"
  assumes "LENGTH('a) \<le> 8 * n" "req \<longrightarrow> w \<noteq> 0"
  shows "reads ref_packer fst (ref_take_word n req) w (be_bytes n w)"
  using assms by (auto simp: reads_def ref_take_word_def ref_take_def ref_require_def)

lemma writes_ref: "writes ref_packer fst (\<lambda>p. ref_write p e) e"
  by (auto simp: writes_def ref_write_def split: if_splits)

interpretation ref_packer: packer_spec ref_packer fst fst ref_enc_string ref_enc_bytes
proof unfold_locales
  show "reads ref_packer fst (\<lambda>p. UnpackString ref_packer p req) t (ref_enc_string t)"
    if "req \<longrightarrow> t \<noteq> []" "length t < 2 ^ 16" for req t
    using that by (auto simp: reads_def ref_packer_def ref_take_def ref_require_def
        ref_enc_string_def unat_of_nat)
  show "reads ref_packer fst (\<lambda>p. UnpackBytes ref_packer p lim req) v (ref_enc_bytes v)"
    if "req \<longrightarrow> v \<noteq> []" "length v \<le> lim" "length v < 2 ^ 31" for req v lim
    using that by (auto simp: reads_def ref_packer_def ref_take_def ref_require_def
        ref_enc_bytes_def unat_of_nat)
  show "reads ref_packer fst (UnpackBool ref_packer) b [of_bool b]" for b
    by (cases b) (simp_all add: reads_def ref_packer_def ref_take_def)
  show "reads ref_packer fst (\<lambda>p. UnpackID ref_packer p req) i (id_bytes i)"
    if "req \<longrightarrow> i \<noteq> 0" for req i
    using that reads_ref_word [of 32 req i] by simp
  show "reads ref_packer fst (\<lambda>p. UnpackUint64 ref_packer p req) w (be_bytes 8 w)"
    if "req \<longrightarrow> w \<noteq> 0" for req w
    using that reads_ref_word [of 8 req w] by simp
  show "reads ref_packer fst (UnpackAddress ref_packer) a (addr_bytes a)" for a
    using reads_ref_word [of 33 False a] by (simp add: reads_def)
  show "reads ref_packer fst (\<lambda>p. UnpackFixedBytes ref_packer p len) v v"
    if "length v = len" for v len
    using reads_ref_take [OF that] by simp
qed (auto simp: writes_ref ref_take_word_def ref_take_def ref_require_def)

end
