(* ===== verification/Actions_Base.thy ===== *)
theory Actions_Base
  imports Storage_Balance Storage_Verify Codec
begin

text \<open>
  What the actions of \<open>actions/\<close> share: the result of \<open>Execute\<close>, the compute units of
  \<open>actions/consts.go\<close>, the type identifiers of \<open>consts/types.go\<close>, and the contract of an
  action towards hypersdk. The locale \<open>declared_action\<close> says what hypersdk relies on when
  it runs transactions in parallel: an action touches no state key outside the ones it
  declares, reports no more compute units than its maximum, and returns. Each action
  interprets it; inside it, the footprint of a whole sequence of transactions is proved once.
\<close>

section \<open>Results\<close>

text \<open>
  The output bytes of a result: none, the constant \<open>OutputValueZero\<close> of
  \<open>actions/outputs.go\<close>, or an error rendered by hypersdk's \<open>utils.ErrBytes\<close>.
\<close>

datatype output_bytes = NoOutput | OutputValueZero | ErrBytes error

record exec_result =
  success :: bool
  units :: u64
  outputBytes :: output_bytes
  warpMessage :: "bytes option"
  execErr :: "error option"

abbreviation result :: "bool \<Rightarrow> u64 \<Rightarrow> output_bytes \<Rightarrow> error option \<Rightarrow> exec_result" where
  "result ok u out e \<equiv> \<lparr>success = ok, units = u, outputBytes = out, warpMessage = None, execErr = e\<rparr>"

section \<open>Constants\<close>

definition TransferComputeUnits :: u64 where "TransferComputeUnits = 1"
definition RegisterComputeUnits :: u64 where "RegisterComputeUnits = 1000"
definition RegisterImageComputeUnits :: u64 where "RegisterImageComputeUnits = 4000"
definition ValidatorVoteComputeUnits :: u64 where "ValidatorVoteComputeUnits = 5000"
definition SP1ComputeUnits :: u64 where "SP1ComputeUnits = 8000"
definition RiscZeroComputeUnits :: u64 where "RiscZeroComputeUnits = 8000"
definition MidenComputeUnits :: u64 where "MidenComputeUnits = 6000"
definition GnarkComputeUnits :: u64 where "GnarkComputeUnits = 8000"
definition JoltComputeUnits :: u64 where "JoltComputeUnits = 20000"
definition PLONKY2ComputeUnits :: u64 where "PLONKY2ComputeUnits = 8000"

lemmas unit_defs = TransferComputeUnits_def RegisterComputeUnits_def RegisterImageComputeUnits_def
  ValidatorVoteComputeUnits_def SP1ComputeUnits_def RiscZeroComputeUnits_def MidenComputeUnits_def
  GnarkComputeUnits_def JoltComputeUnits_def PLONKY2ComputeUnits_def

definition TransferID :: byte where "TransferID = 0"
definition RegisterID :: byte where "RegisterID = 1"
definition RegisterImageID :: byte where "RegisterImageID = 2"
definition ValidatorVoteID :: byte where "ValidatorVoteID = 3"
definition SP1ID :: byte where "SP1ID = 4"
definition MidenID :: byte where "MidenID = 5"
definition RiscZeroID :: byte where "RiscZeroID = 6"
definition GnarkID :: byte where "GnarkID = 7"
definition JoltID :: byte where "JoltID = 8"
definition Plonky2ID :: byte where "Plonky2ID = 9"

definition ED25519ID :: byte where "ED25519ID = 0"
definition SECP256R1ID :: byte where "SECP256R1ID = 1"
definition BLSID :: byte where "BLSID = 2"

lemmas id_defs = TransferID_def RegisterID_def RegisterImageID_def ValidatorVoteID_def SP1ID_def
  MidenID_def RiscZeroID_def GnarkID_def JoltID_def Plonky2ID_def

section \<open>The contract of an action\<close>

text \<open>A transaction as the executor sees it: the action, its actor, its identifier.\<close>

record 'a tx_call =
  call_action :: 'a
  call_actor :: address
  call_txID :: ID

text \<open>
  The executor runs the calls in order at one block time; a panic ends the run. (hypersdk
  discards the changes of a failed transaction, which it does outside these calls.)
\<close>

fun run_calls ::
  "('a \<Rightarrow> 's \<Rightarrow> i64 \<Rightarrow> address \<Rightarrow> ID \<Rightarrow> (exec_result \<times> 's) go) \<Rightarrow> i64 \<Rightarrow> 'a tx_call list \<Rightarrow> 's \<Rightarrow> 's go"
where
  "run_calls ex ts [] s = Some s"
| "run_calls ex ts (c # cs) s =
    do { (_, s') \<leftarrow> ex (call_action c) s ts (call_actor c) (call_txID c);
         run_calls ex ts cs s' }"

definition wf_state :: "(bytes \<rightharpoonup> bytes) \<Rightarrow> bool" where
  "wf_state m \<longleftrightarrow> wf_balances m \<and> wf_verify m"

lemma wf_state_upd:
  assumes "wf_state m"
  shows "wf_state (m(HashKey i h \<mapsto> v))" "wf_state (m(TimeOutKey i \<mapsto> AppendUint64 t))"
    "wf_state (m(BalanceKey a \<mapsto> be_bytes 8 w))" "wf_state (m(BalanceKey a := None))"
  using assms by (auto simp: wf_state_def wf_balances_def wf_verify_def)

text \<open>The balance operations keep the shape of the whole state, in and out of scope.\<close>

context state_view
begin

lemma setBalance_wf: "setBalance M s (BalanceKey a) w = (e, s') \<Longrightarrow> wf_state (kv s) \<Longrightarrow> wf_state (kv s')"
  using insert_cases [of s "BalanceKey a" "be_bytes 8 w"]
  by (auto simp: setBalance_def AppendUint64_def wf_state_upd)

lemma removeBalance_wf: "Remove M s (BalanceKey a) = (e, s') \<Longrightarrow> wf_state (kv s) \<Longrightarrow> wf_state (kv s')"
  using remove_cases [of s "BalanceKey a"] by (auto simp: wf_state_upd)

lemma SubBalance_wf:
  "SubBalance A M s a v = Some (e, s') \<Longrightarrow> wf_state (kv s) \<Longrightarrow> wf_state (kv s')"
  by (auto simp: SubBalance_def bind_eq_Some_conv split: if_splits sum.splits
      dest!: getBalance_key dest: setBalance_wf removeBalance_wf)

lemma AddBalance_wf:
  "AddBalance A M s a v c = Some (e, s') \<Longrightarrow> wf_state (kv s) \<Longrightarrow> wf_state (kv s')"
  by (auto simp: AddBalance_def bind_eq_Some_conv split: if_splits sum.splits
      dest!: getBalance_key dest: setBalance_wf)

lemma StoreHashKeyType_wf:
  "StoreHashKeyType M s i h d = (e, s') \<Longrightarrow> wf_state (kv s) \<Longrightarrow> wf_state (kv s')"
  using insert_cases [of s "HashKey i h" d] by (auto simp: StoreHashKeyType_def wf_state_upd)

lemma StoreTimeOut_wf:
  "StoreTimeOut M s i t ts = (e, s') \<Longrightarrow> wf_state (kv s) \<Longrightarrow> wf_state (kv s')"
  using insert_cases [of s "TimeOutKey i"]
  by (fastforce simp: StoreTimeOut_def Let_def wf_state_upd)

end

locale declared_action =
  fixes keys :: "'a \<Rightarrow> address \<Rightarrow> ID \<Rightarrow> state_keys"
    and exec :: "'s mutable \<Rightarrow> 'a \<Rightarrow> 's \<Rightarrow> i64 \<Rightarrow> address \<Rightarrow> ID \<Rightarrow> (exec_result \<times> 's) go"
    and maxUnits :: u64
  assumes footprint: "state_view M kv scope \<Longrightarrow> exec M a s ts actor tx = Some (r, s') \<Longrightarrow>
      k \<notin> keys a actor tx \<Longrightarrow> kv s' k = kv s k"
    and bounded: "exec M a s ts actor tx = Some (r, s') \<Longrightarrow> units r \<le> maxUnits"
    and returns: "state_view M kv scope \<Longrightarrow> wf_state (kv s) \<Longrightarrow>
      \<exists>r s'. exec M a s ts actor tx = Some (r, s') \<and> wf_state (kv s')"
begin

lemma run_returns:
  assumes "state_view M kv scope" "wf_state (kv s)"
  shows "\<exists>s'. run_calls (exec M) ts cs s = Some s' \<and> wf_state (kv s')"
  using assms(2)
proof (induction cs arbitrary: s)
  case Nil
  then show ?case by simp
next
  case (Cons c cs)
  obtain r s1 where "exec M (call_action c) s ts (call_actor c) (call_txID c) = Some (r, s1)"
    "wf_state (kv s1)"
    using returns [OF assms(1) Cons.prems] by blast
  with Cons.IH [of s1] show ?case by simp
qed

lemma run_footprint:
  assumes "state_view M kv scope" "run_calls (exec M) ts cs s = Some s'"
    and "\<And>c. c \<in> set cs \<Longrightarrow> k \<notin> keys (call_action c) (call_actor c) (call_txID c)"
  shows "kv s' k = kv s k"
  using assms(2,3)
proof (induction cs arbitrary: s)
  case Nil
  then show ?case by simp
next
  case (Cons c cs)
  obtain r s1 where s1: "exec M (call_action c) s ts (call_actor c) (call_txID c) = Some (r, s1)"
    "run_calls (exec M) ts cs s1 = Some s'"
    using Cons.prems(1) by (auto simp: bind_eq_Some_conv)
  have "kv s1 k = kv s k"
    using footprint [OF assms(1) s1(1)] Cons.prems(2) by simp
  with Cons.IH [OF s1(2)] Cons.prems(2) show ?case by simp
qed

end

end
