(* ===== verification/Actions_Basic.thy ===== *)
theory Actions_Basic
  imports Actions_Base
begin

text \<open>
  The actions of \<open>actions/transfer.go\<close>, \<open>actions/register.go\<close> and
  \<open>actions/register_image.go\<close>: for each its record, the methods of the \<open>chain.Action\<close>
  interface and its unmarshaller, in the order of the source. \<open>Transfer\<close> is the client of
  the contract \<open>balance_store\<close>.
\<close>

section \<open>Transfer\<close>

record transfer =
  Transfer_To :: address
  Transfer_Value :: u64

definition Transfer_GetTypeID :: byte where "Transfer_GetTypeID = TransferID"

definition Transfer_StateKeys :: "transfer \<Rightarrow> address \<Rightarrow> ID \<Rightarrow> state_keys" where
  "Transfer_StateKeys t actor txID = {BalanceKey actor, BalanceKey (Transfer_To t)}"

definition Transfer_StateKeysMaxChunks :: "u16 list" where
  "Transfer_StateKeysMaxChunks = [BalanceChunks, BalanceChunks]"

definition Transfer_OutputsWarpMessage :: bool where "Transfer_OutputsWarpMessage = False"

definition Transfer_Execute ::
  "math64 \<Rightarrow> 's mutable \<Rightarrow> transfer \<Rightarrow> 's \<Rightarrow> i64 \<Rightarrow> address \<Rightarrow> ID \<Rightarrow> (exec_result \<times> 's) go" where
  "Transfer_Execute smath mu t s ts actor txID =
    (if Transfer_Value t = 0 then Some (result False 1 OutputValueZero None, s)
     else do {
       (err, s) \<leftarrow> SubBalance smath mu s actor (Transfer_Value t);
       case err of Some e \<Rightarrow> Some (result False 1 (ErrBytes e) None, s)
       | None \<Rightarrow> do {
           (err, s) \<leftarrow> AddBalance smath mu s (Transfer_To t) (Transfer_Value t) True;
           case err of Some e \<Rightarrow> Some (result False 1 (ErrBytes e) None, s)
           | None \<Rightarrow> Some (result True 1 NoOutput None, s) } })"

definition Transfer_MaxComputeUnits :: u64 where
  "Transfer_MaxComputeUnits = TransferComputeUnits"

definition Transfer_Size :: nat where "Transfer_Size = AddressLen + Uint64Len"

definition Transfer_Marshal :: "'p packer \<Rightarrow> transfer \<Rightarrow> 'p \<Rightarrow> 'p" where
  "Transfer_Marshal P t p =
    (let p = PackAddress P p (Transfer_To t) in PackUint64 P p (Transfer_Value t))"

text \<open>The only unmarshaller that looks at the packer's error.\<close>

definition UnmarshalTransfer :: "'p packer \<Rightarrow> 'p \<Rightarrow> (error + transfer) \<times> 'p" where
  "UnmarshalTransfer P p =
    (let (to, p) = UnpackAddress P p;
         (v, p) = UnpackUint64 P p True
     in (case PackerErr P p of
           Some err \<Rightarrow> Inl err
         | None \<Rightarrow> Inr \<lparr>Transfer_To = to, Transfer_Value = v\<rparr>, p))"

definition Transfer_ValidRange :: "int \<times> int" where "Transfer_ValidRange = (-1, -1)"

section \<open>Register\<close>

record register =
  Register_ProovingSystem :: u64

definition Register_GetTypeID :: byte where "Register_GetTypeID = RegisterID"

definition Register_StateKeys :: "register \<Rightarrow> address \<Rightarrow> ID \<Rightarrow> state_keys" where
  "Register_StateKeys r actor txID = {}"

definition Register_StateKeysMaxChunks :: "u16 list" where "Register_StateKeysMaxChunks = []"

definition Register_OutputsWarpMessage :: bool where "Register_OutputsWarpMessage = False"

definition Register_MaxComputeUnits :: u64 where
  "Register_MaxComputeUnits = RegisterComputeUnits"

definition Register_Size :: nat where "Register_Size = Uint64Len"

definition Register_Marshal :: "'p packer \<Rightarrow> register \<Rightarrow> 'p \<Rightarrow> 'p" where
  "Register_Marshal P r p = PackUint64 P p (Register_ProovingSystem r)"

definition UnmarshalRegister :: "'p packer \<Rightarrow> 'p \<Rightarrow> (error + register) \<times> 'p" where
  "UnmarshalRegister P p =
    (let (v, p) = UnpackUint64 P p True in (Inr \<lparr>Register_ProovingSystem = v\<rparr>, p))"

definition Register_ValidRange :: "int \<times> int" where "Register_ValidRange = (-1, -1)"

definition Register_Execute ::
  "'s mutable \<Rightarrow> register \<Rightarrow> 's \<Rightarrow> i64 \<Rightarrow> address \<Rightarrow> ID \<Rightarrow> (exec_result \<times> 's) go" where
  "Register_Execute mu r s ts actor txID = Some (result True RegisterComputeUnits NoOutput None, s)"

section \<open>RegisterImage\<close>

record register_image =
  RegisterImage_ImageID :: ID
  RegisterImage_ValType :: u64
  RegisterImage_RootHash :: string

definition RegisterImage_GetTypeID :: byte where "RegisterImage_GetTypeID = RegisterImageID"

definition RegisterImage_StateKeys :: "register_image \<Rightarrow> address \<Rightarrow> ID \<Rightarrow> state_keys" where
  "RegisterImage_StateKeys r actor txID =
    {HashKey (RegisterImage_ImageID r) (ucast (RegisterImage_ValType r))}"

definition RegisterImage_StateKeysMaxChunks :: "u16 list" where
  "RegisterImage_StateKeysMaxChunks = [HashChunksMax]"

definition RegisterImage_OutputsWarpMessage :: bool where
  "RegisterImage_OutputsWarpMessage = False"

definition RegisterImage_MaxComputeUnits :: u64 where
  "RegisterImage_MaxComputeUnits = RegisterImageComputeUnits"

definition RegisterImage_Size :: "register_image \<Rightarrow> nat" where
  "RegisterImage_Size r = IDLen + Uint64Len + length (RegisterImage_RootHash r)"

definition RegisterImage_Marshal :: "'p packer \<Rightarrow> register_image \<Rightarrow> 'p \<Rightarrow> 'p" where
  "RegisterImage_Marshal P r p =
    (let p = PackID P p (RegisterImage_ImageID r);
         p = PackUint64 P p (RegisterImage_ValType r)
     in PackString P p (RegisterImage_RootHash r))"

definition UnmarshalRegisterImage :: "'p packer \<Rightarrow> 'p \<Rightarrow> (error + register_image) \<times> 'p" where
  "UnmarshalRegisterImage P p =
    (let (i, p) = UnpackID P p True;
         (v, p) = UnpackUint64 P p True;
         (h, p) = UnpackString P p True
     in (Inr \<lparr>RegisterImage_ImageID = i, RegisterImage_ValType = v, RegisterImage_RootHash = h\<rparr>, p))"

definition RegisterImage_ValidRange :: "int \<times> int" where "RegisterImage_ValidRange = (-1, -1)"

definition RegisterImage_Execute ::
  "'s mutable \<Rightarrow> register_image \<Rightarrow> 's \<Rightarrow> i64 \<Rightarrow> address \<Rightarrow> ID \<Rightarrow> (exec_result \<times> 's) go" where
  "RegisterImage_Execute mu r s ts actor txID =
    (let imageID = RegisterImage_ImageID r;
         valType = ucast (RegisterImage_ValType r) :: u16;
         rootHash = RegisterImage_RootHash r;
         (err, s) = StoreHashKeyType mu s imageID valType (string_bytes rootHash)
     in case err of Some e \<Rightarrow> Some (result False 0 NoOutput (Some e), s)
        | None \<Rightarrow> Some (result True RegisterImageComputeUnits NoOutput None, s))"


section \<open>The contract of an action\<close>

context state_view
begin

lemma Transfer_footprint:
  "Transfer_Execute A M t s ts actor tx = Some (r, s') \<Longrightarrow> k \<notin> Transfer_StateKeys t actor tx \<Longrightarrow>
    kv s' k = kv s k"
  by (auto simp: Transfer_Execute_def Transfer_StateKeys_def bind_eq_Some_conv
      SubBalance_frame AddBalance_frame split: if_splits option.splits)

lemma Transfer_returns:
  assumes wf: "wf_state (kv s)"
  shows "\<exists>r s'. Transfer_Execute A M t s ts actor tx = Some (r, s') \<and> wf_state (kv s')"
proof -
  obtain e s1 where s1: "SubBalance A M s actor (Transfer_Value t) = Some (e, s1)"
    using SubBalance_returns [of s A actor "Transfer_Value t"] wf by (auto simp: wf_state_def)
  have wf1: "wf_state (kv s1)"
    by (rule SubBalance_wf [OF s1 wf])
  obtain e2 s2 where s2: "AddBalance A M s1 (Transfer_To t) (Transfer_Value t) True = Some (e2, s2)"
    using AddBalance_returns [of s1 A "Transfer_To t"] wf1 unfolding wf_state_def by blast
  have "wf_state (kv s2)"
    by (rule AddBalance_wf [OF s2 wf1])
  with s1 s2 wf wf1 show ?thesis
    by (auto simp: Transfer_Execute_def split: option.split)
qed

lemma RegisterImage_footprint:
  "RegisterImage_Execute M a s ts actor tx = Some (r, s') \<Longrightarrow>
    k \<notin> RegisterImage_StateKeys a actor tx \<Longrightarrow> kv s' k = kv s k"
  by (auto simp: RegisterImage_Execute_def RegisterImage_StateKeys_def Let_def
      split: prod.splits option.splits dest: StoreHashKeyType_frame)

lemma RegisterImage_returns:
  assumes "wf_state (kv s)"
  shows "\<exists>r s'. RegisterImage_Execute M a s ts actor tx = Some (r, s') \<and> wf_state (kv s')"
  using StoreHashKeyType_wf [OF _ assms]
  by (auto simp: RegisterImage_Execute_def Let_def split: prod.split option.split)

end

lemma Transfer_bounded:
  "Transfer_Execute A M t s ts actor tx = Some (r, s') \<Longrightarrow> units r \<le> Transfer_MaxComputeUnits"
  by (auto simp: Transfer_Execute_def bind_eq_Some_conv Transfer_MaxComputeUnits_def unit_defs
      split: if_splits option.splits)

lemma RegisterImage_bounded:
  "RegisterImage_Execute M a s ts actor tx = Some (r, s') \<Longrightarrow> units r \<le> RegisterImage_MaxComputeUnits"
  by (auto simp: RegisterImage_Execute_def Let_def RegisterImage_MaxComputeUnits_def unit_defs
      split: prod.splits option.splits)

interpretation transfer: declared_action Transfer_StateKeys "Transfer_Execute A" Transfer_MaxComputeUnits
  for A :: math64
  by unfold_locales
    (fact state_view.Transfer_footprint Transfer_bounded state_view.Transfer_returns)+

interpretation register: declared_action Register_StateKeys Register_Execute Register_MaxComputeUnits
  by unfold_locales (auto simp: Register_Execute_def Register_MaxComputeUnits_def)

interpretation register_image: declared_action RegisterImage_StateKeys RegisterImage_Execute
    RegisterImage_MaxComputeUnits
  by unfold_locales
    (fact state_view.RegisterImage_footprint RegisterImage_bounded state_view.RegisterImage_returns)+


section \<open>The codec of each action\<close>

definition transfer_enc :: "transfer \<Rightarrow> bytes" where
  "transfer_enc t = addr_bytes (Transfer_To t) @ be_bytes 8 (Transfer_Value t)"

definition transfer_valid :: "transfer \<Rightarrow> bool" where
  "transfer_valid t \<longleftrightarrow> Transfer_Value t \<noteq> 0"

definition register_enc :: "register \<Rightarrow> bytes" where
  "register_enc r = be_bytes 8 (Register_ProovingSystem r)"

definition register_valid :: "register \<Rightarrow> bool" where
  "register_valid r \<longleftrightarrow> Register_ProovingSystem r \<noteq> 0"

definition register_image_enc :: "(string \<Rightarrow> bytes) \<Rightarrow> register_image \<Rightarrow> bytes" where
  "register_image_enc encS r = id_bytes (RegisterImage_ImageID r) @
    be_bytes 8 (RegisterImage_ValType r) @ encS (RegisterImage_RootHash r)"

definition register_image_valid :: "register_image \<Rightarrow> bool" where
  "register_image_valid r \<longleftrightarrow> RegisterImage_ImageID r \<noteq> 0 \<and> RegisterImage_ValType r \<noteq> 0 \<and>
    RegisterImage_RootHash r \<noteq> [] \<and> length (RegisterImage_RootHash r) < 2 ^ 16"

sublocale packer_spec \<subseteq> transfer: action_codec P written unread
  "Transfer_Marshal P" "UnmarshalTransfer P" transfer_enc transfer_valid
proof
  show "writes P written (Transfer_Marshal P a) (transfer_enc a)" for a
    unfolding Transfer_Marshal_def transfer_enc_def Let_def
    by (intro writes_comp field_writes)
  show "reads P unread (UnmarshalTransfer P) (Inr a) (transfer_enc a)" if "transfer_valid a" for a
    unfolding UnmarshalTransfer_def transfer_enc_def Let_def
    by (rule reads_bind reads_check field_reads | use that in \<open>simp add: transfer_valid_def\<close>)+
qed

sublocale packer_spec \<subseteq> register: action_codec P written unread
  "Register_Marshal P" "UnmarshalRegister P" register_enc register_valid
proof
  show "writes P written (Register_Marshal P a) (register_enc a)" for a
    unfolding Register_Marshal_def register_enc_def by (rule field_writes)
  show "reads P unread (UnmarshalRegister P) (Inr a) (register_enc a)" if "register_valid a" for a
    unfolding UnmarshalRegister_def register_enc_def Let_def
    by (rule reads_last field_reads | use that in \<open>simp add: register_valid_def\<close>)+
qed

sublocale packer_spec \<subseteq> register_image: action_codec P written unread
  "RegisterImage_Marshal P" "UnmarshalRegisterImage P" "register_image_enc encS" register_image_valid
proof
  show "writes P written (RegisterImage_Marshal P a) (register_image_enc encS a)" for a
    unfolding RegisterImage_Marshal_def register_image_enc_def Let_def append_assoc [symmetric]
    by (intro writes_comp field_writes)
  show "reads P unread (UnmarshalRegisterImage P) (Inr a) (register_image_enc encS a)"
    if "register_image_valid a" for a
    unfolding UnmarshalRegisterImage_def register_image_enc_def Let_def
    by (rule reads_bind reads_last field_reads | use that in \<open>simp add: register_image_valid_def\<close>)+
qed


section \<open>The claims about transfers\<close>

text \<open>
  The specification: on the accounts, a transfer debits the sender (an account that is
  emptied disappears) and then credits the recipient, who may be the sender.
\<close>

definition move :: "(address \<rightharpoonup> u64) \<Rightarrow> address \<Rightarrow> address \<Rightarrow> u64 \<Rightarrow> (address \<rightharpoonup> u64)" where
  "move acc sender receiver v =
    (let debited = acc(sender := if v = amount_of (acc sender) then None
                                 else Some (amount_of (acc sender) - v))
     in debited(receiver \<mapsto> amount_of (debited receiver) + v))"

text \<open>When the recipient's balance can take the amount: always, if the sender is the recipient.\<close>

definition transfer_fits :: "(address \<rightharpoonup> u64) \<Rightarrow> address \<Rightarrow> address \<Rightarrow> u64 \<Rightarrow> bool" where
  "transfer_fits acc sender receiver v \<longleftrightarrow> v \<noteq> 0 \<and> v \<le> amount_of (acc sender) \<and>
    (sender = receiver \<or> unat (amount_of (acc receiver)) + unat v < 2 ^ 64)"

context balance_store
begin

lemma sub_then_add:
  assumes "inv s" "a \<in> reach" "b \<in> reach" "v \<noteq> 0"
  obtains s1 s2 where "transfer_fits (acct s) a b v" "sub s a v = Some (None, s1)"
      "add s1 b v True = Some (None, s2)" "inv s2" "acct s2 = move (acct s) a b v"
    | e where "\<not> transfer_fits (acct s) a b v" "sub s a v = Some (Some e, s)"
    | s1 e where "\<not> transfer_fits (acct s) a b v" "sub s a v = Some (None, s1)"
      "add s1 b v True = Some (Some e, s1)"
proof (cases rule: sub_cases [OF assms(1,2), of v])
  case (1 s1)
  let ?x = "amount_of (acct s a)"
  have s1: "acct s1 = (acct s)(a := if v = ?x then None else Some (?x - v))"
    using 1 by simp
  have vx: "unat v \<le> unat ?x"
    using 1(3) by (simp add: word_le_nat_alt)
  have b: "unat (amount_of (acct s1 b)) + unat v < 2 ^ 64 \<longleftrightarrow> transfer_fits (acct s) a b v"
  proof (cases "a = b")
    case True
    then have "unat (amount_of (acct s1 b)) + unat v = unat ?x"
      using s1 1(3) vx by (auto simp: unat_sub)
    then show ?thesis
      using True 1(3) assms(4) unat_u64_less [of ?x] by (simp add: transfer_fits_def)
  next
    case False
    then show ?thesis
      using s1 1(3) assms(4) by (simp add: transfer_fits_def)
  qed
  show thesis
  proof (cases rule: add_cases [OF 1(2) assms(3), of True v])
    case (2 s2)
    then show thesis
      using that(1) [of s1 s2] b 1(1) s1 by (simp add: move_def Let_def)
  next
    case (3 e)
    then show thesis
      using that(3) [of s1 e] b 1(1) by simp
  qed simp
next
  case (2 e)
  then have "\<not> transfer_fits (acct s) a b v"
    by (auto simp: transfer_fits_def linorder_not_le [symmetric])
  with 2 show thesis
    using that(2) [of e] by simp
qed

end

lemma Transfer_eval:
  assumes "state_view M kv scope" "checked_math A"
    and "wf_balances (kv s)" "Transfer_StateKeys t actor tx \<subseteq> scope"
  shows "\<exists>r s'. Transfer_Execute A M t s ts actor tx = Some (r, s') \<and>
    units r = 1 \<and> execErr r = None \<and>
    (success r \<longleftrightarrow> transfer_fits (account (kv s)) actor (Transfer_To t) (Transfer_Value t)) \<and>
    (success r \<longrightarrow> account (kv s') = move (account (kv s)) actor (Transfer_To t) (Transfer_Value t)) \<and>
    (Transfer_Value t = 0 \<longrightarrow> s' = s \<and> outputBytes r = OutputValueZero)"
proof (cases "Transfer_Value t = 0")
  case True
  then show ?thesis by (simp add: Transfer_Execute_def transfer_fits_def)
next
  case False
  note store = storage_balances [OF assms(1,2)]
  have reach: "actor \<in> {a. BalanceKey a \<in> scope}" "Transfer_To t \<in> {a. BalanceKey a \<in> scope}"
    using assms(4) by (auto simp: Transfer_StateKeys_def)
  show ?thesis
    by (rule balance_store.sub_then_add [OF store assms(3) reach False])
      (use False in \<open>simp_all add: Transfer_Execute_def\<close>)
qed

text \<open>
  C20: a transfer returns without panicking and reports one compute unit and no internal
  error; it succeeds exactly when the amount is not zero, the sender has it and the
  recipient's balance can take it, and then the accounts are those of the specification
  \<open>move\<close>. A transfer of zero changes nothing.
\<close>

theorem Transfer_refines_move:
  assumes "state_view M kv scope" "checked_math A"
    and "wf_balances (kv s)" "Transfer_StateKeys t actor tx \<subseteq> scope"
  shows "\<exists>r s'. Transfer_Execute A M t s ts actor tx = Some (r, s') \<and>
    units r = 1 \<and> execErr r = None \<and>
    (success r \<longleftrightarrow> transfer_fits (account (kv s)) actor (Transfer_To t) (Transfer_Value t)) \<and>
    (success r \<longrightarrow> account (kv s') = move (account (kv s)) actor (Transfer_To t) (Transfer_Value t)) \<and>
    (Transfer_Value t = 0 \<longrightarrow> s' = s \<and> outputBytes r = OutputValueZero)"
  by (rule Transfer_eval [OF assms])

text \<open>Alice, who holds 100, pays Bob 40.\<close>

theorem Transfer_refines_move_witness:
  "\<exists>r s'. Transfer_Execute ref_math (mem_view {BalanceKey 1, BalanceKey 2})
      \<lparr>Transfer_To = 2, Transfer_Value = 40\<rparr> (one_account 1 100) 0 1 7 = Some (r, s') \<and>
    success r \<and> account s' 1 = Some 60 \<and> account s' 2 = Some 40"
  using Transfer_refines_move [OF mem_view.state_view_axioms ref_math.checked_math_axioms,
      of "one_account 1 100" "\<lparr>Transfer_To = 2, Transfer_Value = 40\<rparr>" 1 7 "{BalanceKey 1, BalanceKey 2}" 0]
  by (auto simp: Transfer_StateKeys_def transfer_fits_def move_def)

lemma move_total:
  assumes "finite S" "a \<in> S" "b \<in> S" "transfer_fits acc a b v"
  shows "total_on S (move acc a b v) = total_on S acc"
proof -
  let ?x = "amount_of (acc a)"
  define d where "d = acc(a := if v = ?x then None else Some (?x - v))"
  have le: "v \<le> ?x" "unat v \<le> unat ?x"
    using assms(4) by (simp_all add: transfer_fits_def word_le_nat_alt)
  have "total_on S d + unat ?x = total_on S acc + (unat ?x - unat v)"
    using total_on_upd [OF assms(1,2), of acc "d a"] le by (auto simp: d_def unat_sub)
  then have d: "total_on S d + unat v = total_on S acc"
    using le by simp
  have "unat (amount_of (d b)) + unat v < 2 ^ 64"
  proof (cases "a = b")
    case True
    then have "unat (amount_of (d b)) + unat v = unat ?x"
      using le by (auto simp: d_def unat_sub)
    then show ?thesis using unat_u64_less [of ?x] by simp
  qed (use assms(4) in \<open>simp add: transfer_fits_def d_def\<close>)
  then have "unat (amount_of (d b) + v) = unat (amount_of (d b)) + unat v"
    by (simp add: unat_word_ariths)
  moreover have "move acc a b v = d(b \<mapsto> amount_of (d b) + v)"
    by (simp add: move_def d_def Let_def)
  ultimately show ?thesis
    using total_on_upd [OF assms(1,3), of d "Some (amount_of (d b) + v)"] d by simp
qed

lemma transfer_fits_if_supply_fits:
  assumes "finite S" "a \<in> S" "b \<in> S" "total_on S acc < 2 ^ 64" "v \<noteq> 0" "v \<le> amount_of (acc a)"
  shows "transfer_fits acc a b v"
proof (cases "a = b")
  case False
  have "unat (amount_of (acc a)) + unat (amount_of (acc b)) = total_on {a, b} acc"
    using False by (simp add: total_on_def)
  also have "\<dots> \<le> total_on S acc"
    unfolding total_on_def by (rule sum_mono2) (use assms(1-3) in auto)
  finally have "unat (amount_of (acc b)) + unat v < 2 ^ 64"
    using assms(4,6) by (simp add: word_le_nat_alt)
  with assms(5,6) show ?thesis by (simp add: transfer_fits_def)
qed (use assms(5,6) in \<open>simp add: transfer_fits_def\<close>)

text \<open>
  No transfer creates or destroys tokens: the balances of any finite set of accounts
  that includes sender and recipient add up to the same sum after a successful transfer.
  And when that sum fits 64 bits before, a non-zero transfer of what the sender has cannot
  fail.
\<close>

theorem Transfer_conserves_supply:
  assumes "state_view M kv scope" "checked_math A"
    and "wf_balances (kv s)" "Transfer_StateKeys t actor tx \<subseteq> scope"
    and "finite S" "actor \<in> S" "Transfer_To t \<in> S"
    and "Transfer_Execute A M t s ts actor tx = Some (r, s')"
  shows "(success r \<longrightarrow> total_on S (account (kv s')) = total_on S (account (kv s))) \<and>
    (total_on S (account (kv s)) < 2 ^ 64 \<and> Transfer_Value t \<noteq> 0 \<and>
      Transfer_Value t \<le> amount_of (account (kv s) actor) \<longrightarrow> success r)"
proof -
  obtain r0 s0 where "Transfer_Execute A M t s ts actor tx = Some (r0, s0)"
    "success r0 \<longleftrightarrow> transfer_fits (account (kv s)) actor (Transfer_To t) (Transfer_Value t)"
    "success r0 \<longrightarrow> account (kv s0) = move (account (kv s)) actor (Transfer_To t) (Transfer_Value t)"
    using Transfer_eval [OF assms(1-4)] by blast
  then show ?thesis
    using assms(8) move_total [OF assms(5-7)] transfer_fits_if_supply_fits [OF assms(5-7)] by auto
qed

text \<open>Alice pays Bob, and the two of them hold 100 together before and after.\<close>

theorem Transfer_conserves_supply_witness:
  "\<exists>r s'. Transfer_Execute ref_math (mem_view {BalanceKey 1, BalanceKey 2})
      \<lparr>Transfer_To = 2, Transfer_Value = 40\<rparr> (one_account 1 100) 0 1 7 = Some (r, s') \<and>
    success r \<and> total_on {1, 2} (account s') = 100"
proof -
  obtain r s' where r: "Transfer_Execute ref_math (mem_view {BalanceKey 1, BalanceKey 2})
      \<lparr>Transfer_To = 2, Transfer_Value = 40\<rparr> (one_account 1 100) 0 1 7 = Some (r, s')"
    using Transfer_eval [OF mem_view.state_view_axioms ref_math.checked_math_axioms,
        of "one_account 1 100" "\<lparr>Transfer_To = 2, Transfer_Value = 40\<rparr>" 1 7 "{BalanceKey 1, BalanceKey 2}" 0]
    by (auto simp: Transfer_StateKeys_def)
  from Transfer_conserves_supply [OF mem_view.state_view_axioms ref_math.checked_math_axioms _ _ _ _ _ r,
      of "{1, 2}"] r
  show ?thesis by (auto simp: Transfer_StateKeys_def total_on_def)
qed

end
