(* ===== verification/Actions_Proofs.thy ===== *)
theory Actions_Proofs
  imports Actions_Base
begin

text \<open>
  The proof submissions: \<open>actions/sp1.go\<close>, \<open>risczero.go\<close>, \<open>miden.go\<close>, \<open>jolt.go\<close> and
  \<open>plonky2.go\<close>, each with its record, the methods of \<open>chain.Action\<close> and its unmarshaller.
  The submissions differ in what they carry and in their units, and share what \<open>Execute\<close>
  does: open the voting window of the transaction. The locale \<open>proof_submission\<close> is that
  shared contract; it yields \<open>declared_action\<close>, and each of the five interprets it.
\<close>

section \<open>SP1\<close>

record sp1 =
  SP1_ImageID :: ID
  SP1_ProofValType :: u64
  SP1_TimeOutBlocks :: u64

definition SP1_GetTypeID :: byte where "SP1_GetTypeID = SP1ID"

definition SP1_StateKeys :: "sp1 \<Rightarrow> address \<Rightarrow> ID \<Rightarrow> state_keys" where
  "SP1_StateKeys a actor txID = {TimeOutKey txID}"

definition SP1_StateKeysMaxChunks :: "u16 list" where "SP1_StateKeysMaxChunks = [TimeOutChunks]"

definition SP1_OutputsWarpMessage :: bool where "SP1_OutputsWarpMessage = False"

definition SP1_MaxComputeUnits :: u64 where "SP1_MaxComputeUnits = SP1ComputeUnits"

definition SP1_Size :: "sp1 \<Rightarrow> nat" where
  "SP1_Size a = IDLen + Uint64Len * 2"

definition SP1_Marshal :: "'p packer \<Rightarrow> sp1 \<Rightarrow> 'p \<Rightarrow> 'p" where
  "SP1_Marshal P a p =
    (let p = PackID P p (SP1_ImageID a);
         p = PackUint64 P p (SP1_ProofValType a)
     in PackUint64 P p (SP1_TimeOutBlocks a))"

definition UnmarshalSP1 :: "'p packer \<Rightarrow> 'p \<Rightarrow> (error + sp1) \<times> 'p" where
  "UnmarshalSP1 P p =
    (let (i, p) = UnpackID P p True;
         (v, p) = UnpackUint64 P p True;
         (w, p) = UnpackUint64 P p True
     in (Inr \<lparr>SP1_ImageID = i,
          SP1_ProofValType = v,
          SP1_TimeOutBlocks = w\<rparr>, p))"

definition SP1_ValidRange :: "int \<times> int" where "SP1_ValidRange = (-1, -1)"

definition SP1_Execute ::
  "'s mutable \<Rightarrow> sp1 \<Rightarrow> 's \<Rightarrow> i64 \<Rightarrow> address \<Rightarrow> ID \<Rightarrow> (exec_result \<times> 's) go" where
  "SP1_Execute mu a s ts actor txID =
    (let (err, s) = StoreTimeOut mu s txID (SP1_TimeOutBlocks a) ts
     in case err of
          Some e \<Rightarrow> Some (result False 4000 NoOutput (Some (ErrWrap e ''unable to store time out'')), s)
        | None \<Rightarrow> Some (result True 8000 NoOutput None, s))"

section \<open>RiscZero\<close>

record risc_zero =
  RiscZero_ImageID :: ID
  RiscZero_ProofValType :: u64
  RiscZero_RiscZeroImageID :: string
  RiscZero_TimeOutBlocks :: u64

text \<open>The request and the reply of the verifier service.\<close>

record risc_zero_args =
  RiscZeroArgs_RiscZeroImageID :: string
  RiscZeroArgs_ProofFilePath :: string

record risc_zero_reply =
  RiscZeroReply_IsSubmitted :: bool

definition RiscZero_GetTypeID :: byte where "RiscZero_GetTypeID = RiscZeroID"

definition RiscZero_StateKeys :: "risc_zero \<Rightarrow> address \<Rightarrow> ID \<Rightarrow> state_keys" where
  "RiscZero_StateKeys a actor txID = {TimeOutKey txID}"

definition RiscZero_StateKeysMaxChunks :: "u16 list" where "RiscZero_StateKeysMaxChunks = [TimeOutChunks]"

definition RiscZero_OutputsWarpMessage :: bool where "RiscZero_OutputsWarpMessage = False"

definition RiscZero_MaxComputeUnits :: u64 where "RiscZero_MaxComputeUnits = RiscZeroComputeUnits"

definition RiscZero_Size :: "risc_zero \<Rightarrow> nat" where
  "RiscZero_Size a = IDLen + Uint64Len * 2 + length (RiscZero_RiscZeroImageID a)"

definition RiscZero_Marshal :: "'p packer \<Rightarrow> risc_zero \<Rightarrow> 'p \<Rightarrow> 'p" where
  "RiscZero_Marshal P a p =
    (let p = PackID P p (RiscZero_ImageID a);
         p = PackUint64 P p (RiscZero_ProofValType a);
         p = PackString P p (RiscZero_RiscZeroImageID a)
     in PackUint64 P p (RiscZero_TimeOutBlocks a))"

definition UnmarshalRiscZero :: "'p packer \<Rightarrow> 'p \<Rightarrow> (error + risc_zero) \<times> 'p" where
  "UnmarshalRiscZero P p =
    (let (i, p) = UnpackID P p True;
         (v, p) = UnpackUint64 P p True;
         (w, p) = UnpackString P p True;
         (x, p) = UnpackUint64 P p True
     in (Inr \<lparr>RiscZero_ImageID = i,
          RiscZero_ProofValType = v,
          RiscZero_RiscZeroImageID = w,
          RiscZero_TimeOutBlocks = x\<rparr>, p))"

definition RiscZero_ValidRange :: "int \<times> int" where "RiscZero_ValidRange = (-1, -1)"

definition RiscZero_Execute ::
  "'s mutable \<Rightarrow> risc_zero \<Rightarrow> 's \<Rightarrow> i64 \<Rightarrow> address \<Rightarrow> ID \<Rightarrow> (exec_result \<times> 's) go" where
  "RiscZero_Execute mu a s ts actor txID =
    (let (err, s) = StoreTimeOut mu s txID (RiscZero_TimeOutBlocks a) ts
     in case err of
          Some e \<Rightarrow> Some (result False 4000 NoOutput (Some (ErrWrap e ''unable to store time out'')), s)
        | None \<Rightarrow> Some (result True 6000 NoOutput None, s))"

section \<open>Miden\<close>

record miden =
  Miden_ImageID :: ID
  Miden_ProofValType :: u64
  Miden_CodeFrontEnd :: string
  Miden_InputsFrontEnd :: string
  Miden_OutputsFrontEnd :: string
  Miden_TimeOutBlocks :: u64

record action_miden_request_args =
  MidenArgs_CodeFrontEnd :: string
  MidenArgs_InputsFrontEnd :: string
  MidenArgs_OutputsFrontEnd :: string
  MidenArgs_ProofFilePath :: string

record miden_reply =
  MidenReply_IsValid :: bool

definition Miden_GetTypeID :: byte where "Miden_GetTypeID = MidenID"

definition Miden_StateKeys :: "miden \<Rightarrow> address \<Rightarrow> ID \<Rightarrow> state_keys" where
  "Miden_StateKeys a actor txID = {TimeOutKey txID}"

definition Miden_StateKeysMaxChunks :: "u16 list" where "Miden_StateKeysMaxChunks = [TimeOutChunks]"

definition Miden_OutputsWarpMessage :: bool where "Miden_OutputsWarpMessage = False"

definition Miden_MaxComputeUnits :: u64 where "Miden_MaxComputeUnits = MidenComputeUnits"

definition Miden_Size :: "miden \<Rightarrow> nat" where
  "Miden_Size a = IDLen + Uint64Len * 2 + length (Miden_CodeFrontEnd a) +
    length (Miden_InputsFrontEnd a) + length (Miden_OutputsFrontEnd a)"

definition Miden_Marshal :: "'p packer \<Rightarrow> miden \<Rightarrow> 'p \<Rightarrow> 'p" where
  "Miden_Marshal P a p =
    (let p = PackID P p (Miden_ImageID a);
         p = PackUint64 P p (Miden_ProofValType a);
         p = PackString P p (Miden_CodeFrontEnd a);
         p = PackString P p (Miden_InputsFrontEnd a);
         p = PackString P p (Miden_OutputsFrontEnd a)
     in PackUint64 P p (Miden_TimeOutBlocks a))"

definition UnmarshalMiden :: "'p packer \<Rightarrow> 'p \<Rightarrow> (error + miden) \<times> 'p" where
  "UnmarshalMiden P p =
    (let (i, p) = UnpackID P p True;
         (v, p) = UnpackUint64 P p True;
         (w, p) = UnpackString P p True;
         (x, p) = UnpackString P p True;
         (y, p) = UnpackString P p True;
         (z, p) = UnpackUint64 P p True
     in (Inr \<lparr>Miden_ImageID = i,
          Miden_ProofValType = v,
          Miden_CodeFrontEnd = w,
          Miden_InputsFrontEnd = x,
          Miden_OutputsFrontEnd = y,
          Miden_TimeOutBlocks = z\<rparr>, p))"

definition Miden_ValidRange :: "int \<times> int" where "Miden_ValidRange = (-1, -1)"

definition Miden_Execute ::
  "'s mutable \<Rightarrow> miden \<Rightarrow> 's \<Rightarrow> i64 \<Rightarrow> address \<Rightarrow> ID \<Rightarrow> (exec_result \<times> 's) go" where
  "Miden_Execute mu a s ts actor txID =
    (let (err, s) = StoreTimeOut mu s txID (Miden_TimeOutBlocks a) ts
     in case err of
          Some e \<Rightarrow> Some (result False 4000 NoOutput (Some (ErrWrap e ''unable to store time out'')), s)
        | None \<Rightarrow> Some (result True 6000 NoOutput None, s))"

section \<open>Jolt\<close>

record jolt =
  Jolt_ImageID :: ID
  Jolt_ProofValType :: u64
  Jolt_TimeOutBlocks :: u64

definition Jolt_GetTypeID :: byte where "Jolt_GetTypeID = JoltID"

definition Jolt_StateKeys :: "jolt \<Rightarrow> address \<Rightarrow> ID \<Rightarrow> state_keys" where
  "Jolt_StateKeys a actor txID = {TimeOutKey txID}"

definition Jolt_StateKeysMaxChunks :: "u16 list" where "Jolt_StateKeysMaxChunks = [TimeOutChunks]"

definition Jolt_OutputsWarpMessage :: bool where "Jolt_OutputsWarpMessage = False"

definition Jolt_MaxComputeUnits :: u64 where "Jolt_MaxComputeUnits = JoltComputeUnits"

definition Jolt_Size :: "jolt \<Rightarrow> nat" where
  "Jolt_Size a = IDLen + Uint64Len * 2"

definition Jolt_Marshal :: "'p packer \<Rightarrow> jolt \<Rightarrow> 'p \<Rightarrow> 'p" where
  "Jolt_Marshal P a p =
    (let p = PackID P p (Jolt_ImageID a);
         p = PackUint64 P p (Jolt_ProofValType a)
     in PackUint64 P p (Jolt_TimeOutBlocks a))"

definition UnmarshalJolt :: "'p packer \<Rightarrow> 'p \<Rightarrow> (error + jolt) \<times> 'p" where
  "UnmarshalJolt P p =
    (let (i, p) = UnpackID P p True;
         (v, p) = UnpackUint64 P p True;
         (w, p) = UnpackUint64 P p True
     in (Inr \<lparr>Jolt_ImageID = i,
          Jolt_ProofValType = v,
          Jolt_TimeOutBlocks = w\<rparr>, p))"

definition Jolt_ValidRange :: "int \<times> int" where "Jolt_ValidRange = (-1, -1)"

definition Jolt_Execute ::
  "'s mutable \<Rightarrow> jolt \<Rightarrow> 's \<Rightarrow> i64 \<Rightarrow> address \<Rightarrow> ID \<Rightarrow> (exec_result \<times> 's) go" where
  "Jolt_Execute mu a s ts actor txID =
    (let (err, s) = StoreTimeOut mu s txID (Jolt_TimeOutBlocks a) ts
     in case err of
          Some e \<Rightarrow> Some (result False 4000 NoOutput (Some (ErrWrap e ''unable to store time out'')), s)
        | None \<Rightarrow> Some (result True 8000 NoOutput None, s))"

section \<open>PLONKY2\<close>

record plonky2 =
  PLONKY2_ImageID :: ID
  PLONKY2_ProofValType :: u64
  PLONKY2_CommonDataValType :: u64
  PLONKY2_VerifierDataValType :: u64
  PLONKY2_TimeOutBlocks :: u64

definition PLONKY2_GetTypeID :: byte where "PLONKY2_GetTypeID = Plonky2ID"

definition PLONKY2_StateKeys :: "plonky2 \<Rightarrow> address \<Rightarrow> ID \<Rightarrow> state_keys" where
  "PLONKY2_StateKeys a actor txID = {TimeOutKey txID}"

definition PLONKY2_StateKeysMaxChunks :: "u16 list" where "PLONKY2_StateKeysMaxChunks = [TimeOutChunks]"

definition PLONKY2_OutputsWarpMessage :: bool where "PLONKY2_OutputsWarpMessage = False"

definition PLONKY2_MaxComputeUnits :: u64 where "PLONKY2_MaxComputeUnits = PLONKY2ComputeUnits"

definition PLONKY2_Size :: "plonky2 \<Rightarrow> nat" where
  "PLONKY2_Size a = IDLen + Uint64Len * 2"

definition PLONKY2_Marshal :: "'p packer \<Rightarrow> plonky2 \<Rightarrow> 'p \<Rightarrow> 'p" where
  "PLONKY2_Marshal P a p =
    (let p = PackID P p (PLONKY2_ImageID a);
         p = PackUint64 P p (PLONKY2_ProofValType a);
         p = PackUint64 P p (PLONKY2_CommonDataValType a);
         p = PackUint64 P p (PLONKY2_VerifierDataValType a)
     in PackUint64 P p (PLONKY2_TimeOutBlocks a))"

definition UnmarshalPLONKY2 :: "'p packer \<Rightarrow> 'p \<Rightarrow> (error + plonky2) \<times> 'p" where
  "UnmarshalPLONKY2 P p =
    (let (i, p) = UnpackID P p True;
         (v, p) = UnpackUint64 P p True;
         (w, p) = UnpackUint64 P p True;
         (x, p) = UnpackUint64 P p True;
         (y, p) = UnpackUint64 P p True
     in (Inr \<lparr>PLONKY2_ImageID = i,
          PLONKY2_ProofValType = v,
          PLONKY2_CommonDataValType = w,
          PLONKY2_VerifierDataValType = x,
          PLONKY2_TimeOutBlocks = y\<rparr>, p))"

definition PLONKY2_ValidRange :: "int \<times> int" where "PLONKY2_ValidRange = (-1, -1)"

definition PLONKY2_Execute ::
  "'s mutable \<Rightarrow> plonky2 \<Rightarrow> 's \<Rightarrow> i64 \<Rightarrow> address \<Rightarrow> ID \<Rightarrow> (exec_result \<times> 's) go" where
  "PLONKY2_Execute mu a s ts actor txID =
    (let (err, s) = StoreTimeOut mu s txID (PLONKY2_TimeOutBlocks a) ts
     in case err of
          Some e \<Rightarrow> Some (result False 4000 NoOutput (Some (ErrWrap e ''unable to store time out'')), s)
        | None \<Rightarrow> Some (result True 8000 NoOutput None, s))"

section \<open>The contract of a submission\<close>

text \<open>
  Whatever else it carries, a submission opens a voting window of \<open>timeout\<close> seconds for its
  transaction and reports \<open>okUnits\<close> when that succeeded.
\<close>

locale proof_submission =
  fixes exec :: "'s mutable \<Rightarrow> 'a \<Rightarrow> 's \<Rightarrow> i64 \<Rightarrow> address \<Rightarrow> ID \<Rightarrow> (exec_result \<times> 's) go"
    and keys :: "'a \<Rightarrow> address \<Rightarrow> ID \<Rightarrow> state_keys"
    and timeout :: "'a \<Rightarrow> u64" and okUnits maxUnits :: u64
  assumes exec_stores: "StoreTimeOut M s tx (timeout a) ts = (None, s') \<Longrightarrow>
      exec M a s ts actor tx = Some (result True okUnits NoOutput None, s')"
    and exec_fails: "StoreTimeOut M s tx (timeout a) ts = (Some e, s') \<Longrightarrow>
      exec M a s ts actor tx =
        Some (result False 4000 NoOutput (Some (ErrWrap e ''unable to store time out'')), s')"
    and declares: "keys a actor tx = {TimeOutKey tx}"
    and units_within: "okUnits \<le> maxUnits" "4000 \<le> maxUnits"
begin

lemma exec_cases:
  assumes "exec M a s ts actor tx = Some (r, s')"
  obtains "StoreTimeOut M s tx (timeout a) ts = (None, s')" "r = result True okUnits NoOutput None"
    | e where "StoreTimeOut M s tx (timeout a) ts = (Some e, s')"
      "r = result False 4000 NoOutput (Some (ErrWrap e ''unable to store time out''))"
proof -
  obtain e s1 where st: "StoreTimeOut M s tx (timeout a) ts = (e, s1)"
    by (cases "StoreTimeOut M s tx (timeout a) ts")
  then show thesis
    using assms that exec_stores exec_fails by (cases e) auto
qed

lemma opens_window:
  assumes "state_view M kv scope" "TimeOutKey tx \<in> scope"
  shows "\<exists>s'. exec M a s ts actor tx = Some (result True okUnits NoOutput None, s') \<and>
    kv s' = (kv s)(TimeOutKey tx \<mapsto> AppendUint64 (ts + clamp_timeout (timeout a) * 1000))"
  by (rule state_view.StoreTimeOut_eval [OF assms, where s = s and t = "timeout a" and ts = ts])
    (blast dest: exec_stores)

lemma submission_footprint:
  assumes "state_view M kv scope" "exec M a s ts actor tx = Some (r, s')" "k \<notin> keys a actor tx"
  shows "kv s' k = kv s k"
  using assms(2) by (rule exec_cases)
    (use assms(3) in \<open>auto simp: declares dest: state_view.StoreTimeOut_frame [OF assms(1)]\<close>)

lemma submission_bounded:
  assumes "exec M a s ts actor tx = Some (r, s')"
  shows "units r \<le> maxUnits"
  using assms by (rule exec_cases) (simp_all add: units_within)

lemma submission_returns:
  assumes "state_view M kv scope" "wf_state (kv s)"
  shows "\<exists>r s'. exec M a s ts actor tx = Some (r, s') \<and> wf_state (kv s')"
proof (cases "StoreTimeOut M s tx (timeout a) ts")
  case (Pair e s1)
  then have "wf_state (kv s1)"
    using state_view.StoreTimeOut_wf [OF assms(1)] assms(2) by blast
  with Pair show ?thesis
    using exec_stores exec_fails by (cases e) blast+
qed

end

sublocale proof_submission \<subseteq> action: declared_action keys exec maxUnits
  by unfold_locales (fact submission_footprint submission_bounded submission_returns)+

lemmas submission_defs = SP1_Execute_def RiscZero_Execute_def Miden_Execute_def Jolt_Execute_def
  PLONKY2_Execute_def SP1_StateKeys_def RiscZero_StateKeys_def Miden_StateKeys_def
  Jolt_StateKeys_def PLONKY2_StateKeys_def SP1_MaxComputeUnits_def RiscZero_MaxComputeUnits_def
  Miden_MaxComputeUnits_def Jolt_MaxComputeUnits_def PLONKY2_MaxComputeUnits_def unit_defs

interpretation sp1: proof_submission SP1_Execute SP1_StateKeys SP1_TimeOutBlocks 8000 SP1_MaxComputeUnits
  by unfold_locales (simp_all add: submission_defs)

interpretation risc_zero: proof_submission RiscZero_Execute RiscZero_StateKeys RiscZero_TimeOutBlocks 6000 RiscZero_MaxComputeUnits
  by unfold_locales (simp_all add: submission_defs)

interpretation miden: proof_submission Miden_Execute Miden_StateKeys Miden_TimeOutBlocks 6000 Miden_MaxComputeUnits
  by unfold_locales (simp_all add: submission_defs)

interpretation jolt: proof_submission Jolt_Execute Jolt_StateKeys Jolt_TimeOutBlocks 8000 Jolt_MaxComputeUnits
  by unfold_locales (simp_all add: submission_defs)

interpretation plonky2: proof_submission PLONKY2_Execute PLONKY2_StateKeys PLONKY2_TimeOutBlocks 8000 PLONKY2_MaxComputeUnits
  by unfold_locales (simp_all add: submission_defs)

section \<open>The codec of each submission\<close>

definition sp1_enc :: "sp1 \<Rightarrow> bytes" where
  "sp1_enc a = id_bytes (SP1_ImageID a) @
    be_bytes 8 (SP1_ProofValType a) @
    be_bytes 8 (SP1_TimeOutBlocks a)"

definition sp1_valid :: "sp1 \<Rightarrow> bool" where
  "sp1_valid a \<longleftrightarrow> SP1_ImageID a \<noteq> 0 \<and>
    SP1_ProofValType a \<noteq> 0 \<and>
    SP1_TimeOutBlocks a \<noteq> 0"

definition risc_zero_enc :: "(string \<Rightarrow> bytes) \<Rightarrow> risc_zero \<Rightarrow> bytes" where
  "risc_zero_enc encS a = id_bytes (RiscZero_ImageID a) @
    be_bytes 8 (RiscZero_ProofValType a) @
    encS (RiscZero_RiscZeroImageID a) @
    be_bytes 8 (RiscZero_TimeOutBlocks a)"

definition risc_zero_valid :: "risc_zero \<Rightarrow> bool" where
  "risc_zero_valid a \<longleftrightarrow> RiscZero_ImageID a \<noteq> 0 \<and>
    RiscZero_ProofValType a \<noteq> 0 \<and>
    RiscZero_RiscZeroImageID a \<noteq> [] \<and>
    length (RiscZero_RiscZeroImageID a) < 2 ^ 16 \<and>
    RiscZero_TimeOutBlocks a \<noteq> 0"

definition miden_enc :: "(string \<Rightarrow> bytes) \<Rightarrow> miden \<Rightarrow> bytes" where
  "miden_enc encS a = id_bytes (Miden_ImageID a) @
    be_bytes 8 (Miden_ProofValType a) @
    encS (Miden_CodeFrontEnd a) @
    encS (Miden_InputsFrontEnd a) @
    encS (Miden_OutputsFrontEnd a) @
    be_bytes 8 (Miden_TimeOutBlocks a)"

definition miden_valid :: "miden \<Rightarrow> bool" where
  "miden_valid a \<longleftrightarrow> Miden_ImageID a \<noteq> 0 \<and>
    Miden_ProofValType a \<noteq> 0 \<and>
    Miden_CodeFrontEnd a \<noteq> [] \<and>
    length (Miden_CodeFrontEnd a) < 2 ^ 16 \<and>
    Miden_InputsFrontEnd a \<noteq> [] \<and>
    length (Miden_InputsFrontEnd a) < 2 ^ 16 \<and>
    Miden_OutputsFrontEnd a \<noteq> [] \<and>
    length (Miden_OutputsFrontEnd a) < 2 ^ 16 \<and>
    Miden_TimeOutBlocks a \<noteq> 0"

definition jolt_enc :: "jolt \<Rightarrow> bytes" where
  "jolt_enc a = id_bytes (Jolt_ImageID a) @
    be_bytes 8 (Jolt_ProofValType a) @
    be_bytes 8 (Jolt_TimeOutBlocks a)"

definition jolt_valid :: "jolt \<Rightarrow> bool" where
  "jolt_valid a \<longleftrightarrow> Jolt_ImageID a \<noteq> 0 \<and>
    Jolt_ProofValType a \<noteq> 0 \<and>
    Jolt_TimeOutBlocks a \<noteq> 0"

definition plonky2_enc :: "plonky2 \<Rightarrow> bytes" where
  "plonky2_enc a = id_bytes (PLONKY2_ImageID a) @
    be_bytes 8 (PLONKY2_ProofValType a) @
    be_bytes 8 (PLONKY2_CommonDataValType a) @
    be_bytes 8 (PLONKY2_VerifierDataValType a) @
    be_bytes 8 (PLONKY2_TimeOutBlocks a)"

definition plonky2_valid :: "plonky2 \<Rightarrow> bool" where
  "plonky2_valid a \<longleftrightarrow> PLONKY2_ImageID a \<noteq> 0 \<and>
    PLONKY2_ProofValType a \<noteq> 0 \<and>
    PLONKY2_CommonDataValType a \<noteq> 0 \<and>
    PLONKY2_VerifierDataValType a \<noteq> 0 \<and>
    PLONKY2_TimeOutBlocks a \<noteq> 0"

sublocale packer_spec \<subseteq> sp1: action_codec P written unread
  "SP1_Marshal P" "UnmarshalSP1 P" sp1_enc sp1_valid
proof
  show "writes P written (SP1_Marshal P a) (sp1_enc a)" for a
    unfolding SP1_Marshal_def sp1_enc_def Let_def append_assoc [symmetric]
    by (intro writes_comp field_writes)
  show "reads P unread (UnmarshalSP1 P) (Inr a) (sp1_enc a)" if "sp1_valid a" for a
    unfolding UnmarshalSP1_def sp1_enc_def Let_def
    by (rule reads_bind reads_last field_reads | use that in \<open>simp add: sp1_valid_def\<close>)+
qed

sublocale packer_spec \<subseteq> risc_zero: action_codec P written unread
  "RiscZero_Marshal P" "UnmarshalRiscZero P" "risc_zero_enc encS" risc_zero_valid
proof
  show "writes P written (RiscZero_Marshal P a) (risc_zero_enc encS a)" for a
    unfolding RiscZero_Marshal_def risc_zero_enc_def Let_def append_assoc [symmetric]
    by (intro writes_comp field_writes)
  show "reads P unread (UnmarshalRiscZero P) (Inr a) (risc_zero_enc encS a)" if "risc_zero_valid a" for a
    unfolding UnmarshalRiscZero_def risc_zero_enc_def Let_def
    by (rule reads_bind reads_last field_reads | use that in \<open>simp add: risc_zero_valid_def\<close>)+
qed

sublocale packer_spec \<subseteq> miden: action_codec P written unread
  "Miden_Marshal P" "UnmarshalMiden P" "miden_enc encS" miden_valid
proof
  show "writes P written (Miden_Marshal P a) (miden_enc encS a)" for a
    unfolding Miden_Marshal_def miden_enc_def Let_def append_assoc [symmetric]
    by (intro writes_comp field_writes)
  show "reads P unread (UnmarshalMiden P) (Inr a) (miden_enc encS a)" if "miden_valid a" for a
    unfolding UnmarshalMiden_def miden_enc_def Let_def
    by (rule reads_bind reads_last field_reads | use that in \<open>simp add: miden_valid_def\<close>)+
qed

sublocale packer_spec \<subseteq> jolt: action_codec P written unread
  "Jolt_Marshal P" "UnmarshalJolt P" jolt_enc jolt_valid
proof
  show "writes P written (Jolt_Marshal P a) (jolt_enc a)" for a
    unfolding Jolt_Marshal_def jolt_enc_def Let_def append_assoc [symmetric]
    by (intro writes_comp field_writes)
  show "reads P unread (UnmarshalJolt P) (Inr a) (jolt_enc a)" if "jolt_valid a" for a
    unfolding UnmarshalJolt_def jolt_enc_def Let_def
    by (rule reads_bind reads_last field_reads | use that in \<open>simp add: jolt_valid_def\<close>)+
qed

sublocale packer_spec \<subseteq> plonky2: action_codec P written unread
  "PLONKY2_Marshal P" "UnmarshalPLONKY2 P" plonky2_enc plonky2_valid
proof
  show "writes P written (PLONKY2_Marshal P a) (plonky2_enc a)" for a
    unfolding PLONKY2_Marshal_def plonky2_enc_def Let_def append_assoc [symmetric]
    by (intro writes_comp field_writes)
  show "reads P unread (UnmarshalPLONKY2 P) (Inr a) (plonky2_enc a)" if "plonky2_valid a" for a
    unfolding UnmarshalPLONKY2_def plonky2_enc_def Let_def
    by (rule reads_bind reads_last field_reads | use that in \<open>simp add: plonky2_valid_def\<close>)+
qed

end
