(* ===== verification/Auth.thy ===== *)
theory Auth
  imports Actions_Base
begin

text \<open>
  The signature schemes of \<open>auth/\<close>: \<open>ED25519\<close>, \<open>SECP256R1\<close> and \<open>BLS\<close>, each with the
  methods of \<open>chain.Auth\<close>, its unmarshaller and its factory, and the batch verifier of
  \<open>ED25519\<close>. The cryptography and the hash behind an address are packages outside the
  repository: they are records of functions, with the behaviour the code relies on in the
  locales \<open>ed25519_spec\<close>, \<open>secp256r1_spec\<close>, \<open>bls_spec\<close> and \<open>batch_spec\<close>. What the executor
  of transactions relies on is the locale \<open>auth_scheme\<close>, which all three schemes provide.
\<close>

section \<open>The packages the schemes call\<close>

text \<open>
  \<open>utils.ToID\<close> hashes bytes, \<open>codec.CreateAddress\<close> joins a type identifier and an ID.
\<close>

record address_lib =
  ToID :: "bytes \<Rightarrow> ID"
  CreateAddress :: "byte \<Rightarrow> ID \<Rightarrow> address"

definition EmptyAddress :: address where "EmptyAddress = 0"

text \<open>Keys and signatures of the first two schemes are byte arrays; private keys are abstract.\<close>

record 'sk ed25519_lib =
  Ed_PublicKeyLen :: nat
  Ed_SignatureLen :: nat
  Ed_MinBatchSize :: int
  Ed_Verify :: "bytes \<Rightarrow> bytes \<Rightarrow> bytes \<Rightarrow> bool"
  Ed_Sign :: "bytes \<Rightarrow> 'sk \<Rightarrow> bytes"
  Ed_PublicKey :: "'sk \<Rightarrow> bytes"

record 'sk secp256r1_lib =
  Secp_PublicKeyLen :: nat
  Secp_SignatureLen :: nat
  Secp_Verify :: "bytes \<Rightarrow> bytes \<Rightarrow> bytes \<Rightarrow> bool"
  Secp_Sign :: "bytes \<Rightarrow> 'sk \<Rightarrow> error + bytes"
  Secp_PublicKey :: "'sk \<Rightarrow> bytes"

text \<open>
  BLS keys and signatures are pointers: \<open>'k\<close> and \<open>'g\<close> are references, compared by identity,
  and the \<open>ToBytes\<close> functions read what they point to.
\<close>

record ('k, 'g, 'sk) bls_lib =
  Bls_PublicKeyLen :: nat
  Bls_SignatureLen :: nat
  Bls_PublicKeyFromBytes :: "bytes \<Rightarrow> error + 'k"
  Bls_SignatureFromBytes :: "bytes \<Rightarrow> error + 'g"
  Bls_PublicKeyToBytes :: "'k \<Rightarrow> bytes"
  Bls_SignatureToBytes :: "'g \<Rightarrow> bytes"
  Bls_Verify :: "bytes \<Rightarrow> 'k \<Rightarrow> 'g \<Rightarrow> bool"
  Bls_Sign :: "bytes \<Rightarrow> 'sk \<Rightarrow> 'g"
  Bls_PublicFromPrivateKey :: "'sk \<Rightarrow> 'k"

section \<open>ED25519\<close>

record ed25519 =
  ED25519_Signer :: bytes
  ED25519_Signature :: bytes
  ED25519_addr :: address

definition ED25519ComputeUnits :: u64 where "ED25519ComputeUnits = 5"

definition ED25519Size :: "'sk ed25519_lib \<Rightarrow> nat" where
  "ED25519Size L = Ed_PublicKeyLen L + Ed_SignatureLen L"

definition NewED25519Address :: "address_lib \<Rightarrow> bytes \<Rightarrow> address" where
  "NewED25519Address U pk = CreateAddress U ED25519ID (ToID U pk)"

text \<open>The address is computed on first use and kept in the object.\<close>

definition ED25519_address :: "address_lib \<Rightarrow> ed25519 \<Rightarrow> address \<times> ed25519" where
  "ED25519_address U d =
    (let d = (if ED25519_addr d = EmptyAddress
              then d\<lparr>ED25519_addr := NewED25519Address U (ED25519_Signer d)\<rparr> else d)
     in (ED25519_addr d, d))"

definition ED25519_GetTypeID :: byte where "ED25519_GetTypeID = ED25519ID"

definition ED25519_ComputeUnits :: u64 where "ED25519_ComputeUnits = ED25519ComputeUnits"

definition ED25519_ValidRange :: "int \<times> int" where "ED25519_ValidRange = (-1, -1)"

definition ED25519_Verify :: "'sk ed25519_lib \<Rightarrow> ed25519 \<Rightarrow> bytes \<Rightarrow> error option" where
  "ED25519_Verify L d msg =
    (if \<not> Ed_Verify L msg (ED25519_Signer d) (ED25519_Signature d) then Some ErrInvalidSignature else None)"

definition ED25519_Actor :: "address_lib \<Rightarrow> ed25519 \<Rightarrow> address \<times> ed25519" where
  "ED25519_Actor U d = ED25519_address U d"

definition ED25519_Sponsor :: "address_lib \<Rightarrow> ed25519 \<Rightarrow> address \<times> ed25519" where
  "ED25519_Sponsor U d = ED25519_address U d"

definition ED25519_Size :: "'sk ed25519_lib \<Rightarrow> nat" where "ED25519_Size L = ED25519Size L"

definition ED25519_Marshal :: "'p packer \<Rightarrow> ed25519 \<Rightarrow> 'p \<Rightarrow> 'p" where
  "ED25519_Marshal P d p =
    (let p = PackFixedBytes P p (ED25519_Signer d) in PackFixedBytes P p (ED25519_Signature d))"

text \<open>
  The packer copies the bytes it reads into the arrays of the new object, through the slices
  \<open>signer\<close> and \<open>signature\<close>. The object that Go returns next to an error is dropped.
\<close>

definition UnmarshalED25519 :: "'sk ed25519_lib \<Rightarrow> 'p packer \<Rightarrow> 'p \<Rightarrow> (error + ed25519) \<times> 'p" where
  "UnmarshalED25519 L P p =
    (let (signer, p) = UnpackFixedBytes P p (Ed_PublicKeyLen L);
         (signature, p) = UnpackFixedBytes P p (Ed_SignatureLen L)
     in (case PackerErr P p of
           None \<Rightarrow> Inr \<lparr>ED25519_Signer = copy_at (make_bytes (Ed_PublicKeyLen L)) 0 signer,
             ED25519_Signature = copy_at (make_bytes (Ed_SignatureLen L)) 0 signature,
             ED25519_addr = EmptyAddress\<rparr>
         | Some err \<Rightarrow> Inl err, p))"

record 'sk ed25519_factory =
  ED25519Factory_priv :: 'sk

definition NewED25519Factory :: "'sk \<Rightarrow> 'sk ed25519_factory" where
  "NewED25519Factory priv = \<lparr>ED25519Factory_priv = priv\<rparr>"

definition ED25519Factory_Sign ::
  "'sk ed25519_lib \<Rightarrow> 'sk ed25519_factory \<Rightarrow> bytes \<Rightarrow> error + ed25519" where
  "ED25519Factory_Sign L d msg =
    (let sig = Ed_Sign L msg (ED25519Factory_priv d)
     in Inr \<lparr>ED25519_Signer = Ed_PublicKey L (ED25519Factory_priv d), ED25519_Signature = sig,
          ED25519_addr = EmptyAddress\<rparr>)"

definition ED25519Factory_MaxUnits :: "'sk ed25519_lib \<Rightarrow> nat \<times> u64" where
  "ED25519Factory_MaxUnits L = (ED25519Size L, ED25519ComputeUnits)"

section \<open>SECP256R1\<close>

record secp256r1 =
  SECP256R1_Signer :: bytes
  SECP256R1_Signature :: bytes
  SECP256R1_addr :: address

definition SECP256R1ComputeUnits :: u64 where "SECP256R1ComputeUnits = 10"

definition SECP256R1Size :: "'sk secp256r1_lib \<Rightarrow> nat" where
  "SECP256R1Size L = Secp_PublicKeyLen L + Secp_SignatureLen L"

definition NewSECP256R1Address :: "address_lib \<Rightarrow> bytes \<Rightarrow> address" where
  "NewSECP256R1Address U pk = CreateAddress U SECP256R1ID (ToID U pk)"

text \<open>The address is computed on first use and kept in the object.\<close>

definition SECP256R1_address :: "address_lib \<Rightarrow> secp256r1 \<Rightarrow> address \<times> secp256r1" where
  "SECP256R1_address U d =
    (let d = (if SECP256R1_addr d = EmptyAddress
              then d\<lparr>SECP256R1_addr := NewSECP256R1Address U (SECP256R1_Signer d)\<rparr> else d)
     in (SECP256R1_addr d, d))"

definition SECP256R1_GetTypeID :: byte where "SECP256R1_GetTypeID = SECP256R1ID"

definition SECP256R1_ComputeUnits :: u64 where "SECP256R1_ComputeUnits = SECP256R1ComputeUnits"

definition SECP256R1_ValidRange :: "int \<times> int" where "SECP256R1_ValidRange = (-1, -1)"

definition SECP256R1_Verify :: "'sk secp256r1_lib \<Rightarrow> secp256r1 \<Rightarrow> bytes \<Rightarrow> error option" where
  "SECP256R1_Verify L d msg =
    (if \<not> Secp_Verify L msg (SECP256R1_Signer d) (SECP256R1_Signature d) then Some ErrInvalidSignature else None)"

definition SECP256R1_Actor :: "address_lib \<Rightarrow> secp256r1 \<Rightarrow> address \<times> secp256r1" where
  "SECP256R1_Actor U d = SECP256R1_address U d"

definition SECP256R1_Sponsor :: "address_lib \<Rightarrow> secp256r1 \<Rightarrow> address \<times> secp256r1" where
  "SECP256R1_Sponsor U d = SECP256R1_address U d"

definition SECP256R1_Size :: "'sk secp256r1_lib \<Rightarrow> nat" where "SECP256R1_Size L = SECP256R1Size L"

definition SECP256R1_Marshal :: "'p packer \<Rightarrow> secp256r1 \<Rightarrow> 'p \<Rightarrow> 'p" where
  "SECP256R1_Marshal P d p =
    (let p = PackFixedBytes P p (SECP256R1_Signer d) in PackFixedBytes P p (SECP256R1_Signature d))"


definition UnmarshalSECP256R1 :: "'sk secp256r1_lib \<Rightarrow> 'p packer \<Rightarrow> 'p \<Rightarrow> (error + secp256r1) \<times> 'p" where
  "UnmarshalSECP256R1 L P p =
    (let (signer, p) = UnpackFixedBytes P p (Secp_PublicKeyLen L);
         (signature, p) = UnpackFixedBytes P p (Secp_SignatureLen L)
     in (case PackerErr P p of
           None \<Rightarrow> Inr \<lparr>SECP256R1_Signer = copy_at (make_bytes (Secp_PublicKeyLen L)) 0 signer,
             SECP256R1_Signature = copy_at (make_bytes (Secp_SignatureLen L)) 0 signature,
             SECP256R1_addr = EmptyAddress\<rparr>
         | Some err \<Rightarrow> Inl err, p))"

record 'sk secp256r1_factory =
  SECP256R1Factory_priv :: 'sk

definition NewSECP256R1Factory :: "'sk \<Rightarrow> 'sk secp256r1_factory" where
  "NewSECP256R1Factory priv = \<lparr>SECP256R1Factory_priv = priv\<rparr>"

definition SECP256R1Factory_Sign ::
  "'sk secp256r1_lib \<Rightarrow> 'sk secp256r1_factory \<Rightarrow> bytes \<Rightarrow> error + secp256r1" where
  "SECP256R1Factory_Sign L d msg =
    (case Secp_Sign L msg (SECP256R1Factory_priv d) of
       Inl err \<Rightarrow> Inl err
     | Inr sig \<Rightarrow> Inr \<lparr>SECP256R1_Signer = Secp_PublicKey L (SECP256R1Factory_priv d),
         SECP256R1_Signature = sig, SECP256R1_addr = EmptyAddress\<rparr>)"

definition SECP256R1Factory_MaxUnits :: "'sk secp256r1_lib \<Rightarrow> nat \<times> u64" where
  "SECP256R1Factory_MaxUnits L = (SECP256R1Size L, SECP256R1ComputeUnits)"

section \<open>BLS\<close>

record ('k, 'g) bls =
  BLS_Signer :: 'k
  BLS_Signature :: 'g
  BLS_addr :: address

definition BLSComputeUnits :: u64 where "BLSComputeUnits = 10"

definition BLSSize :: "('k, 'g, 'sk) bls_lib \<Rightarrow> nat" where
  "BLSSize L = Bls_PublicKeyLen L + Bls_SignatureLen L"

definition NewBLSAddress :: "address_lib \<Rightarrow> ('k, 'g, 'sk) bls_lib \<Rightarrow> 'k \<Rightarrow> address" where
  "NewBLSAddress U L pk = CreateAddress U BLSID (ToID U (Bls_PublicKeyToBytes L pk))"

definition BLS_address ::
  "address_lib \<Rightarrow> ('k, 'g, 'sk) bls_lib \<Rightarrow> ('k, 'g) bls \<Rightarrow> address \<times> ('k, 'g) bls" where
  "BLS_address U L b =
    (let b = (if BLS_addr b = EmptyAddress
              then b\<lparr>BLS_addr := NewBLSAddress U L (BLS_Signer b)\<rparr> else b)
     in (BLS_addr b, b))"

definition BLS_GetTypeID :: byte where "BLS_GetTypeID = BLSID"

definition BLS_ComputeUnits :: u64 where "BLS_ComputeUnits = BLSComputeUnits"

definition BLS_ValidRange :: "int \<times> int" where "BLS_ValidRange = (-1, -1)"

definition BLS_Verify :: "('k, 'g, 'sk) bls_lib \<Rightarrow> ('k, 'g) bls \<Rightarrow> bytes \<Rightarrow> error option" where
  "BLS_Verify L b msg =
    (if \<not> Bls_Verify L msg (BLS_Signer b) (BLS_Signature b) then Some ErrInvalidSignature else None)"

definition BLS_Actor ::
  "address_lib \<Rightarrow> ('k, 'g, 'sk) bls_lib \<Rightarrow> ('k, 'g) bls \<Rightarrow> address \<times> ('k, 'g) bls" where
  "BLS_Actor U L b = BLS_address U L b"

definition BLS_Sponsor ::
  "address_lib \<Rightarrow> ('k, 'g, 'sk) bls_lib \<Rightarrow> ('k, 'g) bls \<Rightarrow> address \<times> ('k, 'g) bls" where
  "BLS_Sponsor U L b = BLS_address U L b"

definition BLS_Size :: "('k, 'g, 'sk) bls_lib \<Rightarrow> nat" where "BLS_Size L = BLSSize L"

definition BLS_Marshal ::
  "('k, 'g, 'sk) bls_lib \<Rightarrow> 'p packer \<Rightarrow> ('k, 'g) bls \<Rightarrow> 'p \<Rightarrow> 'p" where
  "BLS_Marshal L P b p =
    (let p = PackFixedBytes P p (Bls_PublicKeyToBytes L (BLS_Signer b))
     in PackFixedBytes P p (Bls_SignatureToBytes L (BLS_Signature b)))"

definition UnmarshalBLS ::
  "('k, 'g, 'sk) bls_lib \<Rightarrow> 'p packer \<Rightarrow> 'p \<Rightarrow> (error + ('k, 'g) bls) \<times> 'p" where
  "UnmarshalBLS L P p =
    (let (v, p) = UnpackFixedBytes P p (Bls_PublicKeyLen L);
         signer = copy_at (make_bytes (Bls_PublicKeyLen L)) 0 v;
         (w, p) = UnpackFixedBytes P p (Bls_SignatureLen L);
         signature = copy_at (make_bytes (Bls_SignatureLen L)) 0 w
     in (case Bls_PublicKeyFromBytes L signer of
           Inl err \<Rightarrow> Inl err
         | Inr pk \<Rightarrow> (case Bls_SignatureFromBytes L signature of
             Inl err \<Rightarrow> Inl err
           | Inr sig \<Rightarrow> (case PackerErr P p of
               None \<Rightarrow> Inr \<lparr>BLS_Signer = pk, BLS_Signature = sig, BLS_addr = EmptyAddress\<rparr>
             | Some err \<Rightarrow> Inl err)), p))"

record 'sk bls_factory =
  BLSFactory_priv :: 'sk

definition NewBLSFactory :: "'sk \<Rightarrow> 'sk bls_factory" where
  "NewBLSFactory priv = \<lparr>BLSFactory_priv = priv\<rparr>"

definition BLSFactory_Sign ::
  "('k, 'g, 'sk) bls_lib \<Rightarrow> 'sk bls_factory \<Rightarrow> bytes \<Rightarrow> error + ('k, 'g) bls" where
  "BLSFactory_Sign L b msg =
    Inr \<lparr>BLS_Signer = Bls_PublicFromPrivateKey L (BLSFactory_priv b),
      BLS_Signature = Bls_Sign L msg (BLSFactory_priv b), BLS_addr = EmptyAddress\<rparr>"

definition BLSFactory_MaxUnits :: "('k, 'g, 'sk) bls_lib \<Rightarrow> nat \<times> u64" where
  "BLSFactory_MaxUnits L = (BLSSize L, BLSComputeUnits)"

section \<open>The documented behaviour of the cryptography\<close>

text \<open>A signature made with a private key verifies under its public key.\<close>

locale ed25519_spec =
  fixes L :: "'sk ed25519_lib"
  assumes Ed_signs: "Ed_Verify L m (Ed_PublicKey L sk) (Ed_Sign L m sk)"
    and Ed_batches: "0 < Ed_MinBatchSize L"

locale secp256r1_spec =
  fixes L :: "'sk secp256r1_lib"
  assumes Secp_signs: "Secp_Sign L m sk = Inr sig \<Longrightarrow> Secp_Verify L m (Secp_PublicKey L sk) sig"

text \<open>
  What is parsed from the bytes of a key or a signature has the same bytes, in a place of its
  own: the reference is not said to be the same. Verification reads what they point to.
\<close>

locale bls_spec =
  fixes L :: "('k, 'g, 'sk) bls_lib"
  assumes Bls_signs: "Bls_Verify L m (Bls_PublicFromPrivateKey L sk) (Bls_Sign L m sk)"
    and Bls_lens: "length (Bls_PublicKeyToBytes L k) = Bls_PublicKeyLen L"
      "length (Bls_SignatureToBytes L g) = Bls_SignatureLen L"
    and Bls_key_parses: "\<exists>k'. Bls_PublicKeyFromBytes L (Bls_PublicKeyToBytes L k) = Inr k' \<and>
      Bls_PublicKeyToBytes L k' = Bls_PublicKeyToBytes L k"
    and Bls_Verify_bytes: "Bls_PublicKeyToBytes L k' = Bls_PublicKeyToBytes L k \<Longrightarrow>
      Bls_SignatureToBytes L g' = Bls_SignatureToBytes L g \<Longrightarrow> Bls_Verify L m k' g' = Bls_Verify L m k g"
    and Bls_signature_parses: "\<exists>g'. Bls_SignatureFromBytes L (Bls_SignatureToBytes L g) = Inr g' \<and>
      Bls_SignatureToBytes L g' = Bls_SignatureToBytes L g"

section \<open>The contract of a scheme\<close>

text \<open>
  The actor of a signature is the owner of its key, however often and in whatever order the
  executor asks for actor and sponsor, and asking does not change what verifies. What a
  factory signs verifies and belongs to the address of the factory's key.
\<close>

text \<open>Asking for the actor (\<open>True\<close>) and the sponsor (\<open>False\<close>) in some order.\<close>

fun ask :: "('a \<Rightarrow> address \<times> 'a) \<Rightarrow> ('a \<Rightarrow> address \<times> 'a) \<Rightarrow> bool list \<Rightarrow> 'a \<Rightarrow> address list \<times> 'a" where
  "ask act spo [] a = ([], a)"
| "ask act spo (q # qs) a = (case (if q then act a else spo a) of (x, a') \<Rightarrow>
    (case ask act spo qs a' of (xs, a'') \<Rightarrow> (x # xs, a'')))"

locale auth_scheme =
  fixes actor sponsor :: "'a \<Rightarrow> address \<times> 'a" and verify :: "'a \<Rightarrow> bytes \<Rightarrow> error option"
    and sign :: "'f \<Rightarrow> bytes \<Rightarrow> error + 'a"
    and fresh :: "'a \<Rightarrow> bool" and owner :: "'a \<Rightarrow> address" and factory_address :: "'f \<Rightarrow> address"
  assumes actor_owner: "fresh a \<Longrightarrow> actor a = (x, a') \<Longrightarrow>
      x = owner a \<and> fresh a' \<and> owner a' = owner a \<and> verify a' = verify a"
    and sponsor_actor: "sponsor a = actor a"
    and sign_verifies: "sign f m = Inr a \<Longrightarrow>
      fresh a \<and> verify a m = None \<and> owner a = factory_address f"
begin

lemma ask_owner:
  "fresh a \<Longrightarrow> ask actor sponsor qs a = (xs, a') \<Longrightarrow>
    xs = replicate (length qs) (owner a) \<and> fresh a' \<and> owner a' = owner a \<and> verify a' = verify a"
proof (induction qs arbitrary: a xs a')
  case (Cons q qs)
  obtain x a1 where a1: "actor a = (x, a1)" by force
  then have q: "(if q then actor a else sponsor a) = (x, a1)"
    using sponsor_actor [of a] by simp
  obtain ys a2 where a2: "ask actor sponsor qs a1 = (ys, a2)" by force
  have "x = owner a \<and> fresh a1 \<and> owner a1 = owner a \<and> verify a1 = verify a"
    by (rule actor_owner [OF Cons.prems(1) a1])
  moreover from this have "ys = replicate (length qs) (owner a1) \<and> fresh a2 \<and>
      owner a2 = owner a1 \<and> verify a2 = verify a1"
    using Cons.IH [OF _ a2] by simp
  ultimately show ?case
    using Cons.prems(2) q a2 by (auto split: prod.splits)
qed simp

lemma signed_by_owner:
  assumes "sign f m = Inr a" "ask actor sponsor qs a = (xs, a')"
  shows "xs = replicate (length qs) (factory_address f) \<and> verify a' m = None"
  using sign_verifies [OF assms(1)] ask_owner [OF _ assms(2)] by simp

end

definition ED25519_fresh :: "address_lib \<Rightarrow> ed25519 \<Rightarrow> bool" where
  "ED25519_fresh U d \<longleftrightarrow> ED25519_addr d = EmptyAddress \<or> ED25519_addr d = NewED25519Address U (ED25519_Signer d)"

sublocale ed25519_spec \<subseteq> scheme: auth_scheme "ED25519_Actor U" "ED25519_Sponsor U" "ED25519_Verify L"
  "ED25519Factory_Sign L" "ED25519_fresh U" "\<lambda>d. NewED25519Address U (ED25519_Signer d)"
  "\<lambda>f. NewED25519Address U (Ed_PublicKey L (ED25519Factory_priv f))" for U
  by unfold_locales
    (auto simp: ED25519_Actor_def ED25519_Sponsor_def ED25519_address_def ED25519_fresh_def ED25519_Verify_def
      ED25519Factory_Sign_def Let_def fun_eq_iff Ed_signs split: if_splits sum.splits)

definition SECP256R1_fresh :: "address_lib \<Rightarrow> secp256r1 \<Rightarrow> bool" where
  "SECP256R1_fresh U d \<longleftrightarrow> SECP256R1_addr d = EmptyAddress \<or> SECP256R1_addr d = NewSECP256R1Address U (SECP256R1_Signer d)"

sublocale secp256r1_spec \<subseteq> scheme: auth_scheme "SECP256R1_Actor U" "SECP256R1_Sponsor U" "SECP256R1_Verify L"
  "SECP256R1Factory_Sign L" "SECP256R1_fresh U" "\<lambda>d. NewSECP256R1Address U (SECP256R1_Signer d)"
  "\<lambda>f. NewSECP256R1Address U (Secp_PublicKey L (SECP256R1Factory_priv f))" for U
  by unfold_locales
    (auto simp: SECP256R1_Actor_def SECP256R1_Sponsor_def SECP256R1_address_def SECP256R1_fresh_def SECP256R1_Verify_def
      SECP256R1Factory_Sign_def Let_def fun_eq_iff Secp_signs split: if_splits sum.splits)

definition BLS_fresh :: "address_lib \<Rightarrow> ('k, 'g, 'sk) bls_lib \<Rightarrow> ('k, 'g) bls \<Rightarrow> bool" where
  "BLS_fresh U L b \<longleftrightarrow> BLS_addr b = EmptyAddress \<or> BLS_addr b = NewBLSAddress U L (BLS_Signer b)"

sublocale bls_spec \<subseteq> scheme: auth_scheme "BLS_Actor U L" "BLS_Sponsor U L" "BLS_Verify L"
  "BLSFactory_Sign L" "BLS_fresh U L" "\<lambda>b. NewBLSAddress U L (BLS_Signer b)"
  "\<lambda>f. NewBLSAddress U L (Bls_PublicFromPrivateKey L (BLSFactory_priv f))" for U
  by unfold_locales
    (auto simp: BLS_Actor_def BLS_Sponsor_def BLS_address_def BLS_fresh_def BLS_Verify_def
      BLSFactory_Sign_def Let_def fun_eq_iff Bls_signs split: if_splits sum.splits)

section \<open>The codec of each scheme\<close>

lemma copy_at_make_bytes [simp]: "length v = n \<Longrightarrow> copy_at (make_bytes n) 0 v = v"
  by (simp add: copy_at_def make_bytes_def)

definition ed25519_enc :: "ed25519 \<Rightarrow> bytes" where
  "ed25519_enc d = ED25519_Signer d @ ED25519_Signature d"

definition ed25519_valid :: "'sk ed25519_lib \<Rightarrow> ed25519 \<Rightarrow> bool" where
  "ed25519_valid L d \<longleftrightarrow> length (ED25519_Signer d) = Ed_PublicKeyLen L \<and>
    length (ED25519_Signature d) = Ed_SignatureLen L \<and> ED25519_addr d = EmptyAddress"

definition secp256r1_enc :: "secp256r1 \<Rightarrow> bytes" where
  "secp256r1_enc d = SECP256R1_Signer d @ SECP256R1_Signature d"

definition secp256r1_valid :: "'sk secp256r1_lib \<Rightarrow> secp256r1 \<Rightarrow> bool" where
  "secp256r1_valid L d \<longleftrightarrow> length (SECP256R1_Signer d) = Secp_PublicKeyLen L \<and>
    length (SECP256R1_Signature d) = Secp_SignatureLen L \<and> SECP256R1_addr d = EmptyAddress"

sublocale packer_spec \<subseteq> ed25519: action_codec P written unread
  "ED25519_Marshal P" "UnmarshalED25519 L P" ed25519_enc "ed25519_valid L" for L
proof
  show "writes P written (ED25519_Marshal P d) (ed25519_enc d)" for d
    unfolding ED25519_Marshal_def ed25519_enc_def Let_def
    by (intro writes_comp field_writes)
  show "reads P unread (UnmarshalED25519 L P) (Inr d) (ed25519_enc d)" if "ed25519_valid L d" for d
    unfolding UnmarshalED25519_def ed25519_enc_def Let_def
    by (rule reads_bind reads_check field_reads | use that in \<open>simp add: ed25519_valid_def\<close>)+
qed

sublocale packer_spec \<subseteq> secp256r1: action_codec P written unread
  "SECP256R1_Marshal P" "UnmarshalSECP256R1 L P" secp256r1_enc "secp256r1_valid L" for L
proof
  show "writes P written (SECP256R1_Marshal P d) (secp256r1_enc d)" for d
    unfolding SECP256R1_Marshal_def secp256r1_enc_def Let_def
    by (intro writes_comp field_writes)
  show "reads P unread (UnmarshalSECP256R1 L P) (Inr d) (secp256r1_enc d)" if "secp256r1_valid L d" for d
    unfolding UnmarshalSECP256R1_def secp256r1_enc_def Let_def
    by (rule reads_bind reads_check field_reads | use that in \<open>simp add: secp256r1_valid_def\<close>)+
qed

text \<open>
  A \<open>BLS\<close> signature is read back into new keys and signatures with the same bytes, and so
  with the same owner.
\<close>

definition bls_enc :: "('k, 'g, 'sk) bls_lib \<Rightarrow> ('k, 'g) bls \<Rightarrow> bytes" where
  "bls_enc L b = Bls_PublicKeyToBytes L (BLS_Signer b) @ Bls_SignatureToBytes L (BLS_Signature b)"

lemma BLS_reads:
  assumes "packer_spec P written unread encS encB" "bls_spec L"
  obtains b' where "reads P unread (UnmarshalBLS L P) (Inr b') (bls_enc L b)"
    "bls_enc L b' = bls_enc L b" "Bls_PublicKeyToBytes L (BLS_Signer b') = Bls_PublicKeyToBytes L (BLS_Signer b)"
proof -
  obtain k' where k': "Bls_PublicKeyFromBytes L (Bls_PublicKeyToBytes L (BLS_Signer b)) = Inr k'"
    "Bls_PublicKeyToBytes L k' = Bls_PublicKeyToBytes L (BLS_Signer b)"
    using bls_spec.Bls_key_parses [OF assms(2)] by blast
  obtain g' where g': "Bls_SignatureFromBytes L (Bls_SignatureToBytes L (BLS_Signature b)) = Inr g'"
    "Bls_SignatureToBytes L g' = Bls_SignatureToBytes L (BLS_Signature b)"
    using bls_spec.Bls_signature_parses [OF assms(2)] by blast
  let ?b = "\<lparr>BLS_Signer = k', BLS_Signature = g', BLS_addr = EmptyAddress\<rparr>"
  note lens = bls_spec.Bls_lens [OF assms(2)]
  have "reads P unread (UnmarshalBLS L P) (Inr ?b) (bls_enc L b)"
    unfolding reads_def
  proof (intro allI impI)
    fix p r assume p: "PackerErr P p = None" "unread p = bls_enc L b @ r"
    obtain p1 where p1: "UnpackFixedBytes P p (Bls_PublicKeyLen L) =
        (Bls_PublicKeyToBytes L (BLS_Signer b), p1)" "PackerErr P p1 = None"
        "unread p1 = Bls_SignatureToBytes L (BLS_Signature b) @ r"
      by (rule readsE [OF packer_spec.UnpackFixedBytes_reads [OF assms(1) lens(1)] p(1)])
        (use p(2) in \<open>simp_all add: bls_enc_def\<close>)
    obtain p2 where p2: "UnpackFixedBytes P p1 (Bls_SignatureLen L) =
        (Bls_SignatureToBytes L (BLS_Signature b), p2)" "PackerErr P p2 = None" "unread p2 = r"
      by (rule readsE [OF packer_spec.UnpackFixedBytes_reads [OF assms(1) lens(2)] p1(2,3)])
    show "\<exists>p'. UnmarshalBLS L P p = (Inr ?b, p') \<and> PackerErr P p' = None \<and> unread p' = r"
      using p1(1) p2 k'(1) g'(1) lens by (simp add: UnmarshalBLS_def)
  qed
  then show thesis
    by (rule that) (simp_all add: bls_enc_def k'(2) g'(2))
qed

lemma BLS_writes:
  assumes "packer_spec P written unread encS encB"
  shows "writes P written (BLS_Marshal L P b) (bls_enc L b)"
  unfolding BLS_Marshal_def bls_enc_def Let_def
  by (intro writes_comp packer_spec.field_writes [OF assms])

section \<open>Reference packages\<close>

text \<open>Stand-ins for the cryptography, to instantiate the parameters: a sum over the message.\<close>

definition ref_ed25519 :: "byte ed25519_lib" where
  "ref_ed25519 =
    \<lparr>Ed_PublicKeyLen = 32, Ed_SignatureLen = 64, Ed_MinBatchSize = 2,
     Ed_Verify = (\<lambda>m k s. s = replicate 64 (foldl (+) (hd k) m)),
     Ed_Sign = (\<lambda>m sk. replicate 64 (foldl (+) sk m)),
     Ed_PublicKey = (\<lambda>sk. replicate 32 sk)\<rparr>"

definition ref_secp256r1 :: "byte secp256r1_lib" where
  "ref_secp256r1 =
    \<lparr>Secp_PublicKeyLen = 33, Secp_SignatureLen = 64,
     Secp_Verify = (\<lambda>m k s. s = replicate 64 (foldl (+) (hd k) m)),
     Secp_Sign = (\<lambda>m sk. Inr (replicate 64 (foldl (+) sk m))),
     Secp_PublicKey = (\<lambda>sk. replicate 33 sk)\<rparr>"

text \<open>A reference is a place and what it holds; parsing uses place 0, private keys place 1.\<close>

definition ref_bls :: "(nat \<times> 384 word, nat \<times> 768 word, 384 word) bls_lib" where
  "ref_bls =
    \<lparr>Bls_PublicKeyLen = 48, Bls_SignatureLen = 96,
     Bls_PublicKeyFromBytes = (\<lambda>b. if length b = 48 then Inr (0, be_word b) else Inl (ErrExternal ''bls'')),
     Bls_SignatureFromBytes = (\<lambda>b. if length b = 96 then Inr (0, be_word b) else Inl (ErrExternal ''bls'')),
     Bls_PublicKeyToBytes = (\<lambda>k. be_bytes 48 (snd k)),
     Bls_SignatureToBytes = (\<lambda>g. be_bytes 96 (snd g)),
     Bls_Verify = (\<lambda>m k g. snd g = ucast (snd k) + be_word m),
     Bls_Sign = (\<lambda>m sk. (1, ucast sk + be_word m)),
     Bls_PublicFromPrivateKey = (\<lambda>sk. (1, sk))\<rparr>"

interpretation ref_ed25519: ed25519_spec ref_ed25519
  by unfold_locales (simp_all add: ref_ed25519_def)

interpretation ref_secp256r1: secp256r1_spec ref_secp256r1
  by unfold_locales (auto simp: ref_secp256r1_def)

interpretation ref_bls: bls_spec ref_bls
  by unfold_locales (simp_all add: ref_bls_def be_bytes_inject)

text \<open>An address starts with the type of the scheme and ends with the ID.\<close>

locale address_spec =
  fixes U :: address_lib
  assumes CreateAddress_inject: "CreateAddress U t i = CreateAddress U u j \<longleftrightarrow> t = u \<and> i = j"

definition ref_address_lib :: address_lib where
  "ref_address_lib = \<lparr>ToID = be_word, CreateAddress = (\<lambda>t i. push_bit 256 (ucast t) OR ucast i)\<rparr>"

lemma ref_address_parts:
  fixes t :: byte and i :: ID
  shows "ucast (push_bit 256 (ucast t) OR ucast i :: address) = i"
    and "ucast (drop_bit 256 (push_bit 256 (ucast t) OR ucast i :: address)) = t"
  by (rule bit_word_eqI; auto simp: bit_simps dest: bit_imp_le_length)+

interpretation ref_address: address_spec ref_address_lib
  by unfold_locales (simp add: ref_address_lib_def, metis ref_address_parts)

section \<open>The contracts as facts\<close>

context ed25519_spec
begin

lemmas ed25519_owner = scheme.signed_by_owner

end

context secp256r1_spec
begin

lemmas secp256r1_owner = scheme.signed_by_owner

end

context bls_spec
begin

lemmas bls_owner = scheme.signed_by_owner

end

context packer_spec
begin

lemmas ed25519_wire = ed25519.marshal_writes ed25519.roundtrip
lemmas secp256r1_wire = secp256r1.marshal_writes secp256r1.roundtrip

end

section \<open>The claims about signatures\<close>

text \<open>
  C35: what the three factories sign verifies, and the transaction acts for, and is paid by,
  the address of the factory's key, however often and in whatever order actor and sponsor
  are asked for: the cached address never goes stale.
\<close>

theorem signed_by_factory:
  assumes "ed25519_spec Le" "secp256r1_spec Ls" "bls_spec Lb"
    and "ED25519Factory_Sign Le fe m = Inr e" "SECP256R1Factory_Sign Ls fs m = Inr s"
    and "BLSFactory_Sign Lb fb m = Inr b"
    and "ask (ED25519_Actor U) (ED25519_Sponsor U) qs e = (xs, e')"
    and "ask (SECP256R1_Actor U) (SECP256R1_Sponsor U) qs s = (ys, s')"
    and "ask (BLS_Actor U Lb) (BLS_Sponsor U Lb) qs b = (zs, b')"
  shows "xs = replicate (length qs) (NewED25519Address U (Ed_PublicKey Le (ED25519Factory_priv fe))) \<and>
    ED25519_Verify Le e' m = None \<and>
    ys = replicate (length qs) (NewSECP256R1Address U (Secp_PublicKey Ls (SECP256R1Factory_priv fs))) \<and>
    SECP256R1_Verify Ls s' m = None \<and>
    zs = replicate (length qs) (NewBLSAddress U Lb (Bls_PublicFromPrivateKey Lb (BLSFactory_priv fb))) \<and>
    BLS_Verify Lb b' m = None"
  using ed25519_spec.ed25519_owner [OF assms(1,4,7)]
    secp256r1_spec.secp256r1_owner [OF assms(2,5,8)]
    bls_spec.bls_owner [OF assms(3,6,9)]
  by blast

text \<open>The three schemes sign one message; the ED25519 signature is asked three times.\<close>

theorem signed_by_factory_witness:
  "\<exists>e xs e'. ED25519Factory_Sign ref_ed25519 (NewED25519Factory 5) [1, 2] = Inr e \<and>
    ask (ED25519_Actor ref_address_lib) (ED25519_Sponsor ref_address_lib) [True, False, True] e = (xs, e') \<and>
    xs = replicate 3 (NewED25519Address ref_address_lib (replicate 32 5)) \<and>
    ED25519_Verify ref_ed25519 e' [1, 2] = None"
proof -
  obtain e s b where signed:
      "ED25519Factory_Sign ref_ed25519 (NewED25519Factory 5) [1, 2] = Inr e"
      "SECP256R1Factory_Sign ref_secp256r1 (NewSECP256R1Factory 5) [1, 2] = Inr s"
      "BLSFactory_Sign ref_bls (NewBLSFactory 5) [1, 2] = Inr b"
    by (simp add: ED25519Factory_Sign_def SECP256R1Factory_Sign_def BLSFactory_Sign_def
        ref_secp256r1_def)
  let ?qs = "[True, False, True]"
  obtain xs e' where e: "ask (ED25519_Actor ref_address_lib) (ED25519_Sponsor ref_address_lib) ?qs e = (xs, e')"
    by (rule prod.exhaust)
  obtain ys s' where s: "ask (SECP256R1_Actor ref_address_lib) (SECP256R1_Sponsor ref_address_lib) ?qs s = (ys, s')"
    by (rule prod.exhaust)
  obtain zs b' where b: "ask (BLS_Actor ref_address_lib ref_bls) (BLS_Sponsor ref_address_lib ref_bls) ?qs b = (zs, b')"
    by (rule prod.exhaust)
  have "Ed_PublicKey ref_ed25519 (ED25519Factory_priv (NewED25519Factory 5)) = replicate 32 5"
    by (simp add: ref_ed25519_def NewED25519Factory_def)
  with signed_by_factory [OF ref_ed25519.ed25519_spec_axioms ref_secp256r1.secp256r1_spec_axioms
      ref_bls.bls_spec_axioms signed e s b] signed(1) e
  show ?thesis by (simp add: numeral_3_eq_3)
qed

text \<open>
  An account belongs to one scheme: no key of one scheme has the address of a key of
  another, whatever the hash gives, and within a scheme keys share an address only when
  their hashes collide.
\<close>

theorem scheme_addresses_disjoint:
  assumes "address_spec U"
  shows "NewED25519Address U k \<noteq> NewSECP256R1Address U k' \<and>
    NewED25519Address U k \<noteq> NewBLSAddress U L b \<and> NewSECP256R1Address U k \<noteq> NewBLSAddress U L b \<and>
    (NewED25519Address U k = NewED25519Address U k' \<longleftrightarrow> ToID U k = ToID U k') \<and>
    (NewSECP256R1Address U k = NewSECP256R1Address U k' \<longleftrightarrow> ToID U k = ToID U k')"
  by (simp add: NewED25519Address_def NewSECP256R1Address_def NewBLSAddress_def
      address_spec.CreateAddress_inject [OF assms] ED25519ID_def SECP256R1ID_def BLSID_def)

theorem scheme_addresses_disjoint_witness:
  "NewED25519Address ref_address_lib [7] \<noteq> NewSECP256R1Address ref_address_lib [7]"
  by (rule scheme_addresses_disjoint [THEN conjunct1, OF ref_address.address_spec_axioms])

text \<open>
  C36: signatures survive the wire. What \<open>Marshal\<close> writes has the size that \<open>Size\<close> reports
  and is read back as the signature that was written, with nothing of what follows consumed;
  a BLS signature comes back under new references, with the same bytes and so the same actor.
\<close>

theorem auth_roundtrip:
  assumes "packer_spec P written unread encS encB" "bls_spec Lb"
    and "ed25519_valid Le e" "secp256r1_valid Ls s"
    and "written w = []" "PackerErr P r = None"
  shows "(PackerErr P (ED25519_Marshal P e w) = None \<and> unread r = written (ED25519_Marshal P e w) @ rest \<longrightarrow>
      length (written (ED25519_Marshal P e w)) = ED25519_Size Le \<and>
      (\<exists>r'. UnmarshalED25519 Le P r = (Inr e, r') \<and> unread r' = rest)) \<and>
    (PackerErr P (SECP256R1_Marshal P s w) = None \<and> unread r = written (SECP256R1_Marshal P s w) @ rest \<longrightarrow>
      length (written (SECP256R1_Marshal P s w)) = SECP256R1_Size Ls \<and>
      (\<exists>r'. UnmarshalSECP256R1 Ls P r = (Inr s, r') \<and> unread r' = rest)) \<and>
    (PackerErr P (BLS_Marshal Lb P b w) = None \<and> unread r = written (BLS_Marshal Lb P b w) @ rest \<longrightarrow>
      length (written (BLS_Marshal Lb P b w)) = BLS_Size Lb \<and>
      (\<exists>b' r'. UnmarshalBLS Lb P r = (Inr b', r') \<and> unread r' = rest \<and> bls_enc Lb b' = bls_enc Lb b \<and>
        NewBLSAddress U Lb (BLS_Signer b') = NewBLSAddress U Lb (BLS_Signer b)))"
proof (intro conjI [OF _ conjI] impI, goal_cases)
  case 1
  moreover have "written (ED25519_Marshal P e w) = ed25519_enc e"
    using packer_spec.ed25519_wire(1) [OF assms(1), of e] 1 assms(5) by (auto simp: writes_def)
  ultimately show ?case
    using packer_spec.ed25519_wire(2) [OF assms(1,3) _ assms(5,6), of rest] assms(3)
    by (auto simp: ed25519_enc_def ed25519_valid_def ED25519_Size_def ED25519Size_def)
next
  case 2
  moreover have "written (SECP256R1_Marshal P s w) = secp256r1_enc s"
    using packer_spec.secp256r1_wire(1) [OF assms(1), of s] 2 assms(5) by (auto simp: writes_def)
  ultimately show ?case
    using packer_spec.secp256r1_wire(2) [OF assms(1,4) _ assms(5,6), of rest] assms(4)
    by (auto simp: secp256r1_enc_def secp256r1_valid_def SECP256R1_Size_def SECP256R1Size_def)
next
  case 3
  have enc: "written (BLS_Marshal Lb P b w) = bls_enc Lb b"
    using BLS_writes [OF assms(1), of Lb b] 3 assms(5) by (auto simp: writes_def)
  obtain b' where b': "reads P unread (UnmarshalBLS Lb P) (Inr b') (bls_enc Lb b)"
    "bls_enc Lb b' = bls_enc Lb b" "Bls_PublicKeyToBytes Lb (BLS_Signer b') = Bls_PublicKeyToBytes Lb (BLS_Signer b)"
    by (rule BLS_reads [OF assms(1,2)])
  obtain r' where "UnmarshalBLS Lb P r = (Inr b', r')" "unread r' = rest"
    by (rule readsE [OF b'(1) assms(6)]) (use 3 enc in auto)
  with b'(2,3) show ?case
    by (auto simp: enc bls_enc_def bls_spec.Bls_lens [OF assms(2)] BLS_Size_def BLSSize_def NewBLSAddress_def)
qed

theorem auth_roundtrip_witness:
  "\<exists>r'. UnmarshalED25519 ref_ed25519 ref_packer (replicate 32 1 @ replicate 64 2, None) =
    (Inr \<lparr>ED25519_Signer = replicate 32 1, ED25519_Signature = replicate 64 2, ED25519_addr = 0\<rparr>, r') \<and>
    fst r' = []"
proof -
  let ?e = "\<lparr>ED25519_Signer = replicate 32 1, ED25519_Signature = replicate 64 2, ED25519_addr = 0\<rparr>"
  let ?s = "\<lparr>SECP256R1_Signer = replicate 33 1, SECP256R1_Signature = replicate 64 2, SECP256R1_addr = 0\<rparr>"
  have valid: "ed25519_valid ref_ed25519 ?e" "secp256r1_valid ref_secp256r1 ?s"
    by (simp_all add: ed25519_valid_def secp256r1_valid_def ref_ed25519_def ref_secp256r1_def EmptyAddress_def)
  have w: "ED25519_Marshal ref_packer ?e ([], None) = (replicate 32 1 @ replicate 64 2, None)"
    by (simp add: ED25519_Marshal_def ref_write_def Let_def)
  show ?thesis
    using auth_roundtrip [THEN conjunct1, OF ref_packer.packer_spec_axioms ref_bls.bls_spec_axioms valid,
        of "([], None)" "(replicate 32 1 @ replicate 64 2, None)" "[]"]
    by (simp add: w)
qed

end
