(* ===== verification/Requester.thy ===== *)
theory Requester
  imports Go_Prelude
begin

text \<open>
  The HTTP client of \<open>requester/requester.go\<close>, through which a validator talks to the hub
  and to its verifier service. The network is outside the repository: \<open>http_lib\<close> are the
  functions of \<open>net/http\<close> the code calls, over an unspecified world. The locale
  \<open>http_view\<close> observes the requests that were sent, in order.
\<close>

section \<open>The packages the client calls\<close>

text \<open>The timeout is in seconds.\<close>

record http_client =
  Timeout :: nat
  MaxIdleConns :: nat
  MaxConnsPerHost :: nat
  MaxIdleConnsPerHost :: nat

record http_request =
  req_method :: string
  req_url :: string
  req_header :: "string \<rightharpoonup> string"
  req_body :: bytes

record ('w, 'r) http_lib =
  NewHTTPRequest :: "string \<Rightarrow> string \<Rightarrow> bytes \<Rightarrow> error + http_request"
  Do :: "http_client \<Rightarrow> http_request \<Rightarrow> 'w \<Rightarrow> (error + 'r) \<times> 'w"
  ReadAll :: "'r \<Rightarrow> 'w \<Rightarrow> (error + bytes) \<times> 'w"

definition Header_Set :: "http_request \<Rightarrow> string \<Rightarrow> string \<Rightarrow> http_request" where
  "Header_Set r k v = r\<lparr>req_header := (req_header r)(k \<mapsto> v)\<rparr>"

section \<open>The requester\<close>

definition SP1ENDPOINT :: string where "SP1ENDPOINT = ''/sp1-verify''"
definition RISCZEROENDPOINT :: string where "RISCZEROENDPOINT = ''/risc0-verify''"
definition MIDENENDPOINT :: string where "MIDENENDPOINT = ''/miden-verify''"
definition JOLTENDPOINT :: string where "JOLTENDPOINT = ''/jolt-verify''"
definition PLONKY2ENDPOINT :: string where "PLONKY2ENDPOINT = ''/plonky2-verify''"
definition PINGENDPOINT :: string where "PINGENDPOINT = ''/ping''"
definition PINGSINGLEENDPOINT :: string where "PINGSINGLEENDPOINT = ''/ping-single''"
definition VERIFYENDPOINT :: string where "VERIFYENDPOINT = ''/verify''"

lemmas endpoint_defs = SP1ENDPOINT_def RISCZEROENDPOINT_def MIDENENDPOINT_def JOLTENDPOINT_def
  PLONKY2ENDPOINT_def PINGENDPOINT_def PINGSINGLEENDPOINT_def VERIFYENDPOINT_def

record endpoint_requester =
  Cli :: http_client
  Uri :: string

record ping_reply =
  PingReply_Success :: bool
  PingReply_RustPort :: string
  PingReply_UnintPort :: string

record ping_single_reply =
  PingSingleReply_Success :: bool

definition New :: "string \<Rightarrow> endpoint_requester" where
  "New uri =
    \<lparr>Cli = \<lparr>Timeout = 8, MaxIdleConns = 1000, MaxConnsPerHost = 1000, MaxIdleConnsPerHost = 1000\<rparr>,
     Uri = uri\<rparr>"

definition NewRequest :: "('w, 'r) http_lib \<Rightarrow> string \<Rightarrow> bytes \<Rightarrow> error + http_request" where
  "NewRequest H endPoint data =
    (case NewHTTPRequest H ''POST'' endPoint data of
       Inl err \<Rightarrow> Inl err
     | Inr req \<Rightarrow> Inr (Header_Set req ''Content-Type'' ''application/json''))"

text \<open>\<open>json.Unmarshal\<close> into the two replies is a parameter of each function.\<close>

definition Ping ::
  "('w, 'r) http_lib \<Rightarrow> (bytes \<Rightarrow> error + ping_reply) \<Rightarrow> endpoint_requester \<Rightarrow> 'w \<Rightarrow>
    (bool \<times> string \<times> string \<times> error option) \<times> 'w" where
  "Ping H unmarshal client w =
    (let endPointUri = Uri client @ PINGENDPOINT
     in case NewHTTPRequest H ''GET'' endPointUri [] of
          Inl err \<Rightarrow> ((False, '''', '''', Some (ErrFmt err ''can't request http'')), w)
        | Inr req \<Rightarrow>
            (let req = Header_Set req ''Content-Type'' ''application/json''
             in case Do H (Cli client) req w of
                  (Inl err, w) \<Rightarrow> ((False, '''', '''', Some (ErrFmt err ''can't do request'')), w)
                | (Inr resp, w) \<Rightarrow>
                    (case ReadAll H resp w of
                       (Inl err, w) \<Rightarrow> ((False, '''', '''', Some (ErrFmt err ''can't decode client response'')), w)
                     | (Inr body, w) \<Rightarrow>
                         (case unmarshal body of
                            Inl err \<Rightarrow> ((False, '''', '''', Some (ErrFmt err ''can't unmarshal json'')), w)
                          | Inr reply \<Rightarrow>
                              ((PingReply_Success reply, PingReply_RustPort reply,
                                PingReply_UnintPort reply, None), w)))))"

definition PingSingle ::
  "('w, 'r) http_lib \<Rightarrow> (bytes \<Rightarrow> error + ping_single_reply) \<Rightarrow> endpoint_requester \<Rightarrow> 'w \<Rightarrow>
    (bool \<times> error option) \<times> 'w" where
  "PingSingle H unmarshal client w =
    (let endPointUri = Uri client @ PINGSINGLEENDPOINT
     in case NewHTTPRequest H ''GET'' endPointUri [] of
          Inl err \<Rightarrow> ((False, Some (ErrFmt err ''can't request http'')), w)
        | Inr req \<Rightarrow>
            (let req = Header_Set req ''Content-Type'' ''application/json''
             in case Do H (Cli client) req w of
                  (Inl err, w) \<Rightarrow> ((False, Some (ErrFmt err ''can't do request'')), w)
                | (Inr resp, w) \<Rightarrow>
                    (case ReadAll H resp w of
                       (Inl err, w) \<Rightarrow> ((False, Some (ErrFmt err ''can't decode client response'')), w)
                     | (Inr body, w) \<Rightarrow>
                         (case unmarshal body of
                            Inl err \<Rightarrow> ((False, Some (ErrFmt err ''can't unmarshal json'')), w)
                          | Inr reply \<Rightarrow> ((PingSingleReply_Success reply, None), w)))))"

section \<open>What is sent\<close>

text \<open>\<open>NewRequest\<close> keeps method, URL and body.\<close>

locale http_requests =
  fixes H :: "('w, 'r) http_lib"
  assumes NewHTTPRequest_fields: "NewHTTPRequest H m u b = Inr req \<Longrightarrow>
      req = \<lparr>req_method = m, req_url = u, req_header = Map.empty, req_body = b\<rparr>"
begin

lemma NewRequest_fields:
  "NewRequest H u b = Inr req \<Longrightarrow> req = \<lparr>req_method = ''POST'', req_url = u,
    req_header = [''Content-Type'' \<mapsto> ''application/json''], req_body = b\<rparr>"
  by (auto simp: NewRequest_def Header_Set_def dest: NewHTTPRequest_fields split: sum.splits)

end

text \<open>
  \<open>sent\<close> are the requests that left, oldest first: \<open>Do\<close> sends the request it is given,
  whatever becomes of it, and reading a body sends nothing.
\<close>

locale http_view = http_requests H
  for H :: "('w, 'r) http_lib" +
  fixes sent :: "'w \<Rightarrow> http_request list"
  assumes Do_sends: "Do H c req w = (x, w') \<Longrightarrow> sent w' = sent w @ [req]"
    and ReadAll_silent: "ReadAll H resp w = (y, w') \<Longrightarrow> sent w' = sent w"
begin

lemma Ping_sends:
  assumes "Ping H u c w = (r, w')"
  shows "sent w' = sent w \<or> (\<exists>req. sent w' = sent w @ [req] \<and> req_method req = ''GET'' \<and>
    req_url req = Uri c @ PINGENDPOINT)"
  using assms
  by (auto simp: Ping_def Let_def Header_Set_def split: sum.splits prod.splits
      dest!: NewHTTPRequest_fields Do_sends ReadAll_silent)

lemma PingSingle_sends:
  assumes "PingSingle H u c w = (r, w')"
  shows "sent w' = sent w \<or> (\<exists>req. sent w' = sent w @ [req] \<and> req_method req = ''GET'' \<and>
    req_url req = Uri c @ PINGSINGLEENDPOINT)"
  using assms
  by (auto simp: PingSingle_def Let_def Header_Set_def split: sum.splits prod.splits
      dest!: NewHTTPRequest_fields Do_sends ReadAll_silent)

end

text \<open>
  \<open>trace\<close> are the requests that left with what came back for each: the body, or \<^const>\<open>None\<close>
  when the request failed or its body could not be read.
\<close>

locale http_service = http_requests H
  for H :: "('w, 'r) http_lib" +
  fixes trace :: "'w \<Rightarrow> (http_request \<times> bytes option) list"
  assumes Do_failed: "Do H c req w = (Inl e, w') \<Longrightarrow> trace w' = trace w @ [(req, None)]"
    and Do_answered: "Do H c req w = (Inr resp, w1) \<Longrightarrow> ReadAll H resp w1 = (r, w') \<Longrightarrow>
      trace w' = trace w @ [(req, case r of Inl e \<Rightarrow> None | Inr b \<Rightarrow> Some b)]"

text \<open>
  A reference network: the world is the log of what was sent and the answers still to come;
  without an answer the request fails.
\<close>

definition ref_http :: "(http_request list \<times> bytes list, bytes) http_lib" where
  "ref_http =
    \<lparr>NewHTTPRequest = (\<lambda>m u b. Inr \<lparr>req_method = m, req_url = u, req_header = Map.empty, req_body = b\<rparr>),
     Do = (\<lambda>c req w. (case snd w of [] \<Rightarrow> (Inl (ErrExternal ''no answer''), (fst w @ [req], []))
       | a # as \<Rightarrow> (Inr a, (fst w @ [req], as)))),
     ReadAll = (\<lambda>a w. (Inr a, w))\<rparr>"

interpretation ref_http: http_view ref_http fst
  by unfold_locales (auto simp: ref_http_def split: list.splits)

text \<open>The same network, with the answers in the log.\<close>

definition ref_service :: "((http_request \<times> bytes option) list \<times> bytes list, bytes) http_lib" where
  "ref_service =
    \<lparr>NewHTTPRequest = (\<lambda>m u b. Inr \<lparr>req_method = m, req_url = u, req_header = Map.empty, req_body = b\<rparr>),
     Do = (\<lambda>c req w. (case snd w of [] \<Rightarrow> (Inl (ErrExternal ''no answer''), (fst w @ [(req, None)], []))
       | a # as \<Rightarrow> (Inr a, (fst w @ [(req, Some a)], as)))),
     ReadAll = (\<lambda>a w. (Inr a, w))\<rparr>"

interpretation ref_service: http_service ref_service fst
  by unfold_locales (auto simp: ref_service_def split: list.splits)

end
