(* ===== verification/Storage_Tx.thy ===== *)
theory Storage_Tx
  imports Storage_Keys
begin

text \<open>
  The record of an accepted transaction in the metadata database: \<open>StoreTransaction\<close> and
  \<open>GetTransaction\<close> of \<open>storage/storage.go\<close>. The database with its write batches and the
  encoding of the fee dimensions are parameters with the contracts \<open>meta_db_spec\<close> and
  \<open>fees_spec\<close>; what is shown is that a record is read back as it was written.
\<close>

section \<open>The packages\<close>

text \<open>\<open>fees.Dimensions\<close> is \<open>[5]uint64\<close>.\<close>

type_synonym dimensions = "u64 list"

record fees_lib =
  DimensionsLen :: nat
  Dimensions_Bytes :: "dimensions \<Rightarrow> bytes"
  UnpackDimensions :: "bytes \<Rightarrow> error + dimensions"

locale fees_spec =
  fixes F :: fees_lib
  assumes Dimensions_Bytes_length: "length (Dimensions_Bytes F d) = DimensionsLen F"
    and Unpack_Bytes: "length d = 5 \<Longrightarrow> UnpackDimensions F (Dimensions_Bytes F d) = Inr d"

text \<open>
  A batch collects writes, \<open>Batch_Write\<close> applies them to the database, all or none.
\<close>

record ('b, 'd) meta_db =
  NewBatch_db :: "'d \<Rightarrow> 'b"
  Batch_Put :: "'b \<Rightarrow> bytes \<Rightarrow> bytes \<Rightarrow> error option \<times> 'b"
  Batch_Write :: "'b \<Rightarrow> 'd \<Rightarrow> error option \<times> 'd"
  DB_Get :: "'d \<Rightarrow> bytes \<Rightarrow> bytes \<times> error option"

locale meta_db_spec =
  fixes D :: "('b, 'd) meta_db" and pending :: "'b \<Rightarrow> (bytes \<times> bytes) list" and content :: "'d \<Rightarrow> (bytes \<rightharpoonup> bytes)"
  assumes NewBatch_empty: "pending (NewBatch_db D d) = []"
    and Batch_Put_cases: "Batch_Put D b k v = (e, b') \<Longrightarrow>
      (e = None \<and> pending b' = pending b @ [(k, v)]) \<or> (e \<noteq> None \<and> pending b' = pending b)"
    and Batch_Write_cases: "Batch_Write D b d = (e, d') \<Longrightarrow>
      (e = None \<and> content d' = content d ++ map_of (rev (pending b))) \<or> (e \<noteq> None \<and> content d' = content d)"
    and DB_Get_content: "DB_Get D d k =
      (case content d k of None \<Rightarrow> ([], Some ErrNotFound) | Some v \<Rightarrow> (v, None))"

section \<open>Operations\<close>

definition failureByte :: byte where "failureByte = 0"
definition successByte :: byte where "successByte = 1"

text \<open>The database is given by its \<open>Put\<close> on a state (a batch) and its \<open>Get\<close>.\<close>

definition StoreTransaction ::
  "fees_lib \<Rightarrow> ('b \<Rightarrow> bytes \<Rightarrow> bytes \<Rightarrow> error option \<times> 'b) \<Rightarrow> 'b \<Rightarrow> ID \<Rightarrow> i64 \<Rightarrow> bool \<Rightarrow> dimensions \<Rightarrow> u64 \<Rightarrow>
    error option \<times> 'b" where
  "StoreTransaction F put db i t success un fee =
    (let k = TxKey i;
         v = make_bytes (Uint64Len + 1 + DimensionsLen F + Uint64Len);
         v = PutUint64_at v 0 t;
         v = (if success then v[Uint64Len := successByte] else v[Uint64Len := failureByte]);
         v = copy_at v (Uint64Len + 1) (Dimensions_Bytes F un);
         v = PutUint64_at v (Uint64Len + 1 + DimensionsLen F) fee
     in put db k v)"

definition GetTransaction ::
  "fees_lib \<Rightarrow> ('d \<Rightarrow> bytes \<Rightarrow> bytes \<times> error option) \<Rightarrow> 'd \<Rightarrow> ID \<Rightarrow>
    (bool \<times> i64 \<times> bool \<times> dimensions \<times> u64 \<times> error option) go" where
  "GetTransaction F get db i =
    (let k = TxKey i; (v, err) = get db k
     in if err_is err ErrNotFound then Some (False, 0, False, replicate 5 0, 0, None)
        else if err \<noteq> None then Some (False, 0, False, replicate 5 0, 0, err)
        else do {
          t \<leftarrow> Uint64 v;
          b \<leftarrow> index v Uint64Len;
          let success = (if b = failureByte then False else True);
          part \<leftarrow> slice v (Uint64Len + 1) (Uint64Len + 1 + DimensionsLen F);
          case UnpackDimensions F part of
            Inl err \<Rightarrow> Some (False, 0, False, replicate 5 0, 0, Some err)
          | Inr d \<Rightarrow> do {
              rest \<leftarrow> slice v (Uint64Len + 1 + DimensionsLen F) (length v);
              fee \<leftarrow> Uint64 rest;
              Some (True, t, success, d, fee, None) } })"

section \<open>Closed form and round trip\<close>

definition tx_record :: "fees_lib \<Rightarrow> i64 \<Rightarrow> bool \<Rightarrow> dimensions \<Rightarrow> u64 \<Rightarrow> bytes" where
  "tx_record F t success un fee =
    be_bytes 8 t @ [of_bool success] @ Dimensions_Bytes F un @ be_bytes 8 fee"

context fees_spec
begin

lemma StoreTransaction_eq:
  "StoreTransaction F put db i t success un fee = put db (TxKey i) (tx_record F t success un fee)"
proof -
  define n where "n = DimensionsLen F"
  have len: "length (Dimensions_Bytes F un) = n"
    by (simp add: n_def Dimensions_Bytes_length)
  have mk: "make_bytes (Uint64Len + 1 + n + Uint64Len) = make_bytes 8 @ [0] @ make_bytes n @ make_bytes 8"
    by (simp add: make_bytes_def replicate_add [symmetric] add.commute flip: replicate_Suc)
  show ?thesis
    unfolding StoreTransaction_def Let_def n_def [symmetric] mk
    by (cases success)
      (simp_all add: PutUint64_at_def copy_at_def tx_record_def len successByte_def failureByte_def
        list_update_append make_bytes_def)
qed

lemma GetTransaction_record:
  assumes "get db (TxKey i) = (tx_record F t success un fee, None)" "length un = 5"
  shows "GetTransaction F get db i = Some (True, t, success, un, fee, None)"
  using assms
  by (simp add: GetTransaction_def tx_record_def index_def slice_def failureByte_def
      Dimensions_Bytes_length Unpack_Bytes nth_append)

end

section \<open>Reference packages\<close>

definition ref_fees :: fees_lib where
  "ref_fees = \<lparr>DimensionsLen = 40,
    Dimensions_Bytes = (\<lambda>d. take 40 (concat (map (be_bytes 8) d) @ replicate 40 0)),
    UnpackDimensions = (\<lambda>b. if length b = 40
      then Inr (map (\<lambda>i. be_word (take 8 (drop (8 * i) b))) [0, 1, 2, 3, 4]) else Inl (ErrExternal ''fees''))\<rparr>"

lemma list_of_five: "length d = 5 \<Longrightarrow> \<exists>a b c e f. d = [a, b, c, e, f]"
  by (auto simp: numeral_eq_Suc length_Suc_conv)

interpretation ref_fees: fees_spec ref_fees
  by unfold_locales (auto simp: ref_fees_def dest!: list_of_five)

definition ref_db :: "((bytes \<times> bytes) list, bytes \<rightharpoonup> bytes) meta_db" where
  "ref_db = \<lparr>NewBatch_db = (\<lambda>d. []), Batch_Put = (\<lambda>b k v. (None, b @ [(k, v)])),
    Batch_Write = (\<lambda>b d. (None, d ++ map_of (rev b))),
    DB_Get = (\<lambda>d k. case d k of None \<Rightarrow> ([], Some ErrNotFound) | Some v \<Rightarrow> (v, None))\<rparr>"

interpretation ref_db: meta_db_spec ref_db "\<lambda>b. b" "\<lambda>d. d"
  by unfold_locales (auto simp: ref_db_def)

section \<open>The claim\<close>

text \<open>
  What is stored for an accepted transaction is read back as it was, with its time, its
  outcome, the units of all dimensions and the fee; a transaction without a record is
  reported as not found, without an error.
\<close>

theorem transaction_roundtrip:
  assumes "fees_spec F" "meta_db_spec D pending content" "length un = 5"
    and "StoreTransaction F (Batch_Put D) (NewBatch_db D d) i t ok un fee = (None, b)"
    and "Batch_Write D b d = (None, d')"
  shows "GetTransaction F (DB_Get D) d' i = Some (True, t, ok, un, fee, None) \<and>
    (\<forall>j. j \<noteq> i \<and> content d (TxKey j) = None \<longrightarrow>
      GetTransaction F (DB_Get D) d' j = Some (False, 0, False, replicate 5 0, 0, None))"
proof -
  note db = meta_db_spec.DB_Get_content [OF assms(2)]
  have "pending b = [(TxKey i, tx_record F t ok un fee)]"
    using assms(4) meta_db_spec.Batch_Put_cases [OF assms(2)] meta_db_spec.NewBatch_empty [OF assms(2)]
    by (fastforce simp: fees_spec.StoreTransaction_eq [OF assms(1)])
  then have content: "content d' = (content d)(TxKey i \<mapsto> tx_record F t ok un fee)"
    using meta_db_spec.Batch_Write_cases [OF assms(2,5)] by auto
  have "GetTransaction F (DB_Get D) d' j = Some (False, 0, False, replicate 5 0, 0, None)"
    if "j \<noteq> i" "content d (TxKey j) = None" for j
    using that by (simp add: GetTransaction_def db content)
  moreover have "GetTransaction F (DB_Get D) d' i = Some (True, t, ok, un, fee, None)"
    by (rule fees_spec.GetTransaction_record [OF assms(1) _ assms(3)]) (simp add: db content)
  ultimately show ?thesis by blast
qed

theorem transaction_roundtrip_witness:
  "GetTransaction ref_fees (DB_Get ref_db) [TxKey 7 \<mapsto> tx_record ref_fees 50 True [1, 2, 3, 4, 5] 9] 7 =
    Some (True, 50, True, [1, 2, 3, 4, 5], 9, None)"
  using transaction_roundtrip [OF ref_fees.fees_spec_axioms ref_db.meta_db_spec_axioms,
      of "[1, 2, 3, 4, 5]" Map.empty 7 50 True 9 "[(TxKey 7, tx_record ref_fees 50 True [1, 2, 3, 4, 5] 9)]"
      "[TxKey 7 \<mapsto> tx_record ref_fees 50 True [1, 2, 3, 4, 5] 9]"]
  by (simp add: ref_fees.StoreTransaction_eq ref_db_def)

end
