(* ===== verification/Genesis.thy ===== *)
theory Genesis
  imports Actions_Base Requester Storage_Tx
begin

text \<open>
  \<open>genesis/genesis.go\<close> and \<open>genesis/rules.go\<close>: the chain parameters with their defaults, the
  allocation of the initial balances, and the rules handed to hypersdk. The branch factor of
  the merkle database, the JSON decoder and the parser of bech32 addresses are parameters.
  \<open>Load\<close> is a client of the balance store; the claim is what it leaves in the accounts.
\<close>

section \<open>Parameters of the chain\<close>

record custom_allocation =
  CustomAllocation_Address :: string
  CustomAllocation_Balance :: u64

record 'bf genesis =
  StateBranchFactor :: 'bf
  MinBlockGap :: i64
  MinEmptyBlockGap :: i64
  MinUnitPrice :: dimensions
  UnitPriceChangeDenominator :: dimensions
  WindowTargetUnits :: dimensions
  MaxBlockUnits :: dimensions
  ValidityWindow :: i64
  BaseComputeUnits :: u64
  BaseWarpComputeUnits :: u64
  WarpComputeUnitsPerSigner :: u64
  OutgoingWarpComputeUnits :: u64
  StorageKeyReadUnits :: u64
  StorageValueReadUnits :: u64
  StorageKeyAllocateUnits :: u64
  StorageValueAllocateUnits :: u64
  StorageKeyWriteUnits :: u64
  StorageValueWriteUnits :: u64
  CustomAllocation :: "custom_allocation option list"

record 'bf merkledb =
  BranchFactor16 :: 'bf
  BranchFactor_Valid :: "'bf \<Rightarrow> error option"

definition MillisecondsPerSecond :: i64 where "MillisecondsPerSecond = 1000"

definition Default :: "'bf merkledb \<Rightarrow> 'bf genesis" where
  "Default B =
    \<lparr>StateBranchFactor = BranchFactor16 B,
     MinBlockGap = 100,
     MinEmptyBlockGap = 1000,
     MinUnitPrice = [100, 100, 100, 100, 100],
     UnitPriceChangeDenominator = [48, 48, 48, 48, 48],
     WindowTargetUnits = [20000000, 1000, 1000, 1000, 1000],
     MaxBlockUnits = [1800000, 2000, 2000, 2000, 2000],
     ValidityWindow = 60 * MillisecondsPerSecond,
     BaseComputeUnits = 1,
     BaseWarpComputeUnits = 1024,
     WarpComputeUnitsPerSigner = 128,
     OutgoingWarpComputeUnits = 1024,
     StorageKeyReadUnits = 5,
     StorageValueReadUnits = 2,
     StorageKeyAllocateUnits = 20,
     StorageValueAllocateUnits = 5,
     StorageKeyWriteUnits = 10,
     StorageValueWriteUnits = 3,
     CustomAllocation = []\<rparr>"

text \<open>\<open>json.Unmarshal\<close> overwrites the fields that the document names.\<close>

definition Genesis_New ::
  "'bf merkledb \<Rightarrow> (bytes \<Rightarrow> 'bf genesis \<Rightarrow> error + 'bf genesis) \<Rightarrow> bytes \<Rightarrow> bytes \<Rightarrow> error + 'bf genesis"
where
  "Genesis_New B unmarshal b upgradeBytes =
    (let g = Default B
     in if length b > 0
        then (case unmarshal b g of
                Inl err \<Rightarrow> Inl (ErrWrap err ''failed to unmarshal config'')
              | Inr g \<Rightarrow> Inr g)
        else Inr g)"

definition HRP :: string where "HRP = ''morpheus''"

text \<open>
  The loop of \<open>Load\<close>, with \<open>supply\<close> the sum so far. The allocations are pointers; the loop
  panics at one that is \<open>nil\<close>, as the \<open>null\<close> of a JSON document is read.
\<close>

fun Load_allocations ::
  "math64 \<Rightarrow> (string \<Rightarrow> string \<Rightarrow> error + address) \<Rightarrow> 's mutable \<Rightarrow> u64 \<Rightarrow> custom_allocation option list \<Rightarrow> 's \<Rightarrow>
    (error option \<times> 's) go" where
  "Load_allocations smath ParseAddressBech32 mu supply [] s = Some (None, s)"
| "Load_allocations smath ParseAddressBech32 mu supply (alloc # allocs) s =
    do { alloc \<leftarrow> alloc;
         case ParseAddressBech32 HRP (CustomAllocation_Address alloc) of
           Inl err \<Rightarrow> Some (Some (ErrWrap err (CustomAllocation_Address alloc)), s)
         | Inr addr \<Rightarrow>
             (case Add64 smath supply (CustomAllocation_Balance alloc) of
                Inl err \<Rightarrow> Some (Some err, s)
              | Inr supply \<Rightarrow>
                  (case SetBalance mu s addr (CustomAllocation_Balance alloc) of
                     (Some err, s) \<Rightarrow> Some (Some (ErrWrap err ''addr bal''), s)
                   | (None, s) \<Rightarrow> Load_allocations smath ParseAddressBech32 mu supply allocs s)) }"

definition Load ::
  "math64 \<Rightarrow> 'bf merkledb \<Rightarrow> (string \<Rightarrow> string \<Rightarrow> error + address) \<Rightarrow> 's mutable \<Rightarrow> 'bf genesis \<Rightarrow> 's \<Rightarrow>
    (error option \<times> 's) go" where
  "Load smath B ParseAddressBech32 mu g s =
    (case BranchFactor_Valid B (StateBranchFactor g) of
       Some err \<Rightarrow> Some (Some err, s)
     | None \<Rightarrow> Load_allocations smath ParseAddressBech32 mu 0 (CustomAllocation g) s)"

definition GetStateBranchFactor :: "'bf genesis \<Rightarrow> 'bf" where
  "GetStateBranchFactor g = StateBranchFactor g"

section \<open>Rules\<close>

text \<open>
  The current validators, as the VM reports them: the entries of the map by node ID in the
  order the loop over it visits them, and the set of the public keys' bytes. The public key
  of an entry is a reference \<open>'k\<close>.
\<close>

record 'k validator =
  Validator_PublicKey :: 'k
  Validator_Weight :: u64

type_synonym 'k current_validators = "unit \<Rightarrow> 'k validator list \<times> bytes set"

record ('bf, 'k) rules =
  Rules_g :: "'bf genesis"
  Rules_networkID :: u32
  Rules_chainID :: ID
  Rules_client :: endpoint_requester
  Rules_f :: "'k current_validators"

definition Genesis_Rules ::
  "'bf genesis \<Rightarrow> i64 \<Rightarrow> u32 \<Rightarrow> ID \<Rightarrow> endpoint_requester \<Rightarrow> 'k current_validators \<Rightarrow> ('bf, 'k) rules" where
  "Genesis_Rules g t networkID chainID client f =
    \<lparr>Rules_g = g, Rules_networkID = networkID, Rules_chainID = chainID, Rules_client = client, Rules_f = f\<rparr>"

definition Rules_GetWarpConfig :: "ID \<Rightarrow> bool \<times> u64 \<times> u64" where
  "Rules_GetWarpConfig i = (False, 0, 0)"

definition Rules_NetworkID :: "('bf, 'k) rules \<Rightarrow> u32" where
  "Rules_NetworkID r = Rules_networkID r"

definition Rules_ChainID :: "('bf, 'k) rules \<Rightarrow> ID" where
  "Rules_ChainID r = Rules_chainID r"

definition Rules_GetMinBlockGap :: "('bf, 'k) rules \<Rightarrow> i64" where
  "Rules_GetMinBlockGap r = MinBlockGap (Rules_g r)"

definition Rules_GetMinEmptyBlockGap :: "('bf, 'k) rules \<Rightarrow> i64" where
  "Rules_GetMinEmptyBlockGap r = MinEmptyBlockGap (Rules_g r)"

definition Rules_GetValidityWindow :: "('bf, 'k) rules \<Rightarrow> i64" where
  "Rules_GetValidityWindow r = ValidityWindow (Rules_g r)"

definition Rules_GetMaxBlockUnits :: "('bf, 'k) rules \<Rightarrow> dimensions" where
  "Rules_GetMaxBlockUnits r = MaxBlockUnits (Rules_g r)"

definition Rules_GetBaseComputeUnits :: "('bf, 'k) rules \<Rightarrow> u64" where
  "Rules_GetBaseComputeUnits r = BaseComputeUnits (Rules_g r)"

definition Rules_GetBaseWarpComputeUnits :: "('bf, 'k) rules \<Rightarrow> u64" where
  "Rules_GetBaseWarpComputeUnits r = BaseWarpComputeUnits (Rules_g r)"

definition Rules_GetWarpComputeUnitsPerSigner :: "('bf, 'k) rules \<Rightarrow> u64" where
  "Rules_GetWarpComputeUnitsPerSigner r = WarpComputeUnitsPerSigner (Rules_g r)"

definition Rules_GetOutgoingWarpComputeUnits :: "('bf, 'k) rules \<Rightarrow> u64" where
  "Rules_GetOutgoingWarpComputeUnits r = OutgoingWarpComputeUnits (Rules_g r)"

definition Rules_GetSponsorStateKeysMaxChunks :: "u16 list" where
  "Rules_GetSponsorStateKeysMaxChunks = [BalanceChunks]"

definition Rules_GetStorageKeyReadUnits :: "('bf, 'k) rules \<Rightarrow> u64" where
  "Rules_GetStorageKeyReadUnits r = StorageKeyReadUnits (Rules_g r)"

definition Rules_GetStorageValueReadUnits :: "('bf, 'k) rules \<Rightarrow> u64" where
  "Rules_GetStorageValueReadUnits r = StorageValueReadUnits (Rules_g r)"

definition Rules_GetStorageKeyAllocateUnits :: "('bf, 'k) rules \<Rightarrow> u64" where
  "Rules_GetStorageKeyAllocateUnits r = StorageKeyAllocateUnits (Rules_g r)"

definition Rules_GetStorageValueAllocateUnits :: "('bf, 'k) rules \<Rightarrow> u64" where
  "Rules_GetStorageValueAllocateUnits r = StorageValueAllocateUnits (Rules_g r)"

definition Rules_GetStorageKeyWriteUnits :: "('bf, 'k) rules \<Rightarrow> u64" where
  "Rules_GetStorageKeyWriteUnits r = StorageKeyWriteUnits (Rules_g r)"

definition Rules_GetStorageValueWriteUnits :: "('bf, 'k) rules \<Rightarrow> u64" where
  "Rules_GetStorageValueWriteUnits r = StorageValueWriteUnits (Rules_g r)"

definition Rules_GetMinUnitPrice :: "('bf, 'k) rules \<Rightarrow> dimensions" where
  "Rules_GetMinUnitPrice r = MinUnitPrice (Rules_g r)"

definition Rules_GetUnitPriceChangeDenominator :: "('bf, 'k) rules \<Rightarrow> dimensions" where
  "Rules_GetUnitPriceChangeDenominator r = UnitPriceChangeDenominator (Rules_g r)"

definition Rules_GetWindowTargetUnits :: "('bf, 'k) rules \<Rightarrow> dimensions" where
  "Rules_GetWindowTargetUnits r = WindowTargetUnits (Rules_g r)"

definition Rules_FetchCustom :: "('bf, 'k) rules \<Rightarrow> string \<Rightarrow> 'k current_validators \<times> bool" where
  "Rules_FetchCustom r s = (Rules_f r, True)"

section \<open>What the genesis leaves\<close>

text \<open>
  The specification: every address parses and the sum of the allocations fits 64 bits; the
  accounts are those of the allocations, a later allocation to the same address replacing an
  earlier one.
\<close>

type_synonym bech32 = "string \<Rightarrow> string \<Rightarrow> error + address"

definition allocation_sum :: "custom_allocation option list \<Rightarrow> nat" where
  "allocation_sum allocs = (\<Sum>al \<leftarrow> allocs. case al of None \<Rightarrow> 0 | Some al \<Rightarrow> unat (CustomAllocation_Balance al))"

text \<open>The address of an allocation, when there is one that parses.\<close>

definition address_of :: "bech32 \<Rightarrow> custom_allocation option \<Rightarrow> address option" where
  "address_of parse al = (case al of None \<Rightarrow> None | Some al \<Rightarrow>
    (case parse HRP (CustomAllocation_Address al) of Inl _ \<Rightarrow> None | Inr a \<Rightarrow> Some a))"

lemma address_of_simps [simp]:
  "address_of parse None = None"
  "address_of parse (Some al) = Some a \<longleftrightarrow> parse HRP (CustomAllocation_Address al) = Inr a"
  "address_of parse (Some al) = None \<longleftrightarrow> (\<exists>e. parse HRP (CustomAllocation_Address al) = Inl e)"
  by (auto simp: address_of_def split: sum.split)

lemma address_of_Some:
  "parse HRP (CustomAllocation_Address al) = Inr a \<Longrightarrow> address_of parse (Some al) = Some a"
  by simp

fun allocated :: "bech32 \<Rightarrow> custom_allocation option list \<Rightarrow> (address \<rightharpoonup> u64) \<Rightarrow> (address \<rightharpoonup> u64)" where
  "allocated parse [] acc = acc"
| "allocated parse (al # als) acc = allocated parse als
    (case address_of parse al of None \<Rightarrow> acc | Some a \<Rightarrow> acc(a := map_option CustomAllocation_Balance al))"

fun parsed_addresses :: "bech32 \<Rightarrow> custom_allocation option list \<Rightarrow> address list" where
  "parsed_addresses parse [] = []"
| "parsed_addresses parse (al # als) =
    (case address_of parse al of None \<Rightarrow> [] | Some a \<Rightarrow> [a]) @ parsed_addresses parse als"

definition loadable :: "bech32 \<Rightarrow> u64 \<Rightarrow> custom_allocation option list \<Rightarrow> bool" where
  "loadable parse supply allocs \<longleftrightarrow>
    (\<forall>al \<in> set allocs. address_of parse al \<noteq> None) \<and> unat supply + allocation_sum allocs < 2 ^ 64"

lemma loadable_Cons:
  "loadable parse supply (Some al # als) \<longleftrightarrow> (\<exists>a. parse HRP (CustomAllocation_Address al) = Inr a) \<and>
    unat supply + unat (CustomAllocation_Balance al) < 2 ^ 64 \<and>
    loadable parse (supply + CustomAllocation_Balance al) als"
proof (cases "unat supply + unat (CustomAllocation_Balance al) < 2 ^ 64")
  case True
  then have "unat (supply + CustomAllocation_Balance al) = unat supply + unat (CustomAllocation_Balance al)"
    by (simp add: unat_word_ariths)
  with True show ?thesis by (auto simp: loadable_def allocation_sum_def)
next
  case False
  then show ?thesis by (auto simp: loadable_def allocation_sum_def)
qed

context balance_view
begin

lemma Load_allocations_eval:
  assumes "\<And>al a. Some al \<in> set allocs \<Longrightarrow> parse HRP (CustomAllocation_Address al) = Inr a \<Longrightarrow> BalanceKey a \<in> scope"
    and "wf_balances (kv s)" "Load_allocations A parse M n allocs s = Some (e, s')"
  shows "(e = None \<longleftrightarrow> loadable parse n allocs) \<and> wf_balances (kv s') \<and>
    (e = None \<longrightarrow> account (kv s') = allocated parse allocs (account (kv s))) \<and>
    (\<forall>k. (\<forall>a. k \<noteq> BalanceKey a) \<longrightarrow> kv s' k = kv s k)"
  using assms
proof (induction allocs arbitrary: n s)
  case Nil
  then show ?case by (simp add: loadable_def allocation_sum_def unat_u64_less [simplified])
next
  case (Cons opt als)
  obtain al where al: "opt = Some al"
    using Cons.prems(3) by (cases opt) simp_all
  show ?case
  proof (cases "parse HRP (CustomAllocation_Address al)")
    case (Inl err)
    with Cons.prems show ?thesis by (auto simp: loadable_Cons al)
  next
    case (Inr a)
    then have a: "BalanceKey a \<in> scope"
      using Cons.prems(1) [OF _ Inr] by (simp add: al)
    show ?thesis
    proof (cases "Add64 A n (CustomAllocation_Balance al)")
      case (Inl err)
      then have "\<not> unat n + unat (CustomAllocation_Balance al) < 2 ^ 64"
        using Add64_ok [of n "CustomAllocation_Balance al"] by auto
      with Cons.prems(2,3) Inr Inl show ?thesis
        by (auto simp: loadable_Cons al)
    next
      case sum: (Inr sup')
      then have fits: "unat n + unat (CustomAllocation_Balance al) < 2 ^ 64"
        "sup' = n + CustomAllocation_Balance al"
        by (simp_all add: Add64_Inr_iff)
      obtain s1 where s1: "setBalance M s (BalanceKey a) (CustomAllocation_Balance al) = (None, s1)"
        "kv s1 = (kv s)(BalanceKey a \<mapsto> be_bytes 8 (CustomAllocation_Balance al))"
        by (rule setBalance_eval [OF a])
      have rest: "Load_allocations A parse M sup' als s1 = Some (e, s')"
        using Cons.prems(3) Inr sum s1(1) by (simp add: SetBalance_def al)
      have wf: "wf_balances (kv s1)"
        using Cons.prems(2) s1(2) by simp
      have acc: "account (kv s1) = (account (kv s))(a \<mapsto> CustomAllocation_Balance al)"
        by (simp add: s1(2))
      have addr: "address_of parse (Some al) = Some a"
        using Inr by simp
      have "BalanceKey a \<in> scope" if "Some al \<in> set als" "parse HRP (CustomAllocation_Address al) = Inr a" for al a
        using Cons.prems(1) that by (meson list.set_intros(2))
      then have IH: "(e = None \<longleftrightarrow> loadable parse sup' als) \<and> wf_balances (kv s') \<and>
          (e = None \<longrightarrow> account (kv s') = allocated parse als (account (kv s1))) \<and>
          (\<forall>k. (\<forall>a. k \<noteq> BalanceKey a) \<longrightarrow> kv s' k = kv s1 k)"
        by (intro Cons.IH [OF _ wf rest])
      have "\<forall>k. (\<forall>a. k \<noteq> BalanceKey a) \<longrightarrow> kv s' k = kv s k"
        using IH s1(2) by auto
      with IH Inr fits acc addr show ?thesis
        by (simp add: loadable_Cons al address_of_Some [where parse = parse])
    qed
  qed
qed

end

text \<open>Only a \<open>nil\<close> allocation that the loop reaches makes \<open>Load\<close> panic.\<close>

lemma Load_allocations_returns:
  "None \<notin> set allocs \<Longrightarrow> \<exists>r. Load_allocations A parse M n allocs s = Some r"
proof (induction allocs arbitrary: n s)
  case (Cons al als)
  then obtain x where "al = Some x" by (cases al) auto
  with Cons show ?case
    by (auto split: sum.split prod.split option.split)
qed simp

lemma Load_returns: "None \<notin> set (CustomAllocation g) \<Longrightarrow> \<exists>r. Load A B parse M g s = Some r"
  using Load_allocations_returns [of "CustomAllocation g" A parse M 0 s]
  by (cases "BranchFactor_Valid B (StateBranchFactor g)") (auto simp: Load_def)

text \<open>
  C33: \<open>Load\<close> succeeds exactly when the branch factor is valid, every address of the genesis
  parses and the allocations add up to less than 2^64; then the accounts are those of the
  allocations in order, and nothing but balances was written.
\<close>

theorem Load_accounts:
  assumes "state_view M kv scope" "checked_math A"
    and "\<And>al a. Some al \<in> set (CustomAllocation g) \<Longrightarrow> parse HRP (CustomAllocation_Address al) = Inr a \<Longrightarrow>
      BalanceKey a \<in> scope"
    and "wf_balances (kv s)" "Load A B parse M g s = Some (e, s')"
  shows "(e = None \<longleftrightarrow> BranchFactor_Valid B (StateBranchFactor g) = None \<and> loadable parse 0 (CustomAllocation g)) \<and>
    (e = None \<longrightarrow> account (kv s') = allocated parse (CustomAllocation g) (account (kv s))) \<and>
    (\<forall>k. (\<forall>a. k \<noteq> BalanceKey a) \<longrightarrow> kv s' k = kv s k)"
proof (cases "BranchFactor_Valid B (StateBranchFactor g)")
  case None
  have "balance_view M kv scope A"
    using assms(1,2) by (simp add: balance_view_def)
  from balance_view.Load_allocations_eval [OF this assms(3,4)] None assms(5)
  show ?thesis by (simp add: Load_def)
next
  case (Some err)
  with assms(5) show ?thesis by (auto simp: Load_def)
qed

text \<open>Two allocations; the parser of the example reads an address as its length.\<close>

definition ref_merkledb :: "nat merkledb" where
  "ref_merkledb = \<lparr>BranchFactor16 = 16, BranchFactor_Valid = (\<lambda>b. if b = 16 then None else Some (ErrExternal ''bf''))\<rparr>"

definition ref_bech32 :: bech32 where
  "ref_bech32 hrp a = (if a = [] then Inl (ErrExternal ''bech32'') else Inr (word_of_nat (length a)))"

definition two_allocations :: "custom_allocation option list" where
  "two_allocations = [Some \<lparr>CustomAllocation_Address = ''a'', CustomAllocation_Balance = 70\<rparr>,
    Some \<lparr>CustomAllocation_Address = ''bb'', CustomAllocation_Balance = 30\<rparr>]"

lemma two_allocations_facts:
  "Some al \<in> set two_allocations \<Longrightarrow> ref_bech32 HRP (CustomAllocation_Address al) = Inr a \<Longrightarrow>
    BalanceKey a \<in> {BalanceKey 1, BalanceKey 2}"
  "loadable ref_bech32 0 two_allocations"
  "allocated ref_bech32 two_allocations acc = acc(1 \<mapsto> 70, 2 \<mapsto> 30)"
  "parsed_addresses ref_bech32 two_allocations = [1, 2]"
  "allocation_sum two_allocations = 100"
  "CustomAllocation ((Default ref_merkledb)\<lparr>CustomAllocation := two_allocations\<rparr>) = two_allocations"
  "BranchFactor_Valid ref_merkledb
    (StateBranchFactor ((Default ref_merkledb)\<lparr>CustomAllocation := two_allocations\<rparr>)) = None"
  "wf_balances Map.empty" "account Map.empty = Map.empty"
  by (auto simp: two_allocations_def ref_bech32_def loadable_def allocation_sum_def Default_def
      ref_merkledb_def wf_balances_def account_def address_of_def)

theorem Load_accounts_witness:
  "\<exists>s'. Load ref_math ref_merkledb ref_bech32 (mem_view {BalanceKey 1, BalanceKey 2})
      ((Default ref_merkledb)\<lparr>CustomAllocation := two_allocations\<rparr>) Map.empty = Some (None, s') \<and>
    account s' = [1 \<mapsto> 70, 2 \<mapsto> 30]"
proof -
  let ?g = "(Default ref_merkledb)\<lparr>CustomAllocation := two_allocations\<rparr>"
  obtain e s' where l: "Load ref_math ref_merkledb ref_bech32 (mem_view {BalanceKey 1, BalanceKey 2}) ?g Map.empty = Some (e, s')"
    using Load_returns [of ?g] by (fastforce simp: two_allocations_facts(6) two_allocations_def)
  have "e = None \<and> account s' = [1 \<mapsto> 70, 2 \<mapsto> 30]"
    using Load_accounts [OF mem_view.state_view_axioms ref_math.checked_math_axioms _ _ l]
      two_allocations_facts(1)
    by (simp only: two_allocations_facts(2-))
  with l show ?thesis by simp
qed

lemma ref_balance_view:
  "balance_view (mem_view scope) (\<lambda>s. s) scope ref_math"
  using mem_view.state_view_axioms ref_math.checked_math_axioms by (simp add: balance_view_def)

lemma two_allocations_load:
  obtains s where "Load ref_math ref_merkledb ref_bech32 (mem_view {BalanceKey 1, BalanceKey 2})
      ((Default ref_merkledb)\<lparr>CustomAllocation := two_allocations\<rparr>) Map.empty = Some (None, s)"
proof -
  obtain e s' where l: "Load_allocations ref_math ref_bech32 (mem_view {BalanceKey 1, BalanceKey 2}) 0
      two_allocations Map.empty = Some (e, s')"
    using Load_allocations_returns [of two_allocations] by (fastforce simp: two_allocations_def)
  then have "e = None"
    using balance_view.Load_allocations_eval [OF ref_balance_view two_allocations_facts(1) _ l]
    by (simp add: two_allocations_facts(2-))
  with l show thesis
    by (intro that [of s']) (use \<open>e = None\<close> in \<open>simp only: Load_def two_allocations_facts(6,7) option.case\<close>)
qed

lemma total_allocated:
  assumes "finite S" "set (parsed_addresses parse allocs) \<subseteq> S"
  shows "total_on S (allocated parse allocs acc) \<le> total_on S acc + allocation_sum allocs \<and>
    ((\<forall>al \<in> set allocs. address_of parse al \<noteq> None) \<and>
     distinct (parsed_addresses parse allocs) \<and> (\<forall>a \<in> set (parsed_addresses parse allocs). acc a = None) \<longrightarrow>
     total_on S (allocated parse allocs acc) = total_on S acc + allocation_sum allocs)"
  using assms(2)
proof (induction allocs arbitrary: acc)
  case (Cons opt als)
  show ?case
  proof (cases "address_of parse opt")
    case None
    with Cons.IH [of acc] Cons.prems show ?thesis by (auto simp: allocation_sum_def)
  next
    case (Some a)
    then obtain al where al: "opt = Some al"
      by (cases opt) simp_all
    define acc' where "acc' = acc(a \<mapsto> CustomAllocation_Balance al)"
    have "total_on S acc' + unat (amount_of (acc a)) = total_on S acc + unat (CustomAllocation_Balance al)"
      using total_on_upd [OF assms(1), of a acc "Some (CustomAllocation_Balance al)"] Cons.prems Some
      by (simp add: acc'_def)
    moreover have "allocated parse (opt # als) acc = allocated parse als acc'"
      "parsed_addresses parse (opt # als) = a # parsed_addresses parse als"
      "allocation_sum (opt # als) = unat (CustomAllocation_Balance al) + allocation_sum als"
      using Some by (simp_all only: allocated.simps parsed_addresses.simps option.case)
        (simp_all add: acc'_def allocation_sum_def al)
    moreover have "(\<forall>b \<in> set (parsed_addresses parse als). acc' b = None) \<and> amount_of (acc a) = 0"
      if "distinct (a # parsed_addresses parse als)" "\<forall>b \<in> set (a # parsed_addresses parse als). acc b = None"
      using that by (auto simp: acc'_def)
    ultimately show ?thesis
      using Cons.IH [of acc'] Cons.prems by auto
  qed
qed (simp add: allocation_sum_def)

text \<open>
  The supply of a fresh chain: after a genesis that loads, the balances add up to at most
  the sum of the allocations, which is less than 2^64, and to exactly that sum when no address
  is allocated twice. (A second allocation to an address replaces the first, so the supply the
  loop counts is then more than what exists.)
\<close>

theorem genesis_supply:
  assumes "state_view M kv scope" "checked_math A"
    and "\<And>al a. Some al \<in> set (CustomAllocation g) \<Longrightarrow> parse HRP (CustomAllocation_Address al) = Inr a \<Longrightarrow>
      BalanceKey a \<in> scope"
    and "kv s = Map.empty" "Load A B parse M g s = Some (None, s')"
    and "finite S" "set (parsed_addresses parse (CustomAllocation g)) \<subseteq> S"
  shows "total_on S (account (kv s')) \<le> allocation_sum (CustomAllocation g) \<and>
    allocation_sum (CustomAllocation g) < 2 ^ 64 \<and>
    (distinct (parsed_addresses parse (CustomAllocation g)) \<longrightarrow>
      total_on S (account (kv s')) = allocation_sum (CustomAllocation g))"
proof -
  have bv: "balance_view M kv scope A"
    using assms(1,2) by (simp add: balance_view_def)
  have load: "Load_allocations A parse M 0 (CustomAllocation g) s = Some (None, s')"
    using assms(5) by (simp add: Load_def split: option.splits)
  have zero: "account Map.empty = Map.empty" "total_on S (Map.empty :: address \<rightharpoonup> u64) = 0"
    by (simp_all add: account_def fun_eq_iff total_on_def)
  have "wf_balances (kv s)"
    by (simp add: assms(4) wf_balances_def)
  from balance_view.Load_allocations_eval [OF bv assms(3) this load]
  have "loadable parse 0 (CustomAllocation g)"
    "account (kv s') = allocated parse (CustomAllocation g) Map.empty"
    by (simp_all add: assms(4) zero)
  then show ?thesis
    using total_allocated [OF assms(6,7), of Map.empty] by (auto simp: loadable_def zero)
qed

text \<open>The same genesis: a supply of 100.\<close>

theorem genesis_supply_witness:
  "\<exists>s'. Load ref_math ref_merkledb ref_bech32 (mem_view {BalanceKey 1, BalanceKey 2})
      ((Default ref_merkledb)\<lparr>CustomAllocation := two_allocations\<rparr>) Map.empty = Some (None, s') \<and>
    total_on {1, 2} (account s') = 100"
proof -
  let ?g = "(Default ref_merkledb)\<lparr>CustomAllocation := two_allocations\<rparr>"
  obtain s' where l: "Load ref_math ref_merkledb ref_bech32 (mem_view {BalanceKey 1, BalanceKey 2}) ?g Map.empty = Some (None, s')"
    by (rule two_allocations_load)
  have "total_on {1, 2} (account s') = 100"
    using genesis_supply [OF mem_view.state_view_axioms ref_math.checked_math_axioms _ _ l, of "{1, 2}"]
      two_allocations_facts(1)
    by (simp add: two_allocations_facts(2-))
  with l show ?thesis by simp
qed

end
