(* ===== verification/Actions_Vote.thy ===== *)
theory Actions_Vote
  imports Auth Genesis
begin

text \<open>
  The vote of a validator on a proof: \<open>actions/validator_vote.go\<close> with \<open>GetMessage\<close> of
  \<open>actions/utils.go\<close>. The BLS library, the warp messages and the list of validators are
  parameters; keys of the list and the parsed key of the vote are references that the code
  compares by identity. The lemmas follow one vote through the loop over the validators;
  \<open>vote_history\<close> is the history of the votes of a chain, in which every transaction sees
  only the keys it declares and a failed one is discarded.
\<close>

section \<open>The action\<close>

definition GetMessage :: "ID \<Rightarrow> bool \<Rightarrow> bytes" where
  "GetMessage txID vote =
    (let msg = make_bytes (IDLen + BoolLen);
         msg = copy_at msg 0 (id_bytes txID)
     in if vote then copy_at msg IDLen [1] else copy_at msg IDLen [0])"

record validator_vote =
  Vote_TxID :: ID
  Vote_Vote :: bool
  Vote_Signature :: bytes
  Vote_PublicKey :: bytes

text \<open>\<open>warp.NewUnsignedMessage\<close> and the bytes of the message it makes.\<close>

record 'm warp_lib =
  NewUnsignedMessage :: "u32 \<Rightarrow> ID \<Rightarrow> bytes \<Rightarrow> error + 'm"
  UnsignedMessage_Bytes :: "'m \<Rightarrow> bytes"

definition ValidatorVote_GetTypeID :: byte where "ValidatorVote_GetTypeID = ValidatorVoteID"

definition ValidatorVote_StateKeys :: "validator_vote \<Rightarrow> address \<Rightarrow> ID \<Rightarrow> state_keys" where
  "ValidatorVote_StateKeys v actor txID =
    {TimeOutKey (Vote_TxID v), WeightKey (Vote_TxID v), StatusKey txID, VoteKey (Vote_TxID v) actor}"

definition ValidatorVote_StateKeysMaxChunks :: "u16 list" where
  "ValidatorVote_StateKeysMaxChunks = [TimeOutChunks, TimeOutChunks, TimeOutChunks, TimeOutChunks]"

definition ValidatorVote_OutputsWarpMessage :: bool where
  "ValidatorVote_OutputsWarpMessage = False"

definition ValidatorVote_MaxComputeUnits :: u64 where
  "ValidatorVote_MaxComputeUnits = ValidatorVoteComputeUnits"

definition ValidatorVote_Size :: "validator_vote \<Rightarrow> nat" where
  "ValidatorVote_Size v = IDLen + BoolLen + length (Vote_Signature v) + length (Vote_PublicKey v)"

definition ValidatorVote_Marshal :: "'p packer \<Rightarrow> validator_vote \<Rightarrow> 'p \<Rightarrow> 'p" where
  "ValidatorVote_Marshal P v p =
    (let p = PackID P p (Vote_TxID v);
         p = PackBool P p (Vote_Vote v);
         p = PackBytes P p (Vote_Signature v)
     in PackBytes P p (Vote_PublicKey v))"

definition UnmarshalValidatorVote ::
  "('k, 'g, 'sk) bls_lib \<Rightarrow> 'p packer \<Rightarrow> 'p \<Rightarrow> (error + validator_vote) \<times> 'p" where
  "UnmarshalValidatorVote L P p =
    (let (i, p) = UnpackID P p True;
         (b, p) = UnpackBool P p;
         (sig, p) = UnpackBytes P p (Bls_SignatureLen L) True;
         (pk, p) = UnpackBytes P p (Bls_PublicKeyLen L) True
     in (Inr \<lparr>Vote_TxID = i, Vote_Vote = b, Vote_Signature = sig, Vote_PublicKey = pk\<rparr>, p))"

definition ValidatorVote_ValidRange :: "int \<times> int" where "ValidatorVote_ValidRange = (-1, -1)"

text \<open>
  The loop over the validators. The results of \<open>UpdateWeight\<close> and \<open>StoreVote\<close> are dropped;
  \<open>totalWeight\<close> is what the loop has added up so far.
\<close>

fun vote_loop ::
  "math64 \<Rightarrow> ('k, 'g, 'sk) bls_lib \<Rightarrow> 'm warp_lib \<Rightarrow> ('bf, 'k) rules \<Rightarrow> 's mutable \<Rightarrow> validator_vote \<Rightarrow>
    address \<Rightarrow> 'k \<Rightarrow> 'g \<Rightarrow> u64 \<Rightarrow> 'k validator list \<Rightarrow> 's \<Rightarrow> (exec_result \<times> 's) go" where
  "vote_loop A L W r mu v actor pubKey sig totalWeight [] s =
    Some (result True ValidatorVoteComputeUnits NoOutput None, s)"
| "vote_loop A L W r mu v actor pubKey sig totalWeight (vdr # vdrs) s =
    (if Validator_PublicKey vdr = pubKey
     then (case Add64 A totalWeight (Validator_Weight vdr) of
       Inl err \<Rightarrow> Some (result False 3500 (ErrBytes (ErrFmt err ''weight overflow'')) None, s)
     | Inr totalWeight \<Rightarrow>
       (let w = Validator_Weight vdr;
            bls = \<lparr>BLS_Signer = pubKey, BLS_Signature = sig, BLS_addr = EmptyAddress\<rparr>;
            msg = GetMessage (Vote_TxID v) (Vote_Vote v)
        in case NewUnsignedMessage W (Rules_NetworkID r) (Rules_ChainID r) msg of
          Inl err \<Rightarrow> Some (result False 4000 (ErrBytes (ErrFmt err ''cant create unsigned message'')) None, s)
        | Inr unSigMsg \<Rightarrow> (case BLS_Verify L bls (UnsignedMessage_Bytes W unSigMsg) of
          Some err \<Rightarrow> Some (result False 4000 (ErrBytes (ErrFmt err ''cant verify signature'')) None, s)
        | None \<Rightarrow> do {
            e \<leftarrow> GetVote mu s (Vote_TxID v) actor;
            case e of
              Some err \<Rightarrow> Some (result False 5000 (ErrBytes (ErrFmt err ''already voted'')) None, s)
            | None \<Rightarrow> do {
                s \<leftarrow> (if Vote_Vote v
                     then do { (_, s) \<leftarrow> UpdateWeight mu s (Vote_TxID v) w totalWeight; Some s }
                     else Some s);
                let (_, s) = StoreVote mu s (Vote_TxID v) actor;
                vote_loop A L W r mu v actor pubKey sig totalWeight vdrs s } })))
     else vote_loop A L W r mu v actor pubKey sig totalWeight vdrs s)"

definition ValidatorVote_Execute ::
  "math64 \<Rightarrow> ('k, 'g, 'sk) bls_lib \<Rightarrow> 'm warp_lib \<Rightarrow> ('bf, 'k) rules \<Rightarrow>
    's mutable \<Rightarrow> validator_vote \<Rightarrow> 's \<Rightarrow> i64 \<Rightarrow> address \<Rightarrow> ID \<Rightarrow> (exec_result \<times> 's) go" where
  "ValidatorVote_Execute A L W r mu v s ts actor txID =
    (let vTXID = Vote_TxID v
     in do {
       (timeOut, err) \<leftarrow> GetTimeOut mu s vTXID;
       case err of
         Some err \<Rightarrow> Some (result False 1000 (ErrBytes (ErrFmt err ''cant get timeout from storage'')) None, s)
       | None \<Rightarrow>
         if sint ts > sint timeOut
         then Some (result False 1000 (ErrBytes (ErrMessage ''timeout: can't vote now'')) None, s)
         else (case Bls_PublicKeyFromBytes L (Vote_PublicKey v) of
           Inl err \<Rightarrow> Some (result False 2000 (ErrBytes (ErrFmt err ''invalid public key'')) None, s)
         | Inr pubKey \<Rightarrow> (case Bls_SignatureFromBytes L (Vote_Signature v) of
           Inl err \<Rightarrow> Some (result False 2500 (ErrBytes (ErrFmt err ''cant get signature from bytes'')) None, s)
         | Inr sig \<Rightarrow>
           (let (f, _) = Rules_FetchCustom r '''';
                (validators, publicKeys) = f ()
            in if Vote_PublicKey v \<notin> publicKeys
               then Some (result False 3000 (ErrBytes (ErrMessage ''not a validator'')) None, s)
               else vote_loop A L W r mu v actor pubKey sig 0 validators s))) })"

section \<open>The message\<close>

lemma GetMessage_eq: "GetMessage i b = id_bytes i @ [of_bool b]"
  by (simp add: GetMessage_def Let_def copy_at_def make_bytes_def)

section \<open>One vote\<close>

text \<open>
  \<open>signed_vote\<close>: the signature verifies over the warp message of the vote. \<open>cast_vote\<close>: the
  state after a counted vote of weight \<open>w\<close> (\<open>scope\<close> are the keys that can be written). A vote
  for the proof adds the weight, and compares the sum with the total that the loop has added
  up, which is \<open>w\<close> itself; either way the vote is recorded for the actor.
\<close>

definition signed_vote ::
  "('k, 'g, 'sk) bls_lib \<Rightarrow> 'm warp_lib \<Rightarrow> ('bf, 'k) rules \<Rightarrow> validator_vote \<Rightarrow> 'k \<Rightarrow> 'g \<Rightarrow> bool" where
  "signed_vote L W r v pubKey sig \<longleftrightarrow>
    (case NewUnsignedMessage W (Rules_NetworkID r) (Rules_ChainID r) (GetMessage (Vote_TxID v) (Vote_Vote v)) of
       Inl _ \<Rightarrow> False | Inr m \<Rightarrow> Bls_Verify L (UnsignedMessage_Bytes W m) pubKey sig)"

definition add_weight :: "bytes set \<Rightarrow> ID \<Rightarrow> u64 \<Rightarrow> (bytes \<rightharpoonup> bytes) \<Rightarrow> (bytes \<rightharpoonup> bytes)" where
  "add_weight scope i w m = (case weight_of m i of
     None \<Rightarrow> m(WeightKey i \<mapsto> AppendUint64 w)
   | Some old \<Rightarrow> (if old + w > w \<and> StatusKey i \<in> scope then m(StatusKey i \<mapsto> AppendUint16 1) else m)
       (WeightKey i \<mapsto> AppendUint64 (old + w)))"

definition cast_vote :: "bytes set \<Rightarrow> validator_vote \<Rightarrow> address \<Rightarrow> u64 \<Rightarrow> (bytes \<rightharpoonup> bytes) \<Rightarrow> (bytes \<rightharpoonup> bytes)" where
  "cast_vote scope v actor w m =
    (if Vote_Vote v then add_weight scope (Vote_TxID v) w m else m)
      (VoteKey (Vote_TxID v) actor \<mapsto> AppendUint16 1)"

lemma wf_verify_cast_vote [simp]: "wf_verify m \<Longrightarrow> wf_verify (cast_vote scope v actor w m)"
  by (auto simp: cast_vote_def add_weight_def split: option.split)

lemma has_voted_cast_vote [simp]:
  "has_voted (cast_vote scope v actor w m) i a \<longleftrightarrow> has_voted m i a \<or> (i = Vote_TxID v \<and> a = actor)"
  by (auto simp: cast_vote_def add_weight_def split: option.split)

lemma deadline_cast_vote [simp]: "deadline (cast_vote scope v actor w m) = deadline m"
  by (auto simp: cast_vote_def add_weight_def split: option.split)

lemma weight_cast_vote [simp]:
  "weight_of (cast_vote scope v actor w m) =
    (if Vote_Vote v then (weight_of m)(Vote_TxID v \<mapsto>
       (case weight_of m (Vote_TxID v) of None \<Rightarrow> w | Some old \<Rightarrow> old + w)) else weight_of m)"
  by (auto simp: cast_vote_def add_weight_def split: option.split)

lemma status_cast_vote:
  "StatusKey (Vote_TxID v) \<notin> scope \<Longrightarrow> status_set (cast_vote scope v actor w m) = status_set m"
  by (auto simp: cast_vote_def add_weight_def fun_eq_iff split: option.split)

lemma vote_loop_no_match:
  "\<forall>vdr \<in> set vdrs. Validator_PublicKey vdr \<noteq> pk \<Longrightarrow>
    vote_loop A L W r mu v actor pk sig tot vdrs s =
      Some (result True ValidatorVoteComputeUnits NoOutput None, s)"
  by (induction vdrs) simp_all

lemma vote_loop_bounded:
  "vote_loop A L W r mu v actor pk sig tot vdrs s = Some (res, s') \<Longrightarrow>
    units res \<le> ValidatorVoteComputeUnits \<and> execErr res = None"
  by (induction vdrs arbitrary: tot s)
    (auto simp: ValidatorVoteComputeUnits_def Let_def bind_eq_Some_conv split_beta
      split: if_splits sum.splits option.splits)

abbreviation (input) matching :: "'k \<Rightarrow> 'k validator list \<Rightarrow> 'k validator list" where
  "matching pk vdrs \<equiv> [vdr \<leftarrow> vdrs. Validator_PublicKey vdr = pk]"

context state_view
begin

lemma UpdateWeight_eval:
  assumes "WeightKey i \<in> scope" "wf_verify (kv s)"
  obtains s' where "UpdateWeight M s i w w = Some (None, s')" "kv s' = add_weight scope i w (kv s)"
proof (cases "weight_of (kv s) i")
  case None
  then show thesis
    by (rule_tac UpdateWeight_first [OF assms(1) None, of w w]) (auto simp: add_weight_def intro: that)
next
  case (Some old)
  then show thesis
    by (rule_tac UpdateWeight_next [OF assms Some, of w w]) (auto simp: add_weight_def intro: that)
qed

text \<open>Once the actor has voted, a matching validator ends the loop with a failure.\<close>

lemma vote_loop_voted:
  assumes "VoteKey (Vote_TxID v) actor \<in> scope" "wf_verify (kv s)" "has_voted (kv s) (Vote_TxID v) actor"
  shows "\<exists>res. vote_loop A L W r M v actor pk sig tot vdrs s = Some (res, s) \<and>
    (success res \<longleftrightarrow> matching pk vdrs = [])"
proof (induction vdrs arbitrary: tot)
  case (Cons vdr vdrs)
  then show ?case
    by (auto simp: GetVote_eval [OF assms(1,2)] assms(3) Let_def split: sum.split option.split)
qed simp

lemma vote_loop_eval:
  assumes "checked_math A" "wf_verify (kv s)"
    and "VoteKey (Vote_TxID v) actor \<in> scope" "WeightKey (Vote_TxID v) \<in> scope"
  shows "\<exists>res s'. vote_loop A L W r M v actor pk sig 0 vdrs s = Some (res, s') \<and> wf_verify (kv s') \<and>
    (success res \<longleftrightarrow> matching pk vdrs = [] \<or> ((\<exists>vdr. matching pk vdrs = [vdr]) \<and>
      signed_vote L W r v pk sig \<and> \<not> has_voted (kv s) (Vote_TxID v) actor)) \<and>
    (success res \<and> matching pk vdrs = [] \<longrightarrow> s' = s) \<and>
    (\<forall>vdr. success res \<and> matching pk vdrs = [vdr] \<longrightarrow>
      kv s' = cast_vote scope v actor (Validator_Weight vdr) (kv s))"
proof (induction vdrs)
  case Nil
  then show ?case using assms(2) by simp
next
  case (Cons vdr vdrs)
  show ?case
  proof (cases "Validator_PublicKey vdr = pk")
    case False
    have skip: "vote_loop A L W r M v actor pk sig 0 (vdr # vdrs) s = vote_loop A L W r M v actor pk sig 0 vdrs s"
      "matching pk (vdr # vdrs) = matching pk vdrs"
      using False by simp_all
    show ?thesis
      using Cons.IH by (simp only: skip)
  next
    case True
    let ?w = "Validator_Weight vdr"
    have add: "Add64 A 0 ?w = Inr ?w"
      using checked_math.Add64_ok [OF assms(1), of 0 ?w] unat_u64_less [of ?w] by simp
    note vote = GetVote_eval [OF assms(3,2)]
    show ?thesis
    proof (cases "signed_vote L W r v pk sig \<and> \<not> has_voted (kv s) (Vote_TxID v) actor")
      case False
      have "\<exists>res. vote_loop A L W r M v actor pk sig 0 (vdr # vdrs) s = Some (res, s) \<and> \<not> success res"
        using False True add vote
        by (auto simp: signed_vote_def BLS_Verify_def Let_def split: sum.splits)
      then obtain res where "vote_loop A L W r M v actor pk sig 0 (vdr # vdrs) s = Some (res, s)" "\<not> success res"
        by blast
      with False True assms(2) show ?thesis by auto
    next
      case ok: True
      obtain m where m: "NewUnsignedMessage W (Rules_NetworkID r) (Rules_ChainID r)
          (GetMessage (Vote_TxID v) (Vote_Vote v)) = Inr m" "Bls_Verify L (UnsignedMessage_Bytes W m) pk sig"
        using ok by (auto simp: signed_vote_def split: sum.splits)
      obtain s1 where s1: "if Vote_Vote v then UpdateWeight M s (Vote_TxID v) ?w ?w = Some (None, s1) else s1 = s"
        "kv s1 = (if Vote_Vote v then add_weight scope (Vote_TxID v) ?w (kv s) else kv s)"
        by (rule UpdateWeight_eval [OF assms(4,2), of ?w]) (cases "Vote_Vote v"; simp)
      obtain s2 where s2: "StoreVote M s1 (Vote_TxID v) actor = (None, s2)"
        "kv s2 = (kv s1)(VoteKey (Vote_TxID v) actor \<mapsto> AppendUint16 1)"
        by (rule StoreVote_eval [OF assms(3)])
      have cast: "kv s2 = cast_vote scope v actor ?w (kv s)"
        by (simp add: s2(2) s1(2) cast_vote_def)
      then have s2': "wf_verify (kv s2)" "has_voted (kv s2) (Vote_TxID v) actor"
        using assms(2) by simp_all
      obtain res where res: "vote_loop A L W r M v actor pk sig ?w vdrs s2 = Some (res, s2)"
        "success res \<longleftrightarrow> matching pk vdrs = []"
        using vote_loop_voted [OF assms(3) s2', of A L W r pk sig ?w vdrs] by blast
      have "vote_loop A L W r M v actor pk sig 0 (vdr # vdrs) s = Some (res, s2)"
        using s1(1) True ok res(1) m s2(1)
        by (cases "Vote_Vote v") (simp_all add: add vote BLS_Verify_def Let_def)
      with res(2) ok True cast \<open>wf_verify (kv s2)\<close> show ?thesis by auto
    qed
  qed
qed

end

section \<open>The specification of a vote\<close>

text \<open>
  A vote is rejected, accepted without effect, or counted with a weight. \<open>vote_outcome\<close> says
  which, from the records of the state and the list of validators.
\<close>

datatype vote_outcome = Rejected | Ignored | Counted u64

definition vote_outcome ::
  "('k, 'g, 'sk) bls_lib \<Rightarrow> 'm warp_lib \<Rightarrow> ('bf, 'k) rules \<Rightarrow> validator_vote \<Rightarrow> i64 \<Rightarrow> address \<Rightarrow>
    (bytes \<rightharpoonup> bytes) \<Rightarrow> vote_outcome" where
  "vote_outcome L W r v ts actor m =
    (case deadline m (Vote_TxID v) of None \<Rightarrow> Rejected
     | Some d \<Rightarrow> if sint d < sint ts then Rejected else
       (case (Bls_PublicKeyFromBytes L (Vote_PublicKey v), Bls_SignatureFromBytes L (Vote_Signature v)) of
          (Inr pk, Inr sig) \<Rightarrow>
            if Vote_PublicKey v \<notin> snd (Rules_f r ()) then Rejected else
            (case matching pk (fst (Rules_f r ())) of
               [] \<Rightarrow> Ignored
             | [vdr] \<Rightarrow> if signed_vote L W r v pk sig \<and> \<not> has_voted m (Vote_TxID v) actor
                 then Counted (Validator_Weight vdr) else Rejected
             | _ \<Rightarrow> Rejected)
        | _ \<Rightarrow> Rejected))"

definition vote_keys :: "validator_vote \<Rightarrow> address \<Rightarrow> state_keys" where
  "vote_keys v actor = {TimeOutKey (Vote_TxID v), WeightKey (Vote_TxID v), VoteKey (Vote_TxID v) actor}"

lemma ValidatorVote_bounded:
  "ValidatorVote_Execute A L W r M v s ts actor tx = Some (res, s') \<Longrightarrow>
    units res \<le> ValidatorVote_MaxComputeUnits \<and> execErr res = None"
  by (auto simp: ValidatorVote_Execute_def ValidatorVote_MaxComputeUnits_def bind_eq_Some_conv Let_def
      split_beta unit_defs split: if_splits option.splits sum.splits
      dest: vote_loop_bounded [unfolded unit_defs])

context state_view
begin

lemma ValidatorVote_eval:
  assumes "checked_math A" "wf_verify (kv s)" "vote_keys v actor \<subseteq> scope"
  shows "\<exists>res s'. ValidatorVote_Execute A L W r M v s ts actor tx = Some (res, s') \<and> wf_verify (kv s') \<and>
    (case vote_outcome L W r v ts actor (kv s) of
       Rejected \<Rightarrow> \<not> success res
     | Ignored \<Rightarrow> success res \<and> s' = s
     | Counted w \<Rightarrow> success res \<and> kv s' = cast_vote scope v actor w (kv s))"
proof -
  have keys: "TimeOutKey (Vote_TxID v) \<in> scope" "VoteKey (Vote_TxID v) actor \<in> scope"
    "WeightKey (Vote_TxID v) \<in> scope"
    using assms(3) by (auto simp: vote_keys_def)
  note get = GetTimeOut_eval [OF keys(1) assms(2)]
  show ?thesis
  proof (cases "\<exists>d pk sig. deadline (kv s) (Vote_TxID v) = Some d \<and> \<not> sint d < sint ts \<and>
      Bls_PublicKeyFromBytes L (Vote_PublicKey v) = Inr pk \<and>
      Bls_SignatureFromBytes L (Vote_Signature v) = Inr sig \<and> Vote_PublicKey v \<in> snd (Rules_f r ())")
    case False
    then have "\<exists>res. ValidatorVote_Execute A L W r M v s ts actor tx = Some (res, s) \<and> \<not> success res"
      by (auto simp: ValidatorVote_Execute_def get Rules_FetchCustom_def split_beta
          split: option.split sum.split)
    moreover have "vote_outcome L W r v ts actor (kv s) = Rejected"
      using False by (auto simp: vote_outcome_def split: option.split sum.split)
    ultimately show ?thesis
      using assms(2) by auto
  next
    case True
    then obtain d pk sig where ok: "deadline (kv s) (Vote_TxID v) = Some d" "\<not> sint d < sint ts"
      "Bls_PublicKeyFromBytes L (Vote_PublicKey v) = Inr pk"
      "Bls_SignatureFromBytes L (Vote_Signature v) = Inr sig" "Vote_PublicKey v \<in> snd (Rules_f r ())"
      by blast
    have run: "ValidatorVote_Execute A L W r M v s ts actor tx =
        vote_loop A L W r M v actor pk sig 0 (fst (Rules_f r ())) s"
      using ok by (simp add: ValidatorVote_Execute_def get Rules_FetchCustom_def split_beta)
    have outcome: "vote_outcome L W r v ts actor (kv s) = (case matching pk (fst (Rules_f r ())) of
        [] \<Rightarrow> Ignored
      | [vdr] \<Rightarrow> if signed_vote L W r v pk sig \<and> \<not> has_voted (kv s) (Vote_TxID v) actor
          then Counted (Validator_Weight vdr) else Rejected
      | _ \<Rightarrow> Rejected)"
      using ok by (simp add: vote_outcome_def)
    obtain res s' where "vote_loop A L W r M v actor pk sig 0 (fst (Rules_f r ())) s = Some (res, s')"
      "wf_verify (kv s')" and spec:
      "success res \<longleftrightarrow> matching pk (fst (Rules_f r ())) = [] \<or>
        ((\<exists>vdr. matching pk (fst (Rules_f r ())) = [vdr]) \<and>
          signed_vote L W r v pk sig \<and> \<not> has_voted (kv s) (Vote_TxID v) actor)"
      "success res \<and> matching pk (fst (Rules_f r ())) = [] \<longrightarrow> s' = s"
      "\<forall>vdr. success res \<and> matching pk (fst (Rules_f r ())) = [vdr] \<longrightarrow>
        kv s' = cast_vote scope v actor (Validator_Weight vdr) (kv s)"
      using vote_loop_eval [OF assms(1,2) keys(2,3), of L W r pk sig "fst (Rules_f r ())"] by blast
    moreover from spec have "case vote_outcome L W r v ts actor (kv s) of
        Rejected \<Rightarrow> \<not> success res | Ignored \<Rightarrow> success res \<and> s' = s
      | Counted w \<Rightarrow> success res \<and> kv s' = cast_vote scope v actor w (kv s)"
      unfolding outcome by (auto split: list.split)
    ultimately show ?thesis
      using run by auto
  qed
qed

end

section \<open>A history of votes\<close>

text \<open>
  The votes of a chain, one after the other, each with its rules (the validators change),
  time, actor and transaction. A transaction is executed over the view of the keys it
  declares, and its changes are discarded when it fails. Its own identifier is a hash over
  its contents, so it is not the identifier it votes on. \<open>h\<close> lists the votes that counted.
\<close>

record counted_vote =
  Counted_tx :: ID
  Counted_actor :: address
  Counted_yes :: bool
  Counted_weight :: u64

inductive vote_history ::
  "math64 \<Rightarrow> ('k, 'g, 'sk) bls_lib \<Rightarrow> 'm warp_lib \<Rightarrow> (bytes set \<Rightarrow> 's mutable) \<Rightarrow> ('s \<Rightarrow> (bytes \<rightharpoonup> bytes)) \<Rightarrow>
    's \<Rightarrow> counted_vote list \<Rightarrow> 's \<Rightarrow> bool"
  for A L W M kv s0 where
  start: "vote_history A L W M kv s0 [] s0"
| vote: "vote_history A L W M kv s0
      (case vote_outcome L W (r :: (nat, 'k) rules) v ts actor (kv s) of
         Counted w \<Rightarrow> h @ [\<lparr>Counted_tx = Vote_TxID v, Counted_actor = actor,
           Counted_yes = Vote_Vote v, Counted_weight = w\<rparr>]
       | _ \<Rightarrow> h)
      (if success res then s' else s)"
  if "vote_history A L W M kv s0 h s" "tx \<noteq> Vote_TxID v"
    "ValidatorVote_Execute A L W r (M (ValidatorVote_StateKeys v actor tx)) v s ts actor tx = Some (res, s')"

definition yes_weights :: "ID \<Rightarrow> counted_vote list \<Rightarrow> u64 list" where
  "yes_weights i h = [Counted_weight c. c \<leftarrow> h, Counted_tx c = i \<and> Counted_yes c]"

lemma yes_weights_simps [simp]:
  "yes_weights i [] = []"
  "yes_weights i (h @ [c]) = yes_weights i h @ (if Counted_tx c = i \<and> Counted_yes c then [Counted_weight c] else [])"
  by (simp_all add: yes_weights_def)

lemma vote_history_step:
  assumes "\<And>keys. state_view (M keys) kv keys" "checked_math A" "wf_verify (kv s)" "tx \<noteq> Vote_TxID v"
    and "ValidatorVote_Execute A L W r (M (ValidatorVote_StateKeys v actor tx)) v s ts actor tx = Some (res, s')"
  shows "wf_verify (kv (if success res then s' else s))"
    and "kv (if success res then s' else s) = (case vote_outcome L W r v ts actor (kv s) of
      Counted w \<Rightarrow> cast_vote (ValidatorVote_StateKeys v actor tx) v actor w (kv s) | _ \<Rightarrow> kv s)"
    and "StatusKey (Vote_TxID v) \<notin> ValidatorVote_StateKeys v actor tx"
proof -
  have "vote_keys v actor \<subseteq> ValidatorVote_StateKeys v actor tx"
    by (auto simp: vote_keys_def ValidatorVote_StateKeys_def)
  note eval = state_view.ValidatorVote_eval [OF assms(1,2,3) this, of L W r ts tx]
  show "wf_verify (kv (if success res then s' else s))"
    using eval assms(3,5) by auto
  show "kv (if success res then s' else s) = (case vote_outcome L W r v ts actor (kv s) of
      Counted w \<Rightarrow> cast_vote (ValidatorVote_StateKeys v actor tx) v actor w (kv s) | _ \<Rightarrow> kv s)"
    using eval assms(5) by (auto split: vote_outcome.splits)
  show "StatusKey (Vote_TxID v) \<notin> ValidatorVote_StateKeys v actor tx"
    using assms(4) by (simp add: ValidatorVote_StateKeys_def)
qed

lemma vote_outcome_counted:
  "vote_outcome L W r v ts actor m = Counted w \<Longrightarrow> \<not> has_voted m (Vote_TxID v) actor"
  by (rule notI) (simp add: vote_outcome_def split: option.splits if_splits sum.splits list.splits)

lemma vote_history_facts:
  assumes "vote_history A L W M kv s0 h s" "\<And>keys. state_view (M keys) kv keys" "checked_math A"
    and "wf_verify (kv s0)" "\<And>i a. \<not> has_voted (kv s0) i a"
  shows "wf_verify (kv s) \<and> distinct (map (\<lambda>c. (Counted_tx c, Counted_actor c)) h) \<and>
    (\<forall>i a. has_voted (kv s) i a \<longleftrightarrow> (i, a) \<in> set (map (\<lambda>c. (Counted_tx c, Counted_actor c)) h)) \<and>
    (\<forall>i. weight_of (kv s) i = (if yes_weights i h = [] then weight_of (kv s0) i
      else Some (amount_of (weight_of (kv s0) i) + sum_list (yes_weights i h)))) \<and>
    deadline (kv s) = deadline (kv s0) \<and> status_set (kv s) = status_set (kv s0)"
  using assms(1)
proof (induction rule: vote_history.induct)
  case start
  then show ?case using assms(4,5) by simp
next
  case (vote h s tx v r actor ts res s')
  note step = vote_history_step [OF assms(2,3) _ vote.hyps(2,3)]
  show ?case
  proof (cases "vote_outcome L W r v ts actor (kv s)")
    case (Counted w)
    then have new: "(Vote_TxID v, actor) \<notin> set (map (\<lambda>c. (Counted_tx c, Counted_actor c)) h)"
      using vote_outcome_counted [OF Counted] vote.IH by blast
    have kv: "kv (if success res then s' else s) =
        cast_vote (ValidatorVote_StateKeys v actor tx) v actor w (kv s)"
      using step(2) vote.IH Counted by simp
    show ?thesis
      unfolding kv using vote.IH new step(3) Counted
      by (auto simp: status_cast_vote amount_of_def add.assoc [symmetric] split: option.splits)
  qed (use vote.IH step in auto)
qed

section \<open>The claims about votes\<close>

text \<open>
  C10: a vote refines its specification: it never panics, costs at most 5000 units, is
  rejected without being counted, accepted without effect, or counted, exactly as
  \<open>vote_outcome\<close> says. A counted vote adds the validator's weight when it is a yes, and is
  recorded for its actor; the sum is compared with that same weight, so a second yes sets the
  status (where the status key can be written) whatever the total weight of the validators is.
\<close>

theorem ValidatorVote_refines:
  assumes "state_view M kv scope" "checked_math A" "wf_verify (kv s)" "vote_keys v actor \<subseteq> scope"
  shows "\<exists>res s'. ValidatorVote_Execute A L W r M v s ts actor tx = Some (res, s') \<and>
    units res \<le> ValidatorVote_MaxComputeUnits \<and> wf_verify (kv s') \<and>
    (case vote_outcome L W r v ts actor (kv s) of
       Rejected \<Rightarrow> \<not> success res
     | Ignored \<Rightarrow> success res \<and> s' = s
     | Counted w \<Rightarrow> success res \<and> kv s' = cast_vote scope v actor w (kv s))"
proof -
  obtain res s' where "ValidatorVote_Execute A L W r M v s ts actor tx = Some (res, s')" "wf_verify (kv s')"
    "case vote_outcome L W r v ts actor (kv s) of Rejected \<Rightarrow> \<not> success res
     | Ignored \<Rightarrow> success res \<and> s' = s
     | Counted w \<Rightarrow> success res \<and> kv s' = cast_vote scope v actor w (kv s)"
    using state_view.ValidatorVote_eval [OF assms(1-4)] by blast
  then show ?thesis
    using ValidatorVote_bounded [of A L W r M v s ts actor tx res s']
    by (intro exI [of _ res] exI [of _ s']) simp
qed

text \<open>
  The example: a warp message is its bytes, one validator of weight 10 with key 5, whose
  reference is the one that parsing returns (place 0) or one of its own (place 1).
\<close>

definition ref_warp :: "bytes warp_lib" where
  "ref_warp = \<lparr>NewUnsignedMessage = (\<lambda>n c m. Inr m), UnsignedMessage_Bytes = (\<lambda>m. m)\<rparr>"

definition ref_vote :: "ID \<Rightarrow> bool \<Rightarrow> validator_vote" where
  "ref_vote i b = \<lparr>Vote_TxID = i, Vote_Vote = b,
    Vote_Signature = be_bytes 96 (5 + be_word (GetMessage i b) :: 768 word),
    Vote_PublicKey = be_bytes 48 (5 :: 384 word)\<rparr>"

definition ref_rules :: "nat \<Rightarrow> (nat, nat \<times> 384 word) rules" where
  "ref_rules place = Genesis_Rules (Default ref_merkledb) 0 1 2 (New [])
    (\<lambda>_. ([\<lparr>Validator_PublicKey = (place, 5), Validator_Weight = 10\<rparr>], {be_bytes 48 (5 :: 384 word)}))"

lemma ref_vote_outcome:
  assumes "deadline m i = Some 100" "sint ts \<le> 100"
  shows "vote_outcome ref_bls ref_warp (ref_rules place) (ref_vote i b) ts a m =
    (if place \<noteq> 0 then Ignored else if has_voted m i a then Rejected else Counted 10)"
proof -
  have "ucast (5 :: 384 word) = (5 :: 768 word)"
    by simp
  then show ?thesis
    using assms by (simp add: vote_outcome_def ref_bls_def ref_warp_def ref_vote_def ref_rules_def
        Genesis_Rules_def signed_vote_def not_less)
qed

text \<open>A state with an open window for transaction 7 until time 100.\<close>

definition open_window :: "bytes \<rightharpoonup> bytes" where
  "open_window = [TimeOutKey 7 \<mapsto> AppendUint64 100]"

lemma open_window_facts [simp]:
  "wf_verify open_window" "deadline open_window = [7 \<mapsto> 100]" "\<not> has_voted open_window i a"
  "weight_of open_window = Map.empty" "\<not> status_set open_window i"
proof -
  have "deadline Map.empty = Map.empty" "weight_of Map.empty = Map.empty" "\<not> has_voted Map.empty i a"
    "\<not> status_set Map.empty i"
    by (simp_all add: deadline_def weight_of_def has_voted_def status_set_def fun_eq_iff)
  then show "wf_verify open_window" "deadline open_window = [7 \<mapsto> 100]" "\<not> has_voted open_window i a"
    "weight_of open_window = Map.empty" "\<not> status_set open_window i"
    by (simp_all add: open_window_def)
qed

theorem ValidatorVote_refines_witness:
  "\<exists>res s'. ValidatorVote_Execute ref_math ref_bls ref_warp (ref_rules 0)
      (mem_view (vote_keys (ref_vote 7 True) 3)) (ref_vote 7 True) open_window 50 3 9 = Some (res, s') \<and>
    success res \<and> weight_of s' 7 = Some 10 \<and> has_voted s' 7 3"
  using ValidatorVote_refines [OF mem_view.state_view_axioms ref_math.checked_math_axioms,
      of open_window "ref_vote 7 True" 3 "vote_keys (ref_vote 7 True) 3" ref_bls ref_warp "ref_rules 0" 50 9]
    ref_vote_outcome [of open_window 7 50 0 True 3]
  by (auto simp: ref_vote_def)

text \<open>
  C11: the ledger of votes: over any history of votes that starts without votes, at most one
  vote per actor and transaction counts, the actors recorded as voters are exactly those of
  the counted votes, and the weight of a transaction is the sum (modulo 2^64) of the weights
  of its counted yes votes; the deadlines never move.
\<close>

theorem vote_ledger:
  assumes "vote_history A L W M kv s0 h s" "\<And>keys. state_view (M keys) kv keys" "checked_math A"
    and "wf_verify (kv s0)" "\<And>i a. \<not> has_voted (kv s0) i a"
  shows "distinct (map (\<lambda>c. (Counted_tx c, Counted_actor c)) h) \<and>
    (\<forall>i a. has_voted (kv s) i a \<longleftrightarrow> (i, a) \<in> set (map (\<lambda>c. (Counted_tx c, Counted_actor c)) h)) \<and>
    (\<forall>i. weight_of (kv s) i = (if yes_weights i h = [] then weight_of (kv s0) i
      else Some (amount_of (weight_of (kv s0) i) + sum_list (yes_weights i h)))) \<and>
    deadline (kv s) = deadline (kv s0)"
  using vote_history_facts [OF assms] by simp

lemma ref_vote_history:
  assumes "vote_history ref_math ref_bls ref_warp mem_view (\<lambda>s. s) open_window h s"
    and "deadline s 7 = Some 100" "wf_verify s" "\<not> has_voted s 7 a" "tx \<noteq> 7"
  shows "\<exists>s'. vote_history ref_math ref_bls ref_warp mem_view (\<lambda>s. s) open_window
      (h @ [\<lparr>Counted_tx = 7, Counted_actor = a, Counted_yes = True, Counted_weight = 10\<rparr>]) s' \<and>
    s' = cast_vote (ValidatorVote_StateKeys (ref_vote 7 True) a tx) (ref_vote 7 True) a 10 s"
proof -
  let ?v = "ref_vote 7 True"
  have v: "Vote_TxID ?v = 7" "Vote_Vote ?v"
    by (simp_all add: ref_vote_def)
  have out: "vote_outcome ref_bls ref_warp (ref_rules 0) ?v 50 a s = Counted 10"
    using ref_vote_outcome [of s 7 50 0 True a] assms(2,4) by simp
  have "vote_keys ?v a \<subseteq> ValidatorVote_StateKeys ?v a tx"
    by (auto simp: vote_keys_def ValidatorVote_StateKeys_def)
  from state_view.ValidatorVote_eval [where kv = "\<lambda>s. s", OF mem_view.state_view_axioms ref_math.checked_math_axioms assms(3) this,
      of ref_bls ref_warp "ref_rules 0" 50 tx]
  obtain res s' where run: "ValidatorVote_Execute ref_math ref_bls ref_warp (ref_rules 0)
      (mem_view (ValidatorVote_StateKeys ?v a tx)) ?v s 50 a tx = Some (res, s')"
      "success res" "s' = cast_vote (ValidatorVote_StateKeys ?v a tx) ?v a 10 s"
    by (auto simp: out)
  with vote_history.vote [OF assms(1) _ run(1)] assms(5) v show ?thesis
    by (auto simp: out)
qed

text \<open>Two actors vote with the key of the one validator: the weight is 20 of 10.\<close>

theorem vote_ledger_witness:
  "\<exists>h s. vote_history ref_math ref_bls ref_warp mem_view (\<lambda>s. s) open_window h s \<and>
    length h = 2 \<and> weight_of s 7 = Some 20 \<and> distinct (map (\<lambda>c. (Counted_tx c, Counted_actor c)) h)"
proof -
  let ?c = "\<lambda>a. \<lparr>Counted_tx = (7 :: ID), Counted_actor = a, Counted_yes = True, Counted_weight = 10 :: u64\<rparr>"
  obtain s1 where s1: "vote_history ref_math ref_bls ref_warp mem_view (\<lambda>s. s) open_window ([] @ [?c 1]) s1"
    "s1 = cast_vote (ValidatorVote_StateKeys (ref_vote 7 True) 1 8) (ref_vote 7 True) 1 10 open_window"
    using ref_vote_history [OF vote_history.start, of 1 8] by auto
  obtain s2 where s2: "vote_history ref_math ref_bls ref_warp mem_view (\<lambda>s. s) open_window (([] @ [?c 1]) @ [?c 2]) s2"
    using ref_vote_history [OF s1(1), of 2 9] by (auto simp: s1(2))
  from vote_ledger [OF s2 mem_view.state_view_axioms ref_math.checked_math_axioms]
  have "weight_of s2 7 = Some 20 \<and> distinct (map (\<lambda>c. (Counted_tx c, Counted_actor c)) [?c 1, ?c 2])"
    by (simp add: yes_weights_def)
  with s2 show ?thesis by (intro exI [of _ "[?c 1, ?c 2]"] exI [of _ s2]) simp
qed

text \<open>
  Votes never complete a verification. The action declares the status key of its own
  transaction instead of that of the transaction voted on, so the write of the status is
  refused: over any history of votes, whatever the weights, the status of every transaction
  stays as it was.
\<close>

theorem votes_never_set_status:
  assumes "vote_history A L W M kv s0 h s" "\<And>keys. state_view (M keys) kv keys" "checked_math A"
    and "wf_verify (kv s0)" "\<And>i a. \<not> has_voted (kv s0) i a"
  shows "status_set (kv s) = status_set (kv s0)"
  using vote_history_facts [OF assms] by simp

theorem votes_never_set_status_witness:
  "\<exists>h s. vote_history ref_math ref_bls ref_warp mem_view (\<lambda>s. s) open_window h s \<and>
    length h = 2 \<and> \<not> status_set s 7"
proof -
  let ?c = "\<lambda>a. \<lparr>Counted_tx = (7 :: ID), Counted_actor = a, Counted_yes = True, Counted_weight = 10 :: u64\<rparr>"
  obtain s1 where s1: "vote_history ref_math ref_bls ref_warp mem_view (\<lambda>s. s) open_window ([] @ [?c 1]) s1"
    "s1 = cast_vote (ValidatorVote_StateKeys (ref_vote 7 True) 1 8) (ref_vote 7 True) 1 10 open_window"
    using ref_vote_history [OF vote_history.start, of 1 8] by auto
  obtain s2 where s2: "vote_history ref_math ref_bls ref_warp mem_view (\<lambda>s. s) open_window (([] @ [?c 1]) @ [?c 2]) s2"
    using ref_vote_history [OF s1(1), of 2 9] by (auto simp: s1(2))
  from votes_never_set_status [OF s2 mem_view.state_view_axioms ref_math.checked_math_axioms]
  have "\<not> status_set s2 7" by simp
  with s2 show ?thesis by (intro exI [of _ "[?c 1, ?c 2]"] exI [of _ s2]) simp
qed

text \<open>
  C37: the guards of a vote, in the order of the code and with their units, each leaving the
  state as it was: no deadline stored, the deadline passed, a key or a signature that does not
  parse, a key that is not one of the validators'.
\<close>

theorem ValidatorVote_guards:
  assumes "state_view M kv scope" "wf_verify (kv s)" "vote_keys v actor \<subseteq> scope"
    and "\<not> (\<exists>d pk sig. deadline (kv s) (Vote_TxID v) = Some d \<and> sint ts \<le> sint d \<and>
      Bls_PublicKeyFromBytes L (Vote_PublicKey v) = Inr pk \<and>
      Bls_SignatureFromBytes L (Vote_Signature v) = Inr sig \<and> Vote_PublicKey v \<in> snd (Rules_f r ()))"
  shows "\<exists>res. ValidatorVote_Execute A L W r M v s ts actor tx = Some (res, s) \<and> \<not> success res \<and>
    units res = (case deadline (kv s) (Vote_TxID v) of None \<Rightarrow> 1000
      | Some d \<Rightarrow> if sint d < sint ts then 1000
        else if isl (Bls_PublicKeyFromBytes L (Vote_PublicKey v)) then 2000
        else if isl (Bls_SignatureFromBytes L (Vote_Signature v)) then 2500 else 3000)"
proof -
  have "TimeOutKey (Vote_TxID v) \<in> scope"
    using assms(3) by (simp add: vote_keys_def)
  note get = state_view.GetTimeOut_eval [OF assms(1) this assms(2)]
  show ?thesis
    using assms(4)
    by (auto simp: ValidatorVote_Execute_def get Rules_FetchCustom_def split_beta not_less
        split: option.split sum.split)
qed

text \<open>At time 101 the window is closed.\<close>

theorem ValidatorVote_guards_witness:
  "\<exists>res. ValidatorVote_Execute ref_math ref_bls ref_warp (ref_rules 0)
      (mem_view (vote_keys (ref_vote 7 True) 3)) (ref_vote 7 True) open_window 101 3 9 = Some (res, open_window) \<and>
    \<not> success res \<and> units res = 1000"
  using ValidatorVote_guards [OF mem_view.state_view_axioms, of open_window "ref_vote 7 True" 3
      "vote_keys (ref_vote 7 True) 3" 101 ref_bls "ref_rules 0" ref_math ref_warp 9]
  by (simp add: ref_vote_def)

text \<open>
  C38: comparing keys by reference makes every vote a no-op: when the key that is parsed from
  the vote is none of the references of the validator list (a parsed key is a new object),
  the vote is accepted, with the full units, and changes nothing, even with a forged
  signature.
\<close>

theorem fresh_key_votes_ignored:
  assumes "state_view M kv scope" "wf_verify (kv s)" "vote_keys v actor \<subseteq> scope"
    and "deadline (kv s) (Vote_TxID v) = Some d" "sint ts \<le> sint d"
    and "Bls_PublicKeyFromBytes L (Vote_PublicKey v) = Inr pk"
    and "Bls_SignatureFromBytes L (Vote_Signature v) = Inr sig" "Vote_PublicKey v \<in> snd (Rules_f r ())"
    and "\<forall>vdr \<in> set (fst (Rules_f r ())). Validator_PublicKey vdr \<noteq> pk"
  shows "ValidatorVote_Execute A L W r M v s ts actor tx =
    Some (result True ValidatorVoteComputeUnits NoOutput None, s)"
proof -
  have "TimeOutKey (Vote_TxID v) \<in> scope"
    using assms(3) by (simp add: vote_keys_def)
  note get = state_view.GetTimeOut_eval [OF assms(1) this assms(2)]
  show ?thesis
    using assms(4-8) vote_loop_no_match [OF assms(9)]
    by (simp add: ValidatorVote_Execute_def get Rules_FetchCustom_def split_beta)
qed

theorem fresh_key_votes_ignored_witness:
  "ValidatorVote_Execute ref_math ref_bls ref_warp (ref_rules 1)
      (mem_view (vote_keys (ref_vote 7 True) 3)) (ref_vote 7 True) open_window 50 3 9 =
    Some (result True ValidatorVoteComputeUnits NoOutput None, open_window)"
  by (rule fresh_key_votes_ignored [OF mem_view.state_view_axioms, where d = 100 and pk = "(0, 5)" and
        sig = "(0, 5 + be_word (GetMessage 7 True))"])
    (simp_all add: ref_vote_def ref_bls_def ref_rules_def Genesis_Rules_def)

text \<open>
  The message a validator signs determines the transaction and the vote, so a signature
  cannot be used for another transaction or for the opposite vote.
\<close>

theorem GetMessage_binds: "GetMessage i b = GetMessage j c \<longleftrightarrow> i = j \<and> b = c"
  by (auto simp: GetMessage_eq)

end
