(* ===== verification/Auth_Batch.thy ===== *)
theory Auth_Batch
  imports Auth
begin

text \<open>
  The batch verifier of \<open>auth/ed25519.go\<close> and the table of engines of \<open>auth/consts.go\<close>.
  hypersdk asks the engine for a verifier of \<open>count\<close> signatures, adds them one by one, runs
  the jobs it is handed and at the end those of \<open>Done\<close>. \<open>verifier_invariant\<close> is the
  invariant of the verifier; the claim is that the jobs accept exactly when every single
  signature verifies.
\<close>

section \<open>The verifier\<close>

text \<open>
  The batches of the package \<open>crypto/ed25519\<close>. A job is a function without arguments; it is
  represented by the error it returns, so a \<open>nil\<close> job is \<^const>\<open>None\<close> and one that accepts is
  \<open>Some None\<close>.
\<close>

type_synonym job = "error option"

record 'b batch_lib =
  NewBatch :: "int \<Rightarrow> 'b"
  Batch_Add :: "'b \<Rightarrow> bytes \<Rightarrow> bytes \<Rightarrow> bytes \<Rightarrow> 'b"
  VerifyAsync :: "'b \<Rightarrow> job"

datatype ('k, 'g) chain_auth =
    AuthED25519 ed25519
  | AuthSECP256R1 secp256r1
  | AuthBLS "('k, 'g) bls"

datatype auth_engine = ED25519AuthEngine

definition Engines :: "byte \<rightharpoonup> auth_engine" where
  "Engines = [ED25519ID \<mapsto> ED25519AuthEngine]"

record 'b ed25519_batch =
  batchSize :: int
  total :: int
  counter :: int
  totalCounter :: int
  batch :: "'b option"

definition GetBatchVerifier :: "'sk ed25519_lib \<Rightarrow> int \<Rightarrow> int \<Rightarrow> 'b ed25519_batch go" where
  "GetBatchVerifier L cores count =
    do { q \<leftarrow> int_div count cores;
         let bs = max q (Ed_MinBatchSize L);
         Some \<lparr>batchSize = bs, total = count, counter = 0, totalCounter = 0, batch = None\<rparr> }"

definition ED25519Batch_Add ::
  "'b batch_lib \<Rightarrow> 'b ed25519_batch \<Rightarrow> bytes \<Rightarrow> ('k, 'g) chain_auth \<Rightarrow> (job option \<times> 'b ed25519_batch) go"
where
  "ED25519Batch_Add BL b msg rauth =
    (case rauth of
       AuthED25519 auth \<Rightarrow>
         let bt = (case batch b of None \<Rightarrow> NewBatch BL (batchSize b) | Some bt \<Rightarrow> bt);
             bt = Batch_Add BL bt msg (ED25519_Signer auth) (ED25519_Signature auth);
             b = b\<lparr>batch := Some bt, counter := counter b + 1, totalCounter := totalCounter b + 1\<rparr>
         in if counter b = batchSize b
            then let last = bt;
                     b = b\<lparr>counter := 0\<rparr>;
                     b = (if totalCounter b < total b
                          then b\<lparr>batch := Some (NewBatch BL (batchSize b))\<rparr> else b)
                 in Some (Some (VerifyAsync BL last), b)
            else Some (None, b)
     | _ \<Rightarrow> None)"

definition ED25519Batch_Done :: "'b batch_lib \<Rightarrow> 'b ed25519_batch \<Rightarrow> job list" where
  "ED25519Batch_Done BL b = (case batch b of None \<Rightarrow> [] | Some bt \<Rightarrow> [VerifyAsync BL bt])"

section \<open>A whole batch\<close>

text \<open>The jobs the caller collects: those of the calls of \<open>Add\<close>, then those of \<open>Done\<close>.\<close>

fun add_all ::
  "'b batch_lib \<Rightarrow> 'b ed25519_batch \<Rightarrow> (bytes \<times> ed25519) list \<Rightarrow> (job list \<times> 'b ed25519_batch) go"
where
  "add_all BL b [] = Some ([], b)"
| "add_all BL b ((msg, auth) # xs) =
    do { (j, b) \<leftarrow> ED25519Batch_Add BL b msg (AuthED25519 auth :: (unit, unit) chain_auth);
         (js, b) \<leftarrow> add_all BL b xs;
         Some ((case j of None \<Rightarrow> [] | Some j \<Rightarrow> [j]) @ js, b) }"

definition verify_batch ::
  "'sk ed25519_lib \<Rightarrow> 'b batch_lib \<Rightarrow> int \<Rightarrow> (bytes \<times> ed25519) list \<Rightarrow> job list go" where
  "verify_batch L BL cores xs =
    do { b \<leftarrow> GetBatchVerifier L cores (int (length xs));
         (js, b) \<leftarrow> add_all BL b xs;
         Some (js @ ED25519Batch_Done BL b) }"

definition verified :: "'sk ed25519_lib \<Rightarrow> (bytes \<times> bytes \<times> bytes) list \<Rightarrow> bool" where
  "verified L ts \<longleftrightarrow> list_all (\<lambda>(m, k, s). Ed_Verify L m k s) ts"

lemma verified_simps [simp]:
  "verified L []" "verified L (xs @ ys) \<longleftrightarrow> verified L xs \<and> verified L ys"
  "verified L [(m, k, s)] \<longleftrightarrow> Ed_Verify L m k s"
  by (simp_all add: verified_def)

text \<open>
  The documented behaviour of a batch: it holds the triples added to it, and verifying it
  accepts exactly when each of them verifies on its own.
\<close>

locale batch_spec =
  fixes L :: "'sk ed25519_lib" and BL :: "'b batch_lib"
    and triples :: "'b \<Rightarrow> (bytes \<times> bytes \<times> bytes) list"
  assumes NewBatch_empty: "triples (NewBatch BL n) = []"
    and Batch_Add_triples: "triples (Batch_Add BL bt m k s) = triples bt @ [(m, k, s)]"
    and VerifyAsync_all: "VerifyAsync BL bt = None \<longleftrightarrow> verified L (triples bt)"
begin

abbreviation (input) triple :: "bytes \<times> ed25519 \<Rightarrow> bytes \<times> bytes \<times> bytes" where
  "triple x \<equiv> (fst x, ED25519_Signer (snd x), ED25519_Signature (snd x))"

text \<open>
  \<open>ts\<close> are the triples added so far and \<open>ok\<close> says that every job handed out accepts. Until
  the announced total is reached, the triples not yet handed out are those of the current
  batch; when it is reached with a full batch, the batch that was handed out last stays.
\<close>

definition verifier_invariant :: "'b ed25519_batch \<Rightarrow> bool \<Rightarrow> (bytes \<times> bytes \<times> bytes) list \<Rightarrow> bool" where
  "verifier_invariant b ok ts \<longleftrightarrow>
    totalCounter b = int (length ts) \<and> 0 \<le> counter b \<and> counter b < batchSize b \<and>
    (case batch b of None \<Rightarrow> ts = [] \<and> counter b = 0 \<and> ok
     | Some bt \<Rightarrow> (ok \<and> verified L (triples bt) \<longleftrightarrow> verified L ts) \<and>
         (total b \<le> int (length ts) \<or>
          (\<exists>us. ts = us @ triples bt \<and> (ok \<longleftrightarrow> verified L us) \<and> int (length (triples bt)) = counter b)))"

lemma Add_invariant:
  assumes inv: "verifier_invariant b ok ts" "int (length ts) < total b"
  obtains j b' where "ED25519Batch_Add BL b m (AuthED25519 d) = Some (j, b')" "total b' = total b"
    "verifier_invariant b' (ok \<and> (case j of None \<Rightarrow> True | Some e \<Rightarrow> e = None)) (ts @ [triple (m, d)])"
proof -
  define bt where "bt = (case batch b of None \<Rightarrow> NewBatch BL (batchSize b) | Some bt \<Rightarrow> bt)"
  define nb where "nb = Batch_Add BL bt m (ED25519_Signer d) (ED25519_Signature d)"
  have nb: "triples nb = triples bt @ [triple (m, d)]"
    by (simp add: nb_def Batch_Add_triples)
  obtain us where us: "ts = us @ triples bt" "ok \<longleftrightarrow> verified L us" "int (length (triples bt)) = counter b"
    using inv by (auto simp: verifier_invariant_def bt_def NewBatch_empty split: option.splits)
  let ?b = "b\<lparr>batch := Some nb, counter := counter b + 1, totalCounter := totalCounter b + 1\<rparr>"
  show thesis
  proof (cases "counter b + 1 = batchSize b")
    case False
    then have "ED25519Batch_Add BL b m (AuthED25519 d) = Some (None, ?b)"
      by (simp add: ED25519Batch_Add_def Let_def bt_def [symmetric] nb_def [symmetric])
    moreover have "verifier_invariant ?b ok (ts @ [triple (m, d)])"
      using inv(1) us nb False by (auto simp: verifier_invariant_def)
    ultimately show thesis by (rule_tac that [of None ?b]) simp_all
  next
    case True
    define b' where "b' = (if totalCounter b + 1 < total b
      then ?b\<lparr>counter := 0, batch := Some (NewBatch BL (batchSize b))\<rparr> else ?b\<lparr>counter := 0\<rparr>)"
    have "ED25519Batch_Add BL b m (AuthED25519 d) = Some (Some (VerifyAsync BL nb), b')"
      using True by (simp add: ED25519Batch_Add_def Let_def bt_def [symmetric] nb_def [symmetric] b'_def)
    moreover have "verifier_invariant b' (ok \<and> VerifyAsync BL nb = None) (ts @ [triple (m, d)])"
      using inv(1) us nb True
      by (auto simp: verifier_invariant_def VerifyAsync_all b'_def NewBatch_empty)
    ultimately show thesis
      by (rule_tac that [of "Some (VerifyAsync BL nb)" b']) (simp_all add: b'_def)
  qed
qed

lemma add_all_invariant:
  assumes "verifier_invariant b ok ts" "int (length ts + length xs) \<le> total b"
  obtains js b' where "add_all BL b xs = Some (js, b')" "total b' = total b"
    "verifier_invariant b' (ok \<and> (\<forall>j \<in> set js. j = None)) (ts @ map triple xs)"
  using assms
proof (induction xs arbitrary: b ok ts thesis)
  case Nil
  from Nil.prems(1) [of "[]" b] Nil.prems(2) show ?case by simp
next
  case (Cons x xs)
  obtain m d where x: "x = (m, d)" by (cases x)
  have "int (length ts) < total b"
    using Cons.prems(3) by simp
  then obtain j b1 where j: "ED25519Batch_Add BL b m (AuthED25519 d :: (unit, unit) chain_auth) = Some (j, b1)"
      "total b1 = total b"
      "verifier_invariant b1 (ok \<and> (case j of None \<Rightarrow> True | Some e \<Rightarrow> e = None)) (ts @ [triple (m, d)])"
    by (rule Add_invariant [OF Cons.prems(2)])
  have "int (length (ts @ [triple (m, d)]) + length xs) \<le> total b1"
    using Cons.prems(3) j(2) by simp
  then obtain js b2 where js: "add_all BL b1 xs = Some (js, b2)" "total b2 = total b1"
      "verifier_invariant b2 ((ok \<and> (case j of None \<Rightarrow> True | Some e \<Rightarrow> e = None)) \<and> (\<forall>j \<in> set js. j = None))
        ((ts @ [triple (m, d)]) @ map triple xs)"
    using Cons.IH [OF _ j(3)] by blast
  show ?case
    by (rule Cons.prems(1) [of "(case j of None \<Rightarrow> [] | Some j \<Rightarrow> [j]) @ js" b2])
      (use x j js in \<open>auto split: option.splits\<close>)
qed

lemma verify_batch_accepts:
  assumes "0 < cores" "0 < Ed_MinBatchSize L"
  shows "\<exists>js. verify_batch L BL cores xs = Some js \<and>
    ((\<forall>j \<in> set js. j = None) \<longleftrightarrow> (\<forall>(m, d) \<in> set xs. ED25519_Verify L d m = None))"
proof -
  obtain q where q: "int_div (int (length xs)) cores = Some q"
    using int_div_some [of cores] assms(1) by auto
  define b where "b = \<lparr>batchSize = max q (Ed_MinBatchSize L), total = int (length xs), counter = 0,
    totalCounter = 0, batch = (None :: 'b option)\<rparr>"
  have b: "GetBatchVerifier L cores (int (length xs)) = Some b"
    by (simp add: GetBatchVerifier_def q b_def)
  have "verifier_invariant b True []" "int (length ([] :: (bytes \<times> bytes \<times> bytes) list) + length xs) \<le> total b"
    using assms(2) by (auto simp: verifier_invariant_def b_def)
  then obtain js b' where js: "add_all BL b xs = Some (js, b')" "total b' = total b"
      "verifier_invariant b' (True \<and> (\<forall>j \<in> set js. j = None)) ([] @ map triple xs)"
    by (rule add_all_invariant)
  have "(\<forall>j \<in> set (js @ ED25519Batch_Done BL b'). j = None) \<longleftrightarrow> verified L (map triple xs)"
    using js(3) by (auto simp: verifier_invariant_def ED25519Batch_Done_def VerifyAsync_all split: option.splits)
  also have "\<dots> \<longleftrightarrow> (\<forall>(m, d) \<in> set xs. ED25519_Verify L d m = None)"
    by (auto simp: ED25519_Verify_def verified_def list_all_iff)
  finally show ?thesis
    by (simp add: verify_batch_def b js(1))
qed

end

section \<open>A reference batch\<close>

definition ref_batch_lib :: "'sk ed25519_lib \<Rightarrow> (bytes \<times> bytes \<times> bytes) list batch_lib" where
  "ref_batch_lib L =
    \<lparr>NewBatch = (\<lambda>n. []),
     Batch_Add = (\<lambda>bt m k s. bt @ [(m, k, s)]),
     VerifyAsync = (\<lambda>bt. if verified L bt then None else Some ErrInvalidSignature)\<rparr>"

interpretation ref_batch: batch_spec L "ref_batch_lib L" "\<lambda>bt. bt" for L
  by unfold_locales (simp_all add: ref_batch_lib_def)

section \<open>The claims about batches\<close>

text \<open>
  C32: batch verification is sound and complete: for any number of signatures and of cores
  the verifier does not panic, and the jobs it hands out all accept exactly when each
  signature verifies on its own.
\<close>

theorem batch_sound_complete:
  assumes "batch_spec L BL triples" "0 < cores" "0 < Ed_MinBatchSize L"
  shows "\<exists>js. verify_batch L BL cores xs = Some js \<and>
    ((\<forall>j \<in> set js. j = None) \<longleftrightarrow> (\<forall>(m, d) \<in> set xs. ED25519_Verify L d m = None))"
  by (rule batch_spec.verify_batch_accepts [OF assms])

text \<open>Three signatures in batches of two, the last of them forged.\<close>

theorem batch_sound_complete_witness:
  "\<exists>js. verify_batch ref_ed25519 (ref_batch_lib ref_ed25519) 4
      [([1], \<lparr>ED25519_Signer = [5], ED25519_Signature = replicate 64 6, ED25519_addr = 0\<rparr>),
       ([2], \<lparr>ED25519_Signer = [5], ED25519_Signature = replicate 64 7, ED25519_addr = 0\<rparr>),
       ([3], \<lparr>ED25519_Signer = [5], ED25519_Signature = replicate 64 9, ED25519_addr = 0\<rparr>)] = Some js \<and>
    \<not> (\<forall>j \<in> set js. j = None)"
  using batch_sound_complete [OF ref_batch.batch_spec_axioms, of 4 ref_ed25519
      "[([1], \<lparr>ED25519_Signer = [5], ED25519_Signature = replicate 64 6, ED25519_addr = 0\<rparr>),
       ([2], \<lparr>ED25519_Signer = [5], ED25519_Signature = replicate 64 7, ED25519_addr = 0\<rparr>),
       ([3], \<lparr>ED25519_Signer = [5], ED25519_Signature = replicate 64 9, ED25519_addr = 0\<rparr>)]"]
  by (simp add: ref_ed25519_def ED25519_Verify_def)

lemma add_all_jobs:
  assumes "add_all BL b xs = Some (js, b')" "0 \<le> counter b" "counter b < batchSize b"
  shows "int (length js) * batchSize b + counter b' = counter b + int (length xs) \<and>
    0 \<le> counter b' \<and> counter b' < batchSize b \<and> (batch b' = None \<longleftrightarrow> xs = [] \<and> batch b = None)"
  using assms
proof (induction xs arbitrary: b js)
  case (Cons x xs)
  obtain m d where x: "x = (m, d)" by (cases x)
  obtain j b1 ls where j: "ED25519Batch_Add BL b m (AuthED25519 d :: (unit, unit) chain_auth) = Some (j, b1)"
    and ls: "add_all BL b1 xs = Some (ls, b')"
    and js: "length js = (case j of None \<Rightarrow> 0 | Some _ \<Rightarrow> 1) + length ls"
    using Cons.prems(1) unfolding x
    by (auto simp: bind_eq_Some_conv split: option.splits)
  have b1: "batchSize b1 = batchSize b" "batch b1 \<noteq> None" "0 \<le> counter b1" "counter b1 < batchSize b"
    "counter b1 = counter b + 1 - (case j of None \<Rightarrow> 0 | Some _ \<Rightarrow> batchSize b)"
    using j Cons.prems(2,3) by (auto simp: ED25519Batch_Add_def Let_def split: if_splits)
  have "int (length ls) * batchSize b + counter b' = counter b1 + int (length xs) \<and>
      0 \<le> counter b' \<and> counter b' < batchSize b \<and> batch b' \<noteq> None"
    using Cons.IH [OF ls] b1(1-4) by simp
  with b1(5) js show ?case
    by (cases j) (simp_all add: distrib_right)
qed simp

text \<open>
  The number of jobs for \<open>n\<close> signatures in batches of \<open>size\<close> is \<open>n div size + 1\<close>. When
  \<open>n\<close> is a multiple of \<open>size\<close> that is one more than the batches there are: \<open>Done\<close> hands
  out the last full batch, which the last \<open>Add\<close> has handed out already, a second time.
\<close>

theorem batch_jobs:
  fixes BL :: "'b batch_lib"
  assumes "0 < cores" "0 < Ed_MinBatchSize L" "xs \<noteq> []"
    and "verify_batch L BL cores xs = Some js"
  shows "int (length js) =
    int (length xs) div max (int (length xs) div cores) (Ed_MinBatchSize L) + 1"
proof -
  define b where "b = \<lparr>batchSize = max (int (length xs) div cores) (Ed_MinBatchSize L),
    total = int (length xs), counter = 0, totalCounter = 0,
    batch = (None :: 'b option)\<rparr>"
  have b: "counter b = 0" "0 < batchSize b" "batch b = None"
    "batchSize b = max (int (length xs) div cores) (Ed_MinBatchSize L)"
    using assms(2) by (simp_all add: b_def)
  have get: "GetBatchVerifier L cores (int (length xs)) = Some b"
    by (simp add: GetBatchVerifier_def int_div_pos assms(1) b_def)
  obtain ks b' where ks: "add_all BL b xs = Some (ks, b')" "js = ks @ ED25519Batch_Done BL b'"
    using assms(4) get by (auto simp: verify_batch_def bind_eq_Some_conv)
  have e: "int (length ks) * batchSize b + counter b' = int (length xs)" "0 \<le> counter b'"
    "counter b' < batchSize b" "batch b' \<noteq> None"
    using add_all_jobs [OF ks(1)] b assms(3) by auto
  have "int (length xs) div batchSize b = int (length ks)"
    using e(2,3) b(2) by (simp add: e(1) [symmetric] div_pos_pos_trivial)
  with e(4) ks(2) b(4) show ?thesis
    by (auto simp: ED25519Batch_Done_def)
qed

text \<open>Two signatures in batches of two: one batch, two jobs.\<close>

theorem batch_jobs_witness:
  "\<exists>js. verify_batch ref_ed25519 (ref_batch_lib ref_ed25519) 1
      [([], \<lparr>ED25519_Signer = [5], ED25519_Signature = [], ED25519_addr = 0\<rparr>),
       ([], \<lparr>ED25519_Signer = [5], ED25519_Signature = [], ED25519_addr = 0\<rparr>)] = Some js \<and> length js = 2"
proof -
  let ?xs = "[([], \<lparr>ED25519_Signer = [5], ED25519_Signature = [], ED25519_addr = 0\<rparr>),
       ([], \<lparr>ED25519_Signer = [5], ED25519_Signature = [], ED25519_addr = 0\<rparr>)] :: (bytes \<times> ed25519) list"
  obtain js where js: "verify_batch ref_ed25519 (ref_batch_lib ref_ed25519) 1 ?xs = Some js"
    using batch_spec.verify_batch_accepts [OF ref_batch.batch_spec_axioms, of 1 ref_ed25519 ?xs]
    by (auto simp: ref_ed25519_def)
  from batch_jobs [OF _ _ _ js] js show ?thesis
    by (simp add: ref_ed25519_def)
qed

end
