(* ===== verification/Registry.thy ===== *)
theory Registry
  imports Actions_Basic Actions_Proofs Actions_Vote Auth_Batch
begin

text \<open>
  \<open>registry/registry.go\<close>: which actions and which signature schemes the chain knows. The
  interface \<open>chain.Action\<close> is the datatype \<open>action\<close>, with one function per method that
  selects the method of the concrete type. On top of it stands the chain itself: a sequence
  of transactions, each executed over the keys it declares and discarded when it fails.
  hypersdk's type parser is a parameter with the contract \<open>type_parser_spec\<close>.
\<close>

section \<open>The interface of the actions\<close>

datatype action =
    ActionTransfer transfer
  | ActionRegister register
  | ActionRegisterImage register_image
  | ActionSP1 sp1
  | ActionRiscZero risc_zero
  | ActionMiden miden
  | ActionJolt jolt
  | ActionPLONKY2 plonky2
  | ActionValidatorVote validator_vote

fun Action_GetTypeID :: "action \<Rightarrow> byte" where
  "Action_GetTypeID (ActionTransfer a) = Transfer_GetTypeID"
| "Action_GetTypeID (ActionRegister a) = Register_GetTypeID"
| "Action_GetTypeID (ActionRegisterImage a) = RegisterImage_GetTypeID"
| "Action_GetTypeID (ActionSP1 a) = SP1_GetTypeID"
| "Action_GetTypeID (ActionRiscZero a) = RiscZero_GetTypeID"
| "Action_GetTypeID (ActionMiden a) = Miden_GetTypeID"
| "Action_GetTypeID (ActionJolt a) = Jolt_GetTypeID"
| "Action_GetTypeID (ActionPLONKY2 a) = PLONKY2_GetTypeID"
| "Action_GetTypeID (ActionValidatorVote a) = ValidatorVote_GetTypeID"

fun Action_StateKeys :: "action \<Rightarrow> address \<Rightarrow> ID \<Rightarrow> state_keys" where
  "Action_StateKeys (ActionTransfer a) actor txID = Transfer_StateKeys a actor txID"
| "Action_StateKeys (ActionRegister a) actor txID = Register_StateKeys a actor txID"
| "Action_StateKeys (ActionRegisterImage a) actor txID = RegisterImage_StateKeys a actor txID"
| "Action_StateKeys (ActionSP1 a) actor txID = SP1_StateKeys a actor txID"
| "Action_StateKeys (ActionRiscZero a) actor txID = RiscZero_StateKeys a actor txID"
| "Action_StateKeys (ActionMiden a) actor txID = Miden_StateKeys a actor txID"
| "Action_StateKeys (ActionJolt a) actor txID = Jolt_StateKeys a actor txID"
| "Action_StateKeys (ActionPLONKY2 a) actor txID = PLONKY2_StateKeys a actor txID"
| "Action_StateKeys (ActionValidatorVote a) actor txID = ValidatorVote_StateKeys a actor txID"

fun Action_MaxComputeUnits :: "action \<Rightarrow> u64" where
  "Action_MaxComputeUnits (ActionTransfer a) = Transfer_MaxComputeUnits"
| "Action_MaxComputeUnits (ActionRegister a) = Register_MaxComputeUnits"
| "Action_MaxComputeUnits (ActionRegisterImage a) = RegisterImage_MaxComputeUnits"
| "Action_MaxComputeUnits (ActionSP1 a) = SP1_MaxComputeUnits"
| "Action_MaxComputeUnits (ActionRiscZero a) = RiscZero_MaxComputeUnits"
| "Action_MaxComputeUnits (ActionMiden a) = Miden_MaxComputeUnits"
| "Action_MaxComputeUnits (ActionJolt a) = Jolt_MaxComputeUnits"
| "Action_MaxComputeUnits (ActionPLONKY2 a) = PLONKY2_MaxComputeUnits"
| "Action_MaxComputeUnits (ActionValidatorVote a) = ValidatorVote_MaxComputeUnits"

fun Action_Size :: "action \<Rightarrow> nat" where
  "Action_Size (ActionTransfer a) = Transfer_Size"
| "Action_Size (ActionRegister a) = Register_Size"
| "Action_Size (ActionRegisterImage a) = RegisterImage_Size a"
| "Action_Size (ActionSP1 a) = SP1_Size a"
| "Action_Size (ActionRiscZero a) = RiscZero_Size a"
| "Action_Size (ActionMiden a) = Miden_Size a"
| "Action_Size (ActionJolt a) = Jolt_Size a"
| "Action_Size (ActionPLONKY2 a) = PLONKY2_Size a"
| "Action_Size (ActionValidatorVote a) = ValidatorVote_Size a"

fun Action_Marshal :: "'p packer \<Rightarrow> action \<Rightarrow> 'p \<Rightarrow> 'p" where
  "Action_Marshal P (ActionTransfer a) = Transfer_Marshal P a"
| "Action_Marshal P (ActionRegister a) = Register_Marshal P a"
| "Action_Marshal P (ActionRegisterImage a) = RegisterImage_Marshal P a"
| "Action_Marshal P (ActionSP1 a) = SP1_Marshal P a"
| "Action_Marshal P (ActionRiscZero a) = RiscZero_Marshal P a"
| "Action_Marshal P (ActionMiden a) = Miden_Marshal P a"
| "Action_Marshal P (ActionJolt a) = Jolt_Marshal P a"
| "Action_Marshal P (ActionPLONKY2 a) = PLONKY2_Marshal P a"
| "Action_Marshal P (ActionValidatorVote a) = ValidatorVote_Marshal P a"

fun Action_Execute :: "math64 \<Rightarrow> ('k, 'g, 'sk) bls_lib \<Rightarrow> 'm warp_lib \<Rightarrow> ('bf, 'k) rules \<Rightarrow> 's mutable \<Rightarrow>
    action \<Rightarrow> 's \<Rightarrow> i64 \<Rightarrow> address \<Rightarrow> ID \<Rightarrow> (exec_result \<times> 's) go" where
  "Action_Execute A L W r mu (ActionTransfer a) s ts actor txID = Transfer_Execute A mu a s ts actor txID"
| "Action_Execute A L W r mu (ActionRegister a) s ts actor txID = Register_Execute mu a s ts actor txID"
| "Action_Execute A L W r mu (ActionRegisterImage a) s ts actor txID = RegisterImage_Execute mu a s ts actor txID"
| "Action_Execute A L W r mu (ActionSP1 a) s ts actor txID = SP1_Execute mu a s ts actor txID"
| "Action_Execute A L W r mu (ActionRiscZero a) s ts actor txID = RiscZero_Execute mu a s ts actor txID"
| "Action_Execute A L W r mu (ActionMiden a) s ts actor txID = Miden_Execute mu a s ts actor txID"
| "Action_Execute A L W r mu (ActionJolt a) s ts actor txID = Jolt_Execute mu a s ts actor txID"
| "Action_Execute A L W r mu (ActionPLONKY2 a) s ts actor txID = PLONKY2_Execute mu a s ts actor txID"
| "Action_Execute A L W r mu (ActionValidatorVote a) s ts actor txID = ValidatorVote_Execute A L W r mu a s ts actor txID"

section \<open>The registry\<close>

text \<open>
  \<open>codec.TypeParser\<close>: registering an unmarshaller under an identifier, and looking it up. An
  unmarshaller returns an action, wrapped as a value of the interface.
\<close>

record ('t, 'f) type_parser_lib =
  NewTypeParser :: 't
  TypeParser_Register :: "'t \<Rightarrow> byte \<Rightarrow> 'f \<Rightarrow> bool \<Rightarrow> error option \<times> 't"
  LookupIndex :: "'t \<Rightarrow> byte \<Rightarrow> ('f \<times> bool) option"

type_synonym ('p, 'a) unmarshaller = "'p \<Rightarrow> (error + 'a) \<times> 'p"

definition as_interface :: "('a \<Rightarrow> 'b) \<Rightarrow> ('p, 'a) unmarshaller \<Rightarrow> ('p, 'b) unmarshaller" where
  "as_interface C u p = (case u p of (Inl err, p) \<Rightarrow> (Inl err, p) | (Inr a, p) \<Rightarrow> (Inr (C a), p))"

definition action_registrations ::
  "('k, 'g, 'sk) bls_lib \<Rightarrow> 'p packer \<Rightarrow> (byte \<times> ('p, action) unmarshaller \<times> bool) list" where
  "action_registrations L P =
    [(Transfer_GetTypeID, as_interface ActionTransfer (UnmarshalTransfer P), False),
     (Register_GetTypeID, as_interface ActionRegister (UnmarshalRegister P), False),
     (RegisterImage_GetTypeID, as_interface ActionRegisterImage (UnmarshalRegisterImage P), False),
     (SP1_GetTypeID, as_interface ActionSP1 (UnmarshalSP1 P), False),
     (RiscZero_GetTypeID, as_interface ActionRiscZero (UnmarshalRiscZero P), False),
     (Miden_GetTypeID, as_interface ActionMiden (UnmarshalMiden P), False),
     (Jolt_GetTypeID, as_interface ActionJolt (UnmarshalJolt P), False),
     (PLONKY2_GetTypeID, as_interface ActionPLONKY2 (UnmarshalPLONKY2 P), False),
     (ValidatorVote_GetTypeID, as_interface ActionValidatorVote (UnmarshalValidatorVote L P), False)]"

definition auth_registrations ::
  "'sk1 ed25519_lib \<Rightarrow> 'sk2 secp256r1_lib \<Rightarrow> ('k, 'g, 'sk3) bls_lib \<Rightarrow> 'p packer \<Rightarrow>
    (byte \<times> ('p, ('k, 'g) chain_auth) unmarshaller \<times> bool) list" where
  "auth_registrations Le Ls Lb P =
    [(ED25519_GetTypeID, as_interface AuthED25519 (UnmarshalED25519 Le P), False),
     (SECP256R1_GetTypeID, as_interface AuthSECP256R1 (UnmarshalSECP256R1 Ls P), False),
     (BLS_GetTypeID, as_interface AuthBLS (UnmarshalBLS Lb P), False)]"

text \<open>
  The calls of \<open>Register\<close> in order; \<open>wrappers.Errs\<close> keeps the first error, and \<open>init\<close> panics
  when there is one.
\<close>

fun register_all ::
  "('t, 'f) type_parser_lib \<Rightarrow> 't \<Rightarrow> (byte \<times> 'f \<times> bool) list \<Rightarrow> error option \<times> 't" where
  "register_all R t [] = (None, t)"
| "register_all R t ((i, f, y) # rs) =
    (let (err, t) = TypeParser_Register R t i f y;
         (errs, t) = register_all R t rs
     in (case err of None \<Rightarrow> errs | Some e \<Rightarrow> Some e, t))"

definition Registry_init ::
  "('t, ('p, action) unmarshaller) type_parser_lib \<Rightarrow> ('u, ('p, ('k, 'g) chain_auth) unmarshaller) type_parser_lib \<Rightarrow>
    'sk1 ed25519_lib \<Rightarrow> 'sk2 secp256r1_lib \<Rightarrow> ('k, 'g, 'sk3) bls_lib \<Rightarrow> 'p packer \<Rightarrow> ('t \<times> 'u) go" where
  "Registry_init R S Le Ls Lb P =
    (let (err1, t) = register_all R (NewTypeParser R) (action_registrations Lb P);
         (err2, u) = register_all S (NewTypeParser S) (auth_registrations Le Ls Lb P)
     in if err1 \<noteq> None \<or> err2 \<noteq> None then None else Some (t, u))"

text \<open>
  The documented behaviour of the type parser: a new identifier is registered, one that is
  taken is an error.
\<close>

locale type_parser_spec =
  fixes R :: "('t, 'f) type_parser_lib"
  assumes Lookup_new: "LookupIndex R (NewTypeParser R) i = None"
    and Register_fresh: "LookupIndex R t i = None \<Longrightarrow> \<exists>t'. TypeParser_Register R t i f y = (None, t') \<and>
      (\<forall>j. LookupIndex R t' j = (if j = i then Some (f, y) else LookupIndex R t j))"
    and Register_taken: "LookupIndex R t i \<noteq> None \<Longrightarrow> \<exists>e. TypeParser_Register R t i f y = (Some e, t)"
begin

lemma register_all_distinct:
  assumes "distinct (map fst rs)" "\<forall>i \<in> set (map fst rs). LookupIndex R t i = None"
  shows "\<exists>t'. register_all R t rs = (None, t') \<and>
    (\<forall>j. LookupIndex R t' j = (case map_of rs j of Some x \<Rightarrow> Some x | None \<Rightarrow> LookupIndex R t j))"
  using assms
proof (induction rs arbitrary: t)
  case (Cons r rs)
  obtain i f y where r: "r = (i, f, y)" by (cases r)
  obtain t1 where t1: "TypeParser_Register R t i f y = (None, t1)"
    "\<forall>j. LookupIndex R t1 j = (if j = i then Some (f, y) else LookupIndex R t j)"
    using Register_fresh [of t i f y] Cons.prems(2) r by auto
  obtain t2 where "register_all R t1 rs = (None, t2)"
    "\<forall>j. LookupIndex R t2 j = (case map_of rs j of Some x \<Rightarrow> Some x | None \<Rightarrow> LookupIndex R t1 j)"
    using Cons.IH [of t1] Cons.prems t1(2) r by fastforce
  moreover have "map_of rs i = None"
    using Cons.prems(1) r by (simp add: map_of_eq_None_iff)
  ultimately show ?case
    using t1 r by (auto split: option.split)
qed simp

lemma register_all_new:
  assumes "distinct (map fst rs)"
  obtains t where "register_all R (NewTypeParser R) rs = (None, t)" "LookupIndex R t = map_of rs"
proof -
  obtain t where t: "register_all R (NewTypeParser R) rs = (None, t)"
    "\<forall>j. LookupIndex R t j =
      (case map_of rs j of Some x \<Rightarrow> Some x | None \<Rightarrow> LookupIndex R (NewTypeParser R) j)"
    using register_all_distinct [OF assms, of "NewTypeParser R"] by (auto simp: Lookup_new)
  then have "LookupIndex R t = map_of rs"
    by (intro ext) (simp add: Lookup_new split: option.split)
  with t(1) show thesis by (rule that)
qed

end

text \<open>A map as the reference type parser.\<close>

definition ref_type_parser :: "(byte \<rightharpoonup> 'f \<times> bool, 'f) type_parser_lib" where
  "ref_type_parser = \<lparr>NewTypeParser = Map.empty,
    TypeParser_Register = (\<lambda>t i f y. case t i of None \<Rightarrow> (None, t(i \<mapsto> (f, y)))
      | Some _ \<Rightarrow> (Some (ErrExternal ''duplicate item''), t)),
    LookupIndex = (\<lambda>t. t)\<rparr>"

interpretation ref_type_parser: type_parser_spec ref_type_parser
  by unfold_locales (auto simp: ref_type_parser_def)

lemma reads_as_interface:
  assumes "reads P unread u (Inr a) e"
  shows "reads P unread (as_interface C u) (Inr (C a)) e"
  unfolding reads_def
proof (intro allI impI)
  fix p r assume "PackerErr P p = None" "unread p = e @ r"
  then obtain p' where "u p = (Inr a, p')" "PackerErr P p' = None" "unread p' = r"
    by (rule readsE [OF assms])
  then show "\<exists>p'. as_interface C u p = (Inr (C a), p') \<and> PackerErr P p' = None \<and> unread p' = r"
    by (simp add: as_interface_def)
qed

lemmas type_id_defs = Transfer_GetTypeID_def Register_GetTypeID_def RegisterImage_GetTypeID_def
  SP1_GetTypeID_def RiscZero_GetTypeID_def Miden_GetTypeID_def Jolt_GetTypeID_def
  PLONKY2_GetTypeID_def ValidatorVote_GetTypeID_def id_defs

lemma action_ids_distinct: "distinct (map fst (action_registrations L P))"
  by (simp add: action_registrations_def type_id_defs)

lemma auth_ids_distinct: "distinct (map fst (auth_registrations Le Ls Lb P))"
  by (simp add: auth_registrations_def ED25519_GetTypeID_def SECP256R1_GetTypeID_def BLS_GetTypeID_def
      ED25519ID_def SECP256R1ID_def BLSID_def)

section \<open>The codec of an action\<close>

definition validator_vote_enc :: "(bytes \<Rightarrow> bytes) \<Rightarrow> validator_vote \<Rightarrow> bytes" where
  "validator_vote_enc encB v = id_bytes (Vote_TxID v) @ [of_bool (Vote_Vote v)] @
    encB (Vote_Signature v) @ encB (Vote_PublicKey v)"

definition validator_vote_valid :: "('k, 'g, 'sk) bls_lib \<Rightarrow> validator_vote \<Rightarrow> bool" where
  "validator_vote_valid L v \<longleftrightarrow> Vote_TxID v \<noteq> 0 \<and>
    Vote_Signature v \<noteq> [] \<and> length (Vote_Signature v) \<le> Bls_SignatureLen L \<and> length (Vote_Signature v) < 2 ^ 31 \<and>
    Vote_PublicKey v \<noteq> [] \<and> length (Vote_PublicKey v) \<le> Bls_PublicKeyLen L \<and> length (Vote_PublicKey v) < 2 ^ 31"

sublocale packer_spec \<subseteq> validator_vote: action_codec P written unread
  "ValidatorVote_Marshal P" "UnmarshalValidatorVote L P" "validator_vote_enc encB" "validator_vote_valid L" for L
proof
  show "writes P written (ValidatorVote_Marshal P v) (validator_vote_enc encB v)" for v
    unfolding ValidatorVote_Marshal_def validator_vote_enc_def Let_def append_assoc [symmetric]
    by (intro writes_comp field_writes)
  show "reads P unread (UnmarshalValidatorVote L P) (Inr v) (validator_vote_enc encB v)"
    if "validator_vote_valid L v" for v
    unfolding UnmarshalValidatorVote_def validator_vote_enc_def Let_def
    by (rule reads_bind reads_last field_reads | use that in \<open>simp add: validator_vote_valid_def\<close>)+
qed

fun action_enc :: "(string \<Rightarrow> bytes) \<Rightarrow> (bytes \<Rightarrow> bytes) \<Rightarrow> action \<Rightarrow> bytes" where
  "action_enc encS encB (ActionTransfer a) = transfer_enc a"
| "action_enc encS encB (ActionRegister a) = register_enc a"
| "action_enc encS encB (ActionRegisterImage a) = register_image_enc encS a"
| "action_enc encS encB (ActionSP1 a) = sp1_enc a"
| "action_enc encS encB (ActionRiscZero a) = risc_zero_enc encS a"
| "action_enc encS encB (ActionMiden a) = miden_enc encS a"
| "action_enc encS encB (ActionJolt a) = jolt_enc a"
| "action_enc encS encB (ActionPLONKY2 a) = plonky2_enc a"
| "action_enc encS encB (ActionValidatorVote a) = validator_vote_enc encB a"

text \<open>The actions that can be read back: no required field is zero or empty, nothing is too long.\<close>

fun action_valid :: "('k, 'g, 'sk) bls_lib \<Rightarrow> action \<Rightarrow> bool" where
  "action_valid L (ActionTransfer a) \<longleftrightarrow> transfer_valid a"
| "action_valid L (ActionRegister a) \<longleftrightarrow> register_valid a"
| "action_valid L (ActionRegisterImage a) \<longleftrightarrow> register_image_valid a"
| "action_valid L (ActionSP1 a) \<longleftrightarrow> sp1_valid a"
| "action_valid L (ActionRiscZero a) \<longleftrightarrow> risc_zero_valid a"
| "action_valid L (ActionMiden a) \<longleftrightarrow> miden_valid a"
| "action_valid L (ActionJolt a) \<longleftrightarrow> jolt_valid a"
| "action_valid L (ActionPLONKY2 a) \<longleftrightarrow> plonky2_valid a"
| "action_valid L (ActionValidatorVote a) \<longleftrightarrow> validator_vote_valid L a"

context packer_spec
begin

lemma Action_writes: "writes P written (Action_Marshal P a) (action_enc encS encB a)"
  by (cases a)
    (simp_all add: transfer.marshal_writes register.marshal_writes register_image.marshal_writes sp1.marshal_writes risc_zero.marshal_writes miden.marshal_writes jolt.marshal_writes plonky2.marshal_writes validator_vote.marshal_writes)

lemma Action_reads:
  assumes "action_valid L a"
  obtains u where "map_of (action_registrations L P) (Action_GetTypeID a) = Some (u, False)"
    "reads P unread u (Inr a) (action_enc encS encB a)"
proof (cases a)
  case (ActionTransfer x)
  with assms show thesis
    by (intro that [of "as_interface ActionTransfer (UnmarshalTransfer P)"])
      (simp_all add: action_registrations_def type_id_defs reads_as_interface transfer.unmarshal_reads)
next
  case (ActionRegister x)
  with assms show thesis
    by (intro that [of "as_interface ActionRegister (UnmarshalRegister P)"])
      (simp_all add: action_registrations_def type_id_defs reads_as_interface register.unmarshal_reads)
next
  case (ActionRegisterImage x)
  with assms show thesis
    by (intro that [of "as_interface ActionRegisterImage (UnmarshalRegisterImage P)"])
      (simp_all add: action_registrations_def type_id_defs reads_as_interface register_image.unmarshal_reads)
next
  case (ActionSP1 x)
  with assms show thesis
    by (intro that [of "as_interface ActionSP1 (UnmarshalSP1 P)"])
      (simp_all add: action_registrations_def type_id_defs reads_as_interface sp1.unmarshal_reads)
next
  case (ActionRiscZero x)
  with assms show thesis
    by (intro that [of "as_interface ActionRiscZero (UnmarshalRiscZero P)"])
      (simp_all add: action_registrations_def type_id_defs reads_as_interface risc_zero.unmarshal_reads)
next
  case (ActionMiden x)
  with assms show thesis
    by (intro that [of "as_interface ActionMiden (UnmarshalMiden P)"])
      (simp_all add: action_registrations_def type_id_defs reads_as_interface miden.unmarshal_reads)
next
  case (ActionJolt x)
  with assms show thesis
    by (intro that [of "as_interface ActionJolt (UnmarshalJolt P)"])
      (simp_all add: action_registrations_def type_id_defs reads_as_interface jolt.unmarshal_reads)
next
  case (ActionPLONKY2 x)
  with assms show thesis
    by (intro that [of "as_interface ActionPLONKY2 (UnmarshalPLONKY2 P)"])
      (simp_all add: action_registrations_def type_id_defs reads_as_interface plonky2.unmarshal_reads)
next
  case (ActionValidatorVote x)
  with assms show thesis
    by (intro that [of "as_interface ActionValidatorVote (UnmarshalValidatorVote L P)"])
      (simp_all add: action_registrations_def type_id_defs reads_as_interface validator_vote.unmarshal_reads)
qed

end

end
