(* ===== verification/Trustless.thy ===== *)
theory Trustless
  imports Registry
begin

text \<open>
  \<open>trustless/trustless.go\<close>: the listener through which the verifier service of a validator
  hands in the result of a verification, and which turns it into a signed vote and submits
  it. The signer, the builder of transactions and the VM are parameters; the world \<open>'w\<close> is
  what submitting changes. A handler of the HTTP server writes its answer as a list of
  \<open>response\<close> events.
\<close>

section \<open>The module\<close>

record ('k, 'sk) trustless =
  Trustless_port :: string
  Trustless_listenerPort :: string
  Trustless_publicKey :: 'k
  queuedActions :: "ID \<rightharpoonup> u64"
  verifiedActions :: "ID \<rightharpoonup> bool"
  Trustless_authFactory :: "'sk ed25519_factory"

record submit_result_args =
  SubmitResult_TxID :: string
  SubmitResult_IsValid :: bool

text \<open>
  The functions the module is given or calls. \<open>Signer_Sign\<close> takes the unsigned message, or
  \<open>nil\<close>, on which it may panic; the time of \<open>time.Now\<close> is an argument of the functions that read it, once for each
  reading. \<open>'x\<close> are the transactions of hypersdk.
\<close>

record ('bf, 'k, 'm, 'sk, 'x, 'w) trustless_env =
  Signer_Sign :: "'m option \<Rightarrow> (error + bytes) go"
  Env_unitPrices :: "'w \<Rightarrow> error + dimensions"
  Env_submit :: "'x list \<Rightarrow> 'w \<Rightarrow> error option list \<times> 'w"
  Env_rules :: "i64 \<Rightarrow> ('bf, 'k) rules"
  EstimateMaxUnits :: "('bf, 'k) rules \<Rightarrow> action \<Rightarrow> 'sk ed25519_factory \<Rightarrow> error + dimensions"
  MulSum :: "dimensions \<Rightarrow> dimensions \<Rightarrow> error + u64"
  UnixRMilli :: "i64 \<Rightarrow> i64 \<Rightarrow> i64"
  SignTx :: "i64 \<Rightarrow> ID \<Rightarrow> u64 \<Rightarrow> action \<Rightarrow> 'sk ed25519_factory \<Rightarrow> error + 'x"
  TxID_of :: "'x \<Rightarrow> ID"
  IDFromString :: "string \<Rightarrow> error + ID"
  DecodeSubmitResult :: "bytes \<Rightarrow> error + submit_result_args"

datatype response =
    HttpError error nat
  | ResultSubmitted ID
  | Pong

definition StatusBadRequest :: nat where "StatusBadRequest = 400"

text \<open>
  The key of the validator is written in hexadecimal: \<open>Hex2Bytes\<close> is go-ethereum's decoder,
  which drops errors, and a private key is an array of \<open>PrivateKeyLen\<close> bytes that \<open>PrivateKey\<close>
  reads, so that a text that decodes to less makes the conversion panic.
\<close>

record 'sk hex_keys =
  Hex2Bytes :: "string \<Rightarrow> bytes"
  PrivateKeyLen :: nat
  PrivateKey :: "bytes \<Rightarrow> 'sk"

definition Trustless_New ::
  "'sk hex_keys \<Rightarrow> string \<Rightarrow> string \<Rightarrow> 'k \<Rightarrow> string \<Rightarrow> ('k, 'sk) trustless go" where
  "Trustless_New K port listenerPort publicKey valPrivKey =
    do {
      priv \<leftarrow> to_array (PrivateKeyLen K) (Hex2Bytes K valPrivKey);
      let authFactory = NewED25519Factory (PrivateKey K priv)
      in Some \<lparr>Trustless_port = port, Trustless_listenerPort = listenerPort, Trustless_publicKey = publicKey,
        queuedActions = Map.empty, verifiedActions = Map.empty, Trustless_authFactory = authFactory\<rparr> }"

definition Trustless_Parser_Rules ::
  "('bf, 'k, 'm, 'sk, 'x, 'w) trustless_env \<Rightarrow> i64 \<Rightarrow> ('bf, 'k) rules" where
  "Trustless_Parser_Rules E t = Env_rules E t"

definition ListenActions :: "('k, 'sk) trustless \<Rightarrow> ID \<Rightarrow> u64 \<Rightarrow> error option \<times> ('k, 'sk) trustless" where
  "ListenActions t txID timeOut =
    (None, t\<lparr>queuedActions := (queuedActions t)(txID \<mapsto> timeOut)\<rparr>)"

definition trustless_ping :: "response list" where "trustless_ping = [Pong]"

text \<open>The routes of the server; what a router does with other requests is not the module's.\<close>

datatype route = PingRoute | SubmitResultRoute

definition ListenResults :: "('k, 'sk) trustless \<Rightarrow> string \<times> (string \<Rightarrow> string \<Rightarrow> route option)" where
  "ListenResults t = ('':'' @ Trustless_listenerPort t,
    (\<lambda>path method. if path = ''/ping'' \<and> method = ''GET'' then Some PingRoute
      else if path = ''/submit-result'' \<and> method = ''POST'' then Some SubmitResultRoute else None))"

text \<open>\<open>now1\<close> and \<open>now2\<close> are the two readings of the clock. \<open>errs[0]\<close> panics on an empty list.\<close>

definition GenerateTransaction ::
  "('bf, 'k, 'm, 'sk, 'x, 'w) trustless_env \<Rightarrow> i64 \<Rightarrow> i64 \<Rightarrow> action \<Rightarrow> 'sk ed25519_factory \<Rightarrow> 'w \<Rightarrow>
    ((ID \<times> error option) \<times> 'w) go" where
  "GenerateTransaction E now1 now2 action authFactory w =
    (case Env_unitPrices E w of
       Inl err \<Rightarrow> Some ((0, Some (ErrFmt err ''error in fetching unit prices'')), w)
     | Inr unitPrices \<Rightarrow>
       (case EstimateMaxUnits E (Trustless_Parser_Rules E now1) action authFactory of
          Inl err \<Rightarrow> Some ((0, Some (ErrFmt err ''error in estimating max units'')), w)
        | Inr maxUnits \<Rightarrow>
          (case MulSum E unitPrices maxUnits of
             Inl err \<Rightarrow> Some ((0, Some (ErrFmt err ''error in calculating max fee'')), w)
           | Inr maxFee \<Rightarrow>
             (let rules = Trustless_Parser_Rules E now2;
                  timestamp = UnixRMilli E now2 (Rules_GetValidityWindow rules)
              in case SignTx E timestamp (Rules_ChainID rules) maxFee action authFactory of
                   Inl err \<Rightarrow> Some ((0, Some (ErrWrap err ''failed to sign transaction'')), w)
                 | Inr tx \<Rightarrow>
                   (let (errs, w) = Env_submit E [tx] w
                    in do { e \<leftarrow> index errs 0; Some ((TxID_of E tx, e), w) })))))"

lemma Trustless_New_short:
  "length (Hex2Bytes K v) < PrivateKeyLen K \<Longrightarrow> Trustless_New K port listenerPort publicKey v = None"
  by (simp add: Trustless_New_def to_array_def)

text \<open>
  The handler returns early only when the body does not decode: a bad identifier, an
  unsigned message that cannot be made and a signature that fails each write an error and
  the handler goes on, with the zero identifier, with no message and with no signature. A
  message that could not be made is \<open>nil\<close> when it is handed to the signer, whose panic then is
  the panic of the handler.
\<close>

definition submitResult ::
  "('k, 'g, 'sk2) bls_lib \<Rightarrow> 'm warp_lib \<Rightarrow> ('bf, 'k, 'm, 'sk, 'x, 'w) trustless_env \<Rightarrow> i64 \<Rightarrow> i64 \<Rightarrow>
    ('k, 'sk) trustless \<Rightarrow> bytes \<Rightarrow> 'w \<Rightarrow> (response list \<times> ('k, 'sk) trustless \<times> 'w) go" where
  "submitResult L W E now1 now2 t body w =
    (case DecodeSubmitResult E body of
       Inl err \<Rightarrow> Some ([HttpError err StatusBadRequest], t, w)
     | Inr req \<Rightarrow>
       (let (out1, i) = (case IDFromString E (SubmitResult_TxID req) of
              Inl err \<Rightarrow> ([HttpError err StatusBadRequest], 0) | Inr i \<Rightarrow> ([], i));
            t = t\<lparr>verifiedActions := (verifiedActions t)(i \<mapsto> SubmitResult_IsValid req)\<rparr>;
            msg = GetMessage i (SubmitResult_IsValid req);
            (out2, unSigMsg) = (case NewUnsignedMessage W (Rules_NetworkID (Env_rules E 0))
                (Rules_ChainID (Env_rules E 0)) msg of
              Inl err \<Rightarrow> ([HttpError err StatusBadRequest], None) | Inr m \<Rightarrow> ([], Some m))
        in do {
          signed \<leftarrow> Signer_Sign E unSigMsg;
          let (out3, sig) = (case signed of
                Inl err \<Rightarrow> ([HttpError err StatusBadRequest], []) | Inr sig \<Rightarrow> ([], sig));
              action = \<lparr>Vote_TxID = i, Vote_Vote = SubmitResult_IsValid req, Vote_Signature = sig,
                Vote_PublicKey = Bls_PublicKeyToBytes L (Trustless_publicKey t)\<rparr>
          in do {
            ((txID, err), w) \<leftarrow> GenerateTransaction E now1 now2 (ActionValidatorVote action)
              (Trustless_authFactory t) w;
            Some (out1 @ out2 @ out3 @ [ResultSubmitted txID], t, w) } }))"

section \<open>What is submitted\<close>

text \<open>
  The contract of the node's signer: a signature of a message verifies under the node's key.
  Nothing is asked of it about \<open>nil\<close>.
\<close>

locale warp_signer =
  fixes L :: "('k, 'g, 'sk2) bls_lib" and W :: "'m warp_lib"
    and sign :: "'m option \<Rightarrow> (error + bytes) go" and pk :: 'k
  assumes sign_verifies: "sign (Some m) = Some (Inr b) \<Longrightarrow>
      \<exists>g. Bls_SignatureToBytes L g = b \<and> Bls_Verify L (UnsignedMessage_Bytes W m) pk g"

text \<open>The vote that a result becomes, with the signature the handler has.\<close>

definition result_vote ::
  "('k, 'g, 'sk2) bls_lib \<Rightarrow> ('k, 'sk) trustless \<Rightarrow> ID \<Rightarrow> bool \<Rightarrow> bytes \<Rightarrow> validator_vote" where
  "result_vote L t i b sig = \<lparr>Vote_TxID = i, Vote_Vote = b, Vote_Signature = sig,
    Vote_PublicKey = Bls_PublicKeyToBytes L (Trustless_publicKey t)\<rparr>"

lemma submitResult_decoded:
  assumes "DecodeSubmitResult E body = Inr req" "submitResult L W E n1 n2 t body w = Some (out, t', w')"
  obtains i sig txID err where
    "i = (case IDFromString E (SubmitResult_TxID req) of Inl _ \<Rightarrow> 0 | Inr i \<Rightarrow> i)"
    "verifiedActions t' = (verifiedActions t)(i \<mapsto> SubmitResult_IsValid req)"
    "GenerateTransaction E n1 n2 (ActionValidatorVote (result_vote L t i (SubmitResult_IsValid req) sig))
      (Trustless_authFactory t) w = Some ((txID, err), w')"
    "last out = ResultSubmitted txID"
    "length out = 1 \<Longrightarrow> (\<exists>m. IDFromString E (SubmitResult_TxID req) = Inr i \<and>
      NewUnsignedMessage W (Rules_NetworkID (Env_rules E 0)) (Rules_ChainID (Env_rules E 0))
        (GetMessage i (SubmitResult_IsValid req)) = Inr m \<and> Signer_Sign E (Some m) = Some (Inr sig))"
  using assms
  by (auto simp: submitResult_def Let_def bind_eq_Some_conv result_vote_def split_beta
      split: sum.splits)

section \<open>A reference environment\<close>

text \<open>The signer of the example signs with key 5; a submitted vote is appended to the world.\<close>

definition ref_signer :: "bytes option \<Rightarrow> (error + bytes) go" where
  "ref_signer m = do { b \<leftarrow> m; Some (Inr (be_bytes 96 (5 + be_word b :: 768 word))) }"

interpretation ref_signer: warp_signer ref_bls ref_warp ref_signer "(1, 5)"
proof
  show "\<exists>g. Bls_SignatureToBytes ref_bls g = b \<and> Bls_Verify ref_bls (UnsignedMessage_Bytes ref_warp m) (1, 5) g"
    if "ref_signer (Some m) = Some (Inr b)" for m b
    using that by (intro exI [of _ "(0, 5 + be_word m)"]) (auto simp: ref_signer_def ref_bls_def ref_warp_def)
qed

definition ref_env :: "(nat, nat \<times> 384 word, bytes, byte, action, action list) trustless_env" where
  "ref_env = \<lparr>Signer_Sign = ref_signer, Env_unitPrices = (\<lambda>w. Inr [1, 1, 1, 1, 1]),
    Env_submit = (\<lambda>txs w. (map (\<lambda>_. None) txs, w @ txs)), Env_rules = (\<lambda>t. ref_rules 1),
    EstimateMaxUnits = (\<lambda>r a f. Inr [1, Action_MaxComputeUnits a, 1, 1, 1]),
    MulSum = (\<lambda>p u. Inr (sum_list (map2 (*) p u))), UnixRMilli = (\<lambda>now d. now + d),
    SignTx = (\<lambda>ts c fee a f. Inr a), TxID_of = (\<lambda>a. 9),
    IDFromString = (\<lambda>i. if i = [] then Inl (ErrExternal ''ids'') else Inr (word_of_nat (length i))),
    DecodeSubmitResult = (\<lambda>b. Inr \<lparr>SubmitResult_TxID = bytes_string (tl b), SubmitResult_IsValid = (hd b = 1)\<rparr>)\<rparr>"

definition ref_trustless :: "(nat \<times> 384 word, byte) trustless" where
  "ref_trustless = \<lparr>Trustless_port = ''1'', Trustless_listenerPort = ''2'', Trustless_publicKey = (1, 5),
    queuedActions = Map.empty, verifiedActions = Map.empty, Trustless_authFactory = NewED25519Factory 3\<rparr>"

definition ref_hex :: "byte hex_keys" where
  "ref_hex = \<lparr>Hex2Bytes = map (\<lambda>c. 3), PrivateKeyLen = 1, PrivateKey = (\<lambda>b. hd b)\<rparr>"

lemma ref_trustless_new:
  "Trustless_New ref_hex ''1'' ''2'' (1, 5) ''key'' = Some ref_trustless"
  "Trustless_New ref_hex ''1'' ''2'' (1, 5) [] = None"
  by (simp_all add: Trustless_New_def ref_hex_def to_array_def ref_trustless_def)

section \<open>The claims about results\<close>

lemma signed_result:
  assumes "bls_spec L" "warp_signer L W (Signer_Sign E) pk"
    and "NewUnsignedMessage W (Rules_NetworkID r) (Rules_ChainID r) (GetMessage i b) = Inr m"
    and "Signer_Sign E (Some m) = Some (Inr sig)"
  shows "\<exists>pk' g'. Bls_PublicKeyFromBytes L (Bls_PublicKeyToBytes L pk) = Inr pk' \<and>
    Bls_SignatureFromBytes L sig = Inr g' \<and>
    signed_vote L W r \<lparr>Vote_TxID = i, Vote_Vote = b, Vote_Signature = sig, Vote_PublicKey = Bls_PublicKeyToBytes L pk\<rparr> pk' g'"
proof -
  obtain g where g: "Bls_SignatureToBytes L g = sig"
    "Bls_Verify L (UnsignedMessage_Bytes W m) pk g"
    using warp_signer.sign_verifies [OF assms(2) assms(4)] by blast
  obtain pk' where pk': "Bls_PublicKeyFromBytes L (Bls_PublicKeyToBytes L pk) = Inr pk'"
    "Bls_PublicKeyToBytes L pk' = Bls_PublicKeyToBytes L pk"
    using bls_spec.Bls_key_parses [OF assms(1)] by blast
  obtain g' where g': "Bls_SignatureFromBytes L sig = Inr g'" "Bls_SignatureToBytes L g' = sig"
    using bls_spec.Bls_signature_parses [OF assms(1), of g] g(1) by auto
  have "Bls_Verify L (UnsignedMessage_Bytes W m) pk' g'"
    using bls_spec.Bls_Verify_bytes [OF assms(1) pk'(2), of g' g] g g'(2) by simp
  with assms(3) pk' g' show ?thesis
    by (simp add: signed_vote_def)
qed

lemma submitted_vote:
  assumes "bls_spec L" "warp_signer L W (Signer_Sign E) (Trustless_publicKey t)"
    and "submitResult L W E n1 n2 t body w = Some ([ResultSubmitted txID], t', w')"
  shows "\<exists>v err. GenerateTransaction E n1 n2 (ActionValidatorVote v) (Trustless_authFactory t) w = Some ((txID, err), w') \<and>
    verifiedActions t' = (verifiedActions t)(Vote_TxID v \<mapsto> Vote_Vote v) \<and>
    Vote_PublicKey v = Bls_PublicKeyToBytes L (Trustless_publicKey t) \<and>
    (\<exists>pk sig. Bls_PublicKeyFromBytes L (Vote_PublicKey v) = Inr pk \<and>
      Bls_SignatureFromBytes L (Vote_Signature v) = Inr sig \<and> signed_vote L W (Env_rules E 0) v pk sig) \<and>
    (\<exists>req. DecodeSubmitResult E body = Inr req \<and> IDFromString E (SubmitResult_TxID req) = Inr (Vote_TxID v) \<and>
      Vote_Vote v = SubmitResult_IsValid req)"
proof -
  obtain req where req: "DecodeSubmitResult E body = Inr req"
    using assms(3) by (auto simp: submitResult_def split: sum.splits)
  obtain i sig err where run: "verifiedActions t' = (verifiedActions t)(i \<mapsto> SubmitResult_IsValid req)"
    "GenerateTransaction E n1 n2 (ActionValidatorVote (result_vote L t i (SubmitResult_IsValid req) sig))
      (Trustless_authFactory t) w = Some ((txID, err), w')"
    and "\<exists>m. IDFromString E (SubmitResult_TxID req) = Inr i \<and>
      NewUnsignedMessage W (Rules_NetworkID (Env_rules E 0)) (Rules_ChainID (Env_rules E 0))
        (GetMessage i (SubmitResult_IsValid req)) = Inr m \<and> Signer_Sign E (Some m) = Some (Inr sig)"
    by (rule submitResult_decoded [OF req assms(3)]) simp
  then obtain m where id: "IDFromString E (SubmitResult_TxID req) = Inr i"
    and m: "NewUnsignedMessage W (Rules_NetworkID (Env_rules E 0)) (Rules_ChainID (Env_rules E 0))
      (GetMessage i (SubmitResult_IsValid req)) = Inr m" "Signer_Sign E (Some m) = Some (Inr sig)"
    by blast
  with run id req signed_result [OF assms(1,2) m] show ?thesis
    by (intro exI [of _ "result_vote L t i (SubmitResult_IsValid req) sig"] exI [of _ err])
      (simp add: result_vote_def)
qed

text \<open>
  C19: a result that arrives at the listener becomes a vote on the chain. When its identifier
  parses, its message is made and signed, and the builder of transactions gives prices,
  units, a fee and a signed transaction, then that transaction is what is submitted, and its
  action is the vote on the transaction and with the outcome that the body names, carrying
  the node's key; the result is recorded, the client is told the identifier of the
  transaction, and the vote's signature parses and verifies, for whatever references the
  chain parses the key and the signature into, over the message of that transaction and
  outcome.
\<close>

theorem submitted_vote_verifies:
  assumes "bls_spec L" "warp_signer L W (Signer_Sign E) (Trustless_publicKey t)"
    and "DecodeSubmitResult E body = Inr \<lparr>SubmitResult_TxID = txt, SubmitResult_IsValid = b\<rparr>" "IDFromString E txt = Inr i"
    and "NewUnsignedMessage W (Rules_NetworkID (Env_rules E 0)) (Rules_ChainID (Env_rules E 0)) (GetMessage i b) = Inr m"
    and "Signer_Sign E (Some m) = Some (Inr sg)"
    and "v = \<lparr>Vote_TxID = i, Vote_Vote = b, Vote_Signature = sg, Vote_PublicKey = Bls_PublicKeyToBytes L (Trustless_publicKey t)\<rparr>"
    and "Env_unitPrices E w = Inr prices"
    and "EstimateMaxUnits E (Env_rules E n1) (ActionValidatorVote v) (Trustless_authFactory t) = Inr us"
    and "MulSum E prices us = Inr fee"
    and "SignTx E (UnixRMilli E n2 (Rules_GetValidityWindow (Env_rules E n2))) (Rules_ChainID (Env_rules E n2)) fee
      (ActionValidatorVote v) (Trustless_authFactory t) = Inr x"
    and "Env_submit E [x] w = (e # errs, w')"
  shows "submitResult L W E n1 n2 t body w =
      Some ([ResultSubmitted (TxID_of E x)], t\<lparr>verifiedActions := (verifiedActions t)(i \<mapsto> b)\<rparr>, w') \<and>
    (\<exists>pk sig. Bls_PublicKeyFromBytes L (Vote_PublicKey v) = Inr pk \<and>
      Bls_SignatureFromBytes L (Vote_Signature v) = Inr sig \<and> signed_vote L W (Env_rules E 0) v pk sig)"
proof
  have gen: "GenerateTransaction E n1 n2 (ActionValidatorVote v) (Trustless_authFactory t) w = Some ((TxID_of E x, e), w')"
    using assms(8-12) by (simp add: GenerateTransaction_def Trustless_Parser_Rules_def index_def Let_def)
  show "submitResult L W E n1 n2 t body w =
      Some ([ResultSubmitted (TxID_of E x)], t\<lparr>verifiedActions := (verifiedActions t)(i \<mapsto> b)\<rparr>, w')"
    using gen by (simp add: submitResult_def assms(3-7))
  show "\<exists>pk sig. Bls_PublicKeyFromBytes L (Vote_PublicKey v) = Inr pk \<and>
      Bls_SignatureFromBytes L (Vote_Signature v) = Inr sig \<and> signed_vote L W (Env_rules E 0) v pk sig"
    using signed_result [OF assms(1,2,5,6)] by (simp add: assms(7))
qed

text \<open>The result of transaction 1, yes: the vote is the one transaction submitted.\<close>

theorem submitted_vote_verifies_witness:
  "submitResult ref_bls ref_warp ref_env 0 0 ref_trustless [1, 65] [] =
      Some ([ResultSubmitted 9], ref_trustless\<lparr>verifiedActions := [1 \<mapsto> True]\<rparr>,
        [ActionValidatorVote \<lparr>Vote_TxID = 1, Vote_Vote = True,
          Vote_Signature = be_bytes 96 (5 + be_word (GetMessage 1 True) :: 768 word),
          Vote_PublicKey = Bls_PublicKeyToBytes ref_bls (1, 5)\<rparr>])"
proof -
  have signer: "warp_signer ref_bls ref_warp (Signer_Sign ref_env) (Trustless_publicKey ref_trustless)"
    using ref_signer.warp_signer_axioms by (simp add: ref_env_def ref_trustless_def)
  have "DecodeSubmitResult ref_env [1, 65] = Inr \<lparr>SubmitResult_TxID = bytes_string [65], SubmitResult_IsValid = True\<rparr>"
    "IDFromString ref_env (bytes_string [65]) = Inr 1"
    "NewUnsignedMessage ref_warp (Rules_NetworkID (Env_rules ref_env 0)) (Rules_ChainID (Env_rules ref_env 0))
      (GetMessage 1 True) = Inr (GetMessage 1 True)"
    "Signer_Sign ref_env (Some (GetMessage 1 True)) = Some (Inr (be_bytes 96 (5 + be_word (GetMessage 1 True) :: 768 word)))"
    by (simp_all add: ref_env_def ref_warp_def ref_signer_def bytes_string_def)
  from submitted_vote_verifies [OF ref_bls.bls_spec_axioms signer this refl, where w = "[]" and ?n1.0 = 0 and ?n2.0 = 0]
  show ?thesis
    by (simp add: ref_env_def ref_trustless_def)
qed



end
