(* ===== verification/Config.thy ===== *)
theory Config
  imports Genesis
begin

text \<open>
  \<open>config/config.go\<close>: the configuration of a node. \<open>Config_New\<close> reads the document over the
  defaults of hypersdk's \<open>config.Config\<close>, parses the exempt sponsors, and asks the hub for the
  ports of the verifier service, over the network of \<open>Requester\<close>. The claim is the handshake
  a node must complete before it has a configuration.
\<close>

section \<open>The configuration\<close>

text \<open>
  Ints are \<open>int\<close>, durations are in nanoseconds, \<open>'f\<close> are the floats; \<open>nodeID\<close> is the node's
  identifier as \<open>String\<close> renders it.
\<close>

record 'f config =
  AuthVerificationCores :: int
  RootGenerationCores :: int
  TransactionExecutionCores :: int
  TraceEnabled :: bool
  TraceSampleRate :: 'f
  ContinuousProfilerDir :: string
  StreamingBacklogSize :: int
  MempoolSize :: int
  MempoolSponsorSize :: int
  MempoolExemptSponsors :: "string list"
  VerifyAuth :: bool
  StoreTransactions :: bool
  TestMode :: bool
  LogLevel :: int
  HubPorturi :: string
  ValPrivKey :: string
  StateSyncServerDelay :: int
  loaded :: bool
  nodeID :: string
  parsedExemptSponsors :: "address list"
  Client :: endpoint_requester
  Port :: string
  ListenerPort :: string

text \<open>The defaults that hypersdk's \<open>config.Config\<close> returns, and \<open>nil\<close> and zero values.\<close>

record base_config =
  Base_LogLevel :: int
  Base_AuthVerificationCores :: int
  Base_RootGenerationCores :: int
  Base_TransactionExecutionCores :: int
  Base_MempoolSize :: int
  Base_MempoolSponsorSize :: int
  Base_StateSyncServerDelay :: int
  Base_StreamingBacklogSize :: int
  Base_VerifyAuth :: bool

definition defaultContinuousProfilerFrequency :: int where
  "defaultContinuousProfilerFrequency = 60 * 1000000000"
definition defaultContinuousProfilerMaxFiles :: int where "defaultContinuousProfilerMaxFiles = 10"
definition defaultStoreTransactions :: bool where "defaultStoreTransactions = True"

definition setDefault :: "base_config \<Rightarrow> 'f config \<Rightarrow> 'f config" where
  "setDefault D c = c\<lparr>LogLevel := Base_LogLevel D,
    AuthVerificationCores := Base_AuthVerificationCores D,
    RootGenerationCores := Base_RootGenerationCores D,
    TransactionExecutionCores := Base_TransactionExecutionCores D,
    MempoolSize := Base_MempoolSize D,
    MempoolSponsorSize := Base_MempoolSponsorSize D,
    StateSyncServerDelay := Base_StateSyncServerDelay D,
    StreamingBacklogSize := Base_StreamingBacklogSize D,
    VerifyAuth := Base_VerifyAuth D,
    StoreTransactions := defaultStoreTransactions\<rparr>"

definition zero_config :: "'f \<Rightarrow> string \<Rightarrow> 'f config" where
  "zero_config f0 node = \<lparr>AuthVerificationCores = 0,
    RootGenerationCores = 0,
    TransactionExecutionCores = 0,
    TraceEnabled = False,
    TraceSampleRate = f0,
    ContinuousProfilerDir = '''',
    StreamingBacklogSize = 0,
    MempoolSize = 0,
    MempoolSponsorSize = 0,
    MempoolExemptSponsors = [],
    VerifyAuth = False,
    StoreTransactions = False,
    TestMode = False,
    LogLevel = 0,
    HubPorturi = '''',
    ValPrivKey = '''',
    StateSyncServerDelay = 0,
    loaded = False,
    nodeID = node,
    parsedExemptSponsors = [],
    Client = New '''',
    Port = '''',
    ListenerPort = ''''\<rparr>"

fun parse_sponsors :: "(string \<Rightarrow> string \<Rightarrow> error + address) \<Rightarrow> string list \<Rightarrow> error + address list" where
  "parse_sponsors parse [] = Inr []"
| "parse_sponsors parse (sponsor # ss) =
    (case parse HRP sponsor of Inl err \<Rightarrow> Inl err
     | Inr p \<Rightarrow> (case parse_sponsors parse ss of Inl err \<Rightarrow> Inl err | Inr ps \<Rightarrow> Inr (p # ps)))"

text \<open>
  \<open>json.Unmarshal\<close> into the configuration is a parameter. When the hub answers without success,
  the error that is formatted is \<open>nil\<close>, which still makes an error.
\<close>

definition Config_New ::
  "('w, 'r) http_lib \<Rightarrow> (bytes \<Rightarrow> error + ping_reply) \<Rightarrow> (bytes \<Rightarrow> error + ping_single_reply) \<Rightarrow>
    base_config \<Rightarrow> 'f \<Rightarrow> (bytes \<Rightarrow> 'f config \<Rightarrow> error + 'f config) \<Rightarrow> (string \<Rightarrow> string \<Rightarrow> error + address) \<Rightarrow>
    string \<Rightarrow> bytes \<Rightarrow> 'w \<Rightarrow> (error + 'f config) \<times> 'w" where
  "Config_New H unmarshalPing unmarshalPingSingle D f0 unmarshal parse node b w =
    (let c = setDefault D (zero_config f0 node)
     in case (if length b > 0
              then (case unmarshal b c of
                      Inl err \<Rightarrow> Inl (ErrWrap err ''failed to unmarshal config'')
                    | Inr c \<Rightarrow> Inr (c\<lparr>loaded := True\<rparr>))
              else Inr c) of
       Inl err \<Rightarrow> (Inl err, w)
     | Inr c \<Rightarrow>
       (case parse_sponsors parse (MempoolExemptSponsors c) of
          Inl err \<Rightarrow> (Inl err, w)
        | Inr ps \<Rightarrow>
          (let c = c\<lparr>parsedExemptSponsors := ps\<rparr>
           in if length (HubPorturi c) = 0 then (Inl (ErrMessage ''hub port not provided''), w)
              else
                (let ((success, rustPort, unintPort, err), w) = Ping H unmarshalPing (New (HubPorturi c)) w
                 in if err \<noteq> None \<or> \<not> success
                    then (Inl (case err of Some e \<Rightarrow> ErrFmt e ''can't Ping Hub'' | None \<Rightarrow> ErrMessage ''can't Ping Hub''), w)
                    else
                      (let c = c\<lparr>Client := New (''http://127.0.0.1:'' @ rustPort)\<rparr>;
                           ((success, err), w) = PingSingle H unmarshalPingSingle (Client c) w
                       in if err \<noteq> None \<or> \<not> success
                          then (Inl (case err of Some e \<Rightarrow> ErrFmt e ''can't Ping Server''
                                     | None \<Rightarrow> ErrMessage ''can't Ping Server''), w)
                          else (Inr (c\<lparr>Port := rustPort, ListenerPort := unintPort\<rparr>), w))))))"

definition Config_GetLogLevel :: "'f config \<Rightarrow> int" where "Config_GetLogLevel c = LogLevel c"
definition Config_GetTestMode :: "'f config \<Rightarrow> bool" where "Config_GetTestMode c = TestMode c"
definition Config_GetAuthVerificationCores :: "'f config \<Rightarrow> int" where "Config_GetAuthVerificationCores c = AuthVerificationCores c"
definition Config_GetRootGenerationCores :: "'f config \<Rightarrow> int" where "Config_GetRootGenerationCores c = RootGenerationCores c"
definition Config_GetTransactionExecutionCores :: "'f config \<Rightarrow> int" where "Config_GetTransactionExecutionCores c = TransactionExecutionCores c"
definition Config_GetMempoolSize :: "'f config \<Rightarrow> int" where "Config_GetMempoolSize c = MempoolSize c"
definition Config_GetMempoolSponsorSize :: "'f config \<Rightarrow> int" where "Config_GetMempoolSponsorSize c = MempoolSponsorSize c"
definition Config_GetMempoolExemptSponsors :: "'f config \<Rightarrow> address list" where "Config_GetMempoolExemptSponsors c = parsedExemptSponsors c"
definition Config_GetStateSyncServerDelay :: "'f config \<Rightarrow> int" where "Config_GetStateSyncServerDelay c = StateSyncServerDelay c"
definition Config_GetStreamingBacklogSize :: "'f config \<Rightarrow> int" where "Config_GetStreamingBacklogSize c = StreamingBacklogSize c"
definition Config_GetVerifyAuth :: "'f config \<Rightarrow> bool" where "Config_GetVerifyAuth c = VerifyAuth c"
definition Config_GetStoreTransactions :: "'f config \<Rightarrow> bool" where "Config_GetStoreTransactions c = StoreTransactions c"
definition Config_Loaded :: "'f config \<Rightarrow> bool" where "Config_Loaded c = loaded c"

record 'f trace_config =
  Trace_Enabled :: bool
  Trace_SampleRate :: 'f
  Trace_AppName :: string
  Trace_Agent :: string
  Trace_Version :: string

definition Name :: string where "Name = ''morpheusvm''"

text \<open>The rendered version of the program is an argument.\<close>

definition GetTraceConfig :: "string \<Rightarrow> 'f config \<Rightarrow> 'f trace_config" where
  "GetTraceConfig version c = \<lparr>Trace_Enabled = TraceEnabled c, Trace_SampleRate = TraceSampleRate c,
    Trace_AppName = Name, Trace_Agent = nodeID c, Trace_Version = version\<rparr>"

record profiler_config =
  Profiler_Enabled :: bool
  Profiler_Dir :: string
  Profiler_Freq :: int
  Profiler_MaxNumFiles :: int

text \<open>\<open>strings.ReplaceAll\<close> of a pattern of one character.\<close>

definition ReplaceAll :: "string \<Rightarrow> char \<Rightarrow> string \<Rightarrow> string" where
  "ReplaceAll s old new = concat (map (\<lambda>c. if c = old then new else [c]) s)"

definition GetContinuousProfilerConfig :: "'f config \<Rightarrow> profiler_config \<times> 'f config" where
  "GetContinuousProfilerConfig c =
    (if length (ContinuousProfilerDir c) = 0
     then (\<lparr>Profiler_Enabled = False, Profiler_Dir = [], Profiler_Freq = 0, Profiler_MaxNumFiles = 0\<rparr>, c)
     else (let c = c\<lparr>ContinuousProfilerDir := ReplaceAll (ContinuousProfilerDir c) (CHR ''*'') (nodeID c)\<rparr>
           in (\<lparr>Profiler_Enabled = True, Profiler_Dir = ContinuousProfilerDir c,
                Profiler_Freq = defaultContinuousProfilerFrequency,
                Profiler_MaxNumFiles = defaultContinuousProfilerMaxFiles\<rparr>, c)))"

section \<open>The claims about the configuration\<close>

lemma parse_sponsors_Inr:
  "parse_sponsors parse ss = Inr ps \<longleftrightarrow> list_all2 (\<lambda>s p. parse HRP s = Inr p) ss ps"
proof (induction ss arbitrary: ps)
  case (Cons s ss)
  show ?case
    by (cases "parse_sponsors parse ss"; cases "parse HRP s")
      (auto simp: list_all2_Cons1 simp flip: Cons.IH)
qed auto

context http_view
begin

lemma Ping_ok:
  assumes "Ping H u c w = ((ok, rp, up, None), w')"
  shows "\<exists>req. sent w' = sent w @ [req] \<and> req_method req = ''GET'' \<and> req_url req = Uri c @ PINGENDPOINT"
  using assms
  by (auto simp: Ping_def Let_def Header_Set_def split: sum.splits prod.splits
      dest!: NewHTTPRequest_fields Do_sends ReadAll_silent)

lemma PingSingle_ok:
  assumes "PingSingle H u c w = ((ok, None), w')"
  shows "\<exists>req. sent w' = sent w @ [req] \<and> req_method req = ''GET'' \<and> req_url req = Uri c @ PINGSINGLEENDPOINT"
  using assms
  by (auto simp: PingSingle_def Let_def Header_Set_def split: sum.splits prod.splits
      dest!: NewHTTPRequest_fields Do_sends ReadAll_silent)

lemma Config_New_sends:
  assumes "Config_New H u1 u2 D f0 um parse node b w = (Inr c, w')"
  shows "\<exists>r1 r2. sent w' = sent w @ [r1, r2] \<and>
    req_method r1 = ''GET'' \<and> req_url r1 = HubPorturi c @ PINGENDPOINT \<and>
    req_method r2 = ''GET'' \<and> req_url r2 = Uri (Client c) @ PINGSINGLEENDPOINT"
  using assms
  by (auto simp: Config_New_def Let_def New_def split: sum.splits if_splits prod.splits
      dest!: Ping_ok PingSingle_ok)

end

lemma Config_New_fields:
  assumes "Config_New H u1 u2 D f0 um parse node b w = (Inr c, w')"
  shows "HubPorturi c \<noteq> [] \<and> Client c = New (''http://127.0.0.1:'' @ Port c) \<and>
    list_all2 (\<lambda>s p. parse HRP s = Inr p) (MempoolExemptSponsors c) (parsedExemptSponsors c)"
  using assms
  by (auto simp: Config_New_def Let_def parse_sponsors_Inr split: sum.splits if_splits prod.splits)

text \<open>
  A node has a configuration only after the handshake: a hub is configured, exactly two
  requests were sent, a ping to the hub and then one to the verifier service on the port the
  hub gave, the client of the node points to that service, and every exempt sponsor parsed.
\<close>

theorem config_handshake:
  assumes "http_view H sent" "Config_New H u1 u2 D f0 um parse node b w = (Inr c, w')"
  shows "HubPorturi c \<noteq> [] \<and> Client c = New (''http://127.0.0.1:'' @ Port c) \<and>
    list_all2 (\<lambda>s p. parse HRP s = Inr p) (MempoolExemptSponsors c) (parsedExemptSponsors c) \<and>
    (\<exists>r1 r2. sent w' = sent w @ [r1, r2] \<and>
      req_method r1 = ''GET'' \<and> req_url r1 = HubPorturi c @ PINGENDPOINT \<and>
      req_method r2 = ''GET'' \<and> req_url r2 = ''http://127.0.0.1:'' @ Port c @ PINGSINGLEENDPOINT)"
proof -
  note Config_New_fields [OF assms(2)]
  with http_view.Config_New_sends [OF assms] show ?thesis
    by (auto simp: New_def)
qed

text \<open>A document that names the hub; hub and service answer yes, the service on port 90.\<close>

definition ref_base :: base_config where
  "ref_base = \<lparr>Base_LogLevel = 1, Base_AuthVerificationCores = 1, Base_RootGenerationCores = 1, Base_TransactionExecutionCores = 1, Base_MempoolSize = 1, Base_MempoolSponsorSize = 1, Base_StateSyncServerDelay = 1, Base_StreamingBacklogSize = 1, Base_VerifyAuth = False\<rparr>"

definition ref_ping :: "bytes \<Rightarrow> error + ping_reply" where
  "ref_ping b = Inr \<lparr>PingReply_Success = True, PingReply_RustPort = ''90'', PingReply_UnintPort = ''91''\<rparr>"

definition ref_ping_single :: "bytes \<Rightarrow> error + ping_single_reply" where
  "ref_ping_single b = Inr \<lparr>PingSingleReply_Success = True\<rparr>"

lemma ref_config:
  obtains c w' where "Config_New ref_http ref_ping ref_ping_single ref_base (0 :: nat)
    (\<lambda>b c. Inr (c\<lparr>HubPorturi := ''hub''\<rparr>)) ref_bech32 ''node'' [1] ([], [[], []]) = (Inr c, w')"
    "Port c = ''90''"
  by (simp add: Config_New_def ref_http_def ref_ping_def ref_ping_single_def setDefault_def zero_config_def
      Ping_def PingSingle_def)

theorem config_handshake_witness:
  "\<exists>c w' r1 r2. Config_New ref_http ref_ping ref_ping_single ref_base (0 :: nat)
    (\<lambda>b c. Inr (c\<lparr>HubPorturi := ''hub''\<rparr>)) ref_bech32 ''node'' [1] ([], [[], []]) = (Inr c, w') \<and>
    Port c = ''90'' \<and> fst w' = [r1, r2]"
proof -
  obtain c w' where c: "Config_New ref_http ref_ping ref_ping_single ref_base (0 :: nat)
    (\<lambda>b c. Inr (c\<lparr>HubPorturi := ''hub''\<rparr>)) ref_bech32 ''node'' [1] ([], [[], []]) = (Inr c, w')" "Port c = ''90''"
    by (rule ref_config)
  from config_handshake [OF ref_http.http_view_axioms c(1)] c show ?thesis by fastforce
qed

lemma ReplaceAll_idem:
  assumes "old \<notin> set new"
  shows "ReplaceAll (ReplaceAll s old new) old new = ReplaceAll s old new"
proof -
  have id: "concat (map (\<lambda>c. if c = old then new else [c]) t) = t" if "old \<notin> set t" for t
    using that by (induction t) auto
  have "old \<notin> set (ReplaceAll s old new)"
    using assms by (auto simp: ReplaceAll_def split: if_splits)
  then show ?thesis
    by (simp add: ReplaceAll_def [of "ReplaceAll s old new"] id)
qed

lemma ReplaceAll_nonempty: "s \<noteq> [] \<Longrightarrow> new \<noteq> [] \<Longrightarrow> ReplaceAll s old new \<noteq> []"
  by (cases s) (simp_all add: ReplaceAll_def)

text \<open>
  The profiler's directory is computed once and for all: for a node identifier without a
  star, asking again gives the same configuration.
\<close>

theorem profiler_config_stable:
  assumes "CHR ''*'' \<notin> set (nodeID c)" "nodeID c \<noteq> []" "GetContinuousProfilerConfig c = (p, c')"
  shows "GetContinuousProfilerConfig c' = (p, c')"
  using assms ReplaceAll_idem [OF assms(1), of "ContinuousProfilerDir c"]
    ReplaceAll_nonempty [of "ContinuousProfilerDir c" "nodeID c" "CHR ''*''"]
  by (auto simp: GetContinuousProfilerConfig_def Let_def split: if_splits)

theorem profiler_config_stable_witness:
  "\<exists>p c'. GetContinuousProfilerConfig ((zero_config (0 :: nat) ''n1'')\<lparr>ContinuousProfilerDir := ''d*''\<rparr>) = (p, c') \<and>
    Profiler_Dir p = ''dn1'' \<and> GetContinuousProfilerConfig c' = (p, c')"
proof -
  obtain p c' where r: "GetContinuousProfilerConfig ((zero_config (0 :: nat) ''n1'')\<lparr>ContinuousProfilerDir := ''d*''\<rparr>) = (p, c')"
    by (rule prod.exhaust)
  have "Profiler_Dir p = ''dn1''"
    using r by (auto simp: GetContinuousProfilerConfig_def zero_config_def ReplaceAll_def)
  with profiler_config_stable [OF _ _ r] r show ?thesis
    by (simp add: zero_config_def)
qed

end
