(* ===== verification/Accept_Handlers.thy ===== *)
theory Accept_Handlers
  imports Requester Storage_Keys
begin

text \<open>
  The handlers of \<open>accept_handlers/\<close>, one per proving system, that a node runs for each
  accepted submission: post the request to the verifier service, and when the service says
  it took it, post the request to verify it. \<open>verify_exchange\<close> is the shape the five share;
  \<open>exchange_log\<close> says what such a handler sends, given what comes back.
\<close>

section \<open>Constants and messages\<close>

definition SP1VERIFY :: u32 where "SP1VERIFY = 1"
definition MIDENVERIFY :: u32 where "MIDENVERIFY = 2"
definition RISCZEROVERFIY :: u32 where "RISCZEROVERFIY = 3"
definition JOLTVERIFY :: u32 where "JOLTVERIFY = 4"
definition PLONKY2VERIFY :: u32 where "PLONKY2VERIFY = 5"
definition elfValType :: u16 where "elfValType = 1"

lemmas verify_type_defs = SP1VERIFY_def MIDENVERIFY_def RISCZEROVERFIY_def JOLTVERIFY_def
  PLONKY2VERIFY_def

record verify_request_args =
  VerifyRequest_TxID :: string
  VerifyRequest_VerifyType :: u32

record verify_reply_args =
  VerifyReply_IsSubmitted :: bool

record sp1_request_args =
  SP1Request_TxID :: string
  SP1Request_ELFFilePath :: string
  SP1Request_ProofFilePath :: string

record sp1_reply_args =
  SP1Reply_IsSubmitted :: bool

record risczero_request_args =
  RiscZeroRequest_TxID :: string
  RiscZeroRequest_RiscZeroImageID :: string
  RiscZeroRequest_ProofFilePath :: string

record risczero_reply_args =
  RiscZeroReply_IsSubmitted :: bool

record miden_request_args =
  MidenRequest_TxID :: string
  MidenRequest_CodeFrontEnd :: string
  MidenRequest_InputsFrontEnd :: string
  MidenRequest_OutputsFrontEnd :: string
  MidenRequest_ProofFilePath :: string

record miden_reply_args =
  MidenReply_IsSubmitted :: bool

record jolt_request_args =
  JoltRequest_TxID :: string
  JoltRequest_ELFFilePath :: string
  JoltRequest_ProofFilePath :: string

record jolt_reply_args =
  JoltReply_IsSubmitted :: bool

record plonky2_request_args =
  Plonky2Request_TxID :: string
  Plonky2Request_ProofFilePath :: string
  Plonky2Request_CommonDataFilePath :: string
  Plonky2Request_VerifierDataFilePath :: string

record plonky2_reply_args =
  Plonky2Reply_IsSubmitted :: bool

text \<open>\<open>encoding/json\<close> on these messages, and \<open>ids.ID\<close> rendered by \<open>Hex\<close> and \<open>String\<close>.\<close>

record handler_json =
  MarshalSP1 :: "sp1_request_args \<Rightarrow> error + bytes"
  UnmarshalSP1Reply :: "bytes \<Rightarrow> error + sp1_reply_args"
  MarshalRiscZero :: "risczero_request_args \<Rightarrow> error + bytes"
  UnmarshalRiscZeroReply :: "bytes \<Rightarrow> error + risczero_reply_args"
  MarshalMiden :: "miden_request_args \<Rightarrow> error + bytes"
  UnmarshalMidenReply :: "bytes \<Rightarrow> error + miden_reply_args"
  MarshalJolt :: "jolt_request_args \<Rightarrow> error + bytes"
  UnmarshalJoltReply :: "bytes \<Rightarrow> error + jolt_reply_args"
  MarshalPlonky2 :: "plonky2_request_args \<Rightarrow> error + bytes"
  UnmarshalPlonky2Reply :: "bytes \<Rightarrow> error + plonky2_reply_args"
  MarshalVerify :: "verify_request_args \<Rightarrow> error + bytes"
  UnmarshalVerifyReply :: "bytes \<Rightarrow> error + verify_reply_args"

record id_text =
  ID_Hex :: "ID \<Rightarrow> string"
  ID_String :: "ID \<Rightarrow> string"

section \<open>The handlers\<close>

definition HandleSP1 ::
  "('w, 'r) http_lib \<Rightarrow> handler_json \<Rightarrow> id_text \<Rightarrow> ID \<Rightarrow> ID \<Rightarrow> u16 \<Rightarrow> string \<Rightarrow>
    endpoint_requester \<Rightarrow> 'w \<Rightarrow> error option \<times> 'w" where
  "HandleSP1 H J X txID imageID proofValType baseDir er w =
    (let elfKey = DeployKey (ID_Hex X) imageID elfValType;
         proofKey = DeployKey (ID_Hex X) imageID proofValType;
         elfFilePath = baseDir @ ''/'' @ elfKey;
         proofFilePath = baseDir @ ''/'' @ proofKey;
         cli = Cli er;
         uri = Uri er @ SP1ENDPOINT;
         args = \<lparr>SP1Request_TxID = ID_String X txID, SP1Request_ELFFilePath = elfFilePath, SP1Request_ProofFilePath = proofFilePath\<rparr>
     in case MarshalSP1 J args of
       Inl err \<Rightarrow> (Some (ErrWrap err ''failed to marshal sp1 request args''), w)
     | Inr jsonData \<Rightarrow> (case NewRequest H uri jsonData of
       Inl err \<Rightarrow> (Some (ErrWrap err ''failed to create new request in HandleSP1''), w)
     | Inr req \<Rightarrow> (case Do H cli req w of
       (Inl err, w) \<Rightarrow> (Some (ErrWrap err ''failed to do request in HandleSP1''), w)
     | (Inr resp, w) \<Rightarrow> (case ReadAll H resp w of
       (Inl err, w) \<Rightarrow> (Some (ErrWrap err ''failed to read response body in HandleSP1''), w)
     | (Inr body, w) \<Rightarrow> (case UnmarshalSP1Reply J body of
       Inl err \<Rightarrow> (Some (ErrWrap err ''failed to unmarshal json in HandleSP1''), w)
     | Inr reply \<Rightarrow>
         if SP1Reply_IsSubmitted reply
         then
           (let vargs = \<lparr>VerifyRequest_TxID = ID_String X txID, VerifyRequest_VerifyType = SP1VERIFY\<rparr>;
                uri = Uri er @ VERIFYENDPOINT
            in case MarshalVerify J vargs of
              Inl err \<Rightarrow> (Some (ErrWrap err ''failed to marshal verify request args in HandleSP1''), w)
            | Inr vjsonData \<Rightarrow> (case NewRequest H uri vjsonData of
              Inl err \<Rightarrow> (Some (ErrWrap err ''failed to create new verify request in HandleSP1''), w)
            | Inr req \<Rightarrow> (case Do H cli req w of
              (Inl err, w) \<Rightarrow> (Some (ErrWrap err ''failed to do verify request in HandleSP1''), w)
            | (Inr resp, w) \<Rightarrow> (case ReadAll H resp w of
              (Inl err, w) \<Rightarrow> (Some (ErrWrap err ''failed to read verify response body in HandleSP1''), w)
            | (Inr body, w) \<Rightarrow> (case UnmarshalVerifyReply J body of
              Inl err \<Rightarrow> (Some (ErrWrap err ''failed to unmarshal verify reply in HandleSP1''), w)
            | Inr reply \<Rightarrow> (None, w))))))
         else (None, w))))))"

definition HandleRiscZero ::
  "('w, 'r) http_lib \<Rightarrow> handler_json \<Rightarrow> id_text \<Rightarrow> ID \<Rightarrow> ID \<Rightarrow> u16 \<Rightarrow> string \<Rightarrow> string \<Rightarrow>
    endpoint_requester \<Rightarrow> 'w \<Rightarrow> error option \<times> 'w" where
  "HandleRiscZero H J X txID imageID proofValType RiscZeroImageID baseDir er w =
    (let proofKey = DeployKey (ID_Hex X) imageID proofValType;
         proofFilePath = baseDir @ ''/'' @ proofKey;
         cli = Cli er;
         uri = Uri er @ RISCZEROENDPOINT;
         args = \<lparr>RiscZeroRequest_TxID = ID_String X txID, RiscZeroRequest_RiscZeroImageID = RiscZeroImageID, RiscZeroRequest_ProofFilePath = proofFilePath\<rparr>
     in case MarshalRiscZero J args of
       Inl err \<Rightarrow> (Some (ErrWrap err ''failed to marshal risczero request args''), w)
     | Inr jsonData \<Rightarrow> (case NewRequest H uri jsonData of
       Inl err \<Rightarrow> (Some (ErrWrap err ''failed to create new request in HandleRiscZero''), w)
     | Inr req \<Rightarrow> (case Do H cli req w of
       (Inl err, w) \<Rightarrow> (Some (ErrWrap err ''failed to do request in HandleRiscZero''), w)
     | (Inr resp, w) \<Rightarrow> (case ReadAll H resp w of
       (Inl err, w) \<Rightarrow> (Some (ErrWrap err ''failed to read response body in HandleRiscZero''), w)
     | (Inr body, w) \<Rightarrow> (case UnmarshalRiscZeroReply J body of
       Inl err \<Rightarrow> (Some (ErrWrap err ''failed to unmarshal risczero reply''), w)
     | Inr reply \<Rightarrow>
         if RiscZeroReply_IsSubmitted reply
         then
           (let vargs = \<lparr>VerifyRequest_TxID = ID_String X txID, VerifyRequest_VerifyType = RISCZEROVERFIY\<rparr>;
                uri = Uri er @ VERIFYENDPOINT
            in case MarshalVerify J vargs of
              Inl err \<Rightarrow> (Some (ErrWrap err ''failed to marshal verify request args in HandleRiscZero''), w)
            | Inr vjsonData \<Rightarrow> (case NewRequest H uri vjsonData of
              Inl err \<Rightarrow> (Some (ErrWrap err ''failed to create new verify request in HandleRiscZero''), w)
            | Inr req \<Rightarrow> (case Do H cli req w of
              (Inl err, w) \<Rightarrow> (Some (ErrWrap err ''failed to do verify request in HandleRiscZero''), w)
            | (Inr resp, w) \<Rightarrow> (case ReadAll H resp w of
              (Inl err, w) \<Rightarrow> (Some (ErrWrap err ''failed to read verify response body in HandleRiscZero''), w)
            | (Inr body, w) \<Rightarrow> (case UnmarshalVerifyReply J body of
              Inl err \<Rightarrow> (Some (ErrWrap err ''failed to unmarshal verify reply in HandleRiscZero''), w)
            | Inr reply \<Rightarrow> (None, w))))))
         else (None, w))))))"

definition HandleMiden ::
  "('w, 'r) http_lib \<Rightarrow> handler_json \<Rightarrow> id_text \<Rightarrow> ID \<Rightarrow> ID \<Rightarrow> u16 \<Rightarrow> string \<Rightarrow> string \<Rightarrow> string \<Rightarrow> string \<Rightarrow>
    endpoint_requester \<Rightarrow> 'w \<Rightarrow> error option \<times> 'w" where
  "HandleMiden H J X txID imageID proofValType codeFrontEnd inputsFrontEnd outputsFrontEnd baseDir er w =
    (let proofKey = DeployKey (ID_Hex X) imageID proofValType;
         proofFilePath = baseDir @ ''/'' @ proofKey;
         cli = Cli er;
         uri = Uri er @ MIDENENDPOINT;
         args = \<lparr>MidenRequest_TxID = ID_String X txID, MidenRequest_CodeFrontEnd = codeFrontEnd, MidenRequest_InputsFrontEnd = inputsFrontEnd, MidenRequest_OutputsFrontEnd = outputsFrontEnd, MidenRequest_ProofFilePath = proofFilePath\<rparr>
     in case MarshalMiden J args of
       Inl err \<Rightarrow> (Some (ErrWrap err ''failed to marshal miden request args''), w)
     | Inr jsonData \<Rightarrow> (case NewRequest H uri jsonData of
       Inl err \<Rightarrow> (Some (ErrWrap err ''failed to create new request in HandleMiden''), w)
     | Inr req \<Rightarrow> (case Do H cli req w of
       (Inl err, w) \<Rightarrow> (Some (ErrWrap err ''failed to do request in HandleMiden''), w)
     | (Inr resp, w) \<Rightarrow> (case ReadAll H resp w of
       (Inl err, w) \<Rightarrow> (Some (ErrWrap err ''failed to read response body in HandleMiden''), w)
     | (Inr body, w) \<Rightarrow> (case UnmarshalMidenReply J body of
       Inl err \<Rightarrow> (Some (ErrWrap err ''failed to unmarshal miden reply''), w)
     | Inr reply \<Rightarrow>
         if MidenReply_IsSubmitted reply
         then
           (let vargs = \<lparr>VerifyRequest_TxID = ID_String X txID, VerifyRequest_VerifyType = MIDENVERIFY\<rparr>;
                uri = Uri er @ VERIFYENDPOINT
            in case MarshalVerify J vargs of
              Inl err \<Rightarrow> (Some (ErrWrap err ''failed to marshal verify request args in HandleMiden''), w)
            | Inr vjsonData \<Rightarrow> (case NewRequest H uri vjsonData of
              Inl err \<Rightarrow> (Some (ErrWrap err ''failed to create new verify request in HandleMiden''), w)
            | Inr req \<Rightarrow> (case Do H cli req w of
              (Inl err, w) \<Rightarrow> (Some (ErrWrap err ''failed to do verify request in HandleMiden''), w)
            | (Inr resp, w) \<Rightarrow> (case ReadAll H resp w of
              (Inl err, w) \<Rightarrow> (Some (ErrWrap err ''failed to read verify response body in HandleMiden''), w)
            | (Inr body, w) \<Rightarrow> (case UnmarshalVerifyReply J body of
              Inl err \<Rightarrow> (Some (ErrWrap err ''failed to unmarshal verify reply in HandleMiden''), w)
            | Inr reply \<Rightarrow> (None, w))))))
         else (None, w))))))"

definition HandleJolt ::
  "('w, 'r) http_lib \<Rightarrow> handler_json \<Rightarrow> id_text \<Rightarrow> ID \<Rightarrow> ID \<Rightarrow> u16 \<Rightarrow> string \<Rightarrow>
    endpoint_requester \<Rightarrow> 'w \<Rightarrow> error option \<times> 'w" where
  "HandleJolt H J X txID imageID proofValType baseDir er w =
    (let elfKey = DeployKey (ID_Hex X) imageID elfValType;
         proofKey = DeployKey (ID_Hex X) imageID proofValType;
         elfFilePath = baseDir @ ''/'' @ elfKey;
         proofFilePath = baseDir @ ''/'' @ proofKey;
         cli = Cli er;
         uri = Uri er @ JOLTENDPOINT;
         args = \<lparr>JoltRequest_TxID = ID_String X txID, JoltRequest_ELFFilePath = elfFilePath, JoltRequest_ProofFilePath = proofFilePath\<rparr>
     in case MarshalJolt J args of
       Inl err \<Rightarrow> (Some (ErrWrap err ''failed to marshal jolt request args''), w)
     | Inr jsonData \<Rightarrow> (case NewRequest H uri jsonData of
       Inl err \<Rightarrow> (Some (ErrWrap err ''failed to create new request in Handle Jolt''), w)
     | Inr req \<Rightarrow> (case Do H cli req w of
       (Inl err, w) \<Rightarrow> (Some (ErrWrap err ''failed to do request in Handle Jolt''), w)
     | (Inr resp, w) \<Rightarrow> (case ReadAll H resp w of
       (Inl err, w) \<Rightarrow> (Some (ErrWrap err ''failed to read response body in Handle Jolt''), w)
     | (Inr body, w) \<Rightarrow> (case UnmarshalJoltReply J body of
       Inl err \<Rightarrow> (Some (ErrWrap err ''failed to unmarshal json in Handle Jolt''), w)
     | Inr reply \<Rightarrow>
         if JoltReply_IsSubmitted reply
         then
           (let vargs = \<lparr>VerifyRequest_TxID = ID_String X txID, VerifyRequest_VerifyType = JOLTVERIFY\<rparr>;
                uri = Uri er @ VERIFYENDPOINT
            in case MarshalVerify J vargs of
              Inl err \<Rightarrow> (Some (ErrWrap err ''failed to marshal verify request args in Handle Jolt''), w)
            | Inr vjsonData \<Rightarrow> (case NewRequest H uri vjsonData of
              Inl err \<Rightarrow> (Some (ErrWrap err ''failed to create new verify request in Handle Jolt''), w)
            | Inr req \<Rightarrow> (case Do H cli req w of
              (Inl err, w) \<Rightarrow> (Some (ErrWrap err ''failed to do verify request in Handle Jolt''), w)
            | (Inr resp, w) \<Rightarrow> (case ReadAll H resp w of
              (Inl err, w) \<Rightarrow> (Some (ErrWrap err ''failed to read verify response body in Handle Jolt''), w)
            | (Inr body, w) \<Rightarrow> (case UnmarshalVerifyReply J body of
              Inl err \<Rightarrow> (Some (ErrWrap err ''failed to unmarshal verify reply in Handle Jolt''), w)
            | Inr reply \<Rightarrow> (None, w))))))
         else (None, w))))))"

definition HandlePlonky2 ::
  "('w, 'r) http_lib \<Rightarrow> handler_json \<Rightarrow> id_text \<Rightarrow> ID \<Rightarrow> ID \<Rightarrow> u16 \<Rightarrow> u16 \<Rightarrow> u16 \<Rightarrow> string \<Rightarrow>
    endpoint_requester \<Rightarrow> 'w \<Rightarrow> error option \<times> 'w" where
  "HandlePlonky2 H J X txID imageID proofValType commonDataValType verifierDataValType baseDir er w =
    (let commonDataKey = DeployKey (ID_Hex X) imageID commonDataValType;
         verifierDataKey = DeployKey (ID_Hex X) imageID verifierDataValType;
         proofKey = DeployKey (ID_Hex X) imageID proofValType;
         commonDataFilePath = baseDir @ ''/'' @ commonDataKey;
         verifierDataFilePath = baseDir @ ''/'' @ verifierDataKey;
         proofFilePath = baseDir @ ''/'' @ proofKey;
         cli = Cli er;
         uri = Uri er @ PLONKY2ENDPOINT;
         args = \<lparr>Plonky2Request_TxID = ID_String X txID, Plonky2Request_ProofFilePath = proofFilePath, Plonky2Request_CommonDataFilePath = commonDataFilePath, Plonky2Request_VerifierDataFilePath = verifierDataFilePath\<rparr>
     in case MarshalPlonky2 J args of
       Inl err \<Rightarrow> (Some (ErrWrap err ''failed to marshal plonky2 request args''), w)
     | Inr jsonData \<Rightarrow> (case NewRequest H uri jsonData of
       Inl err \<Rightarrow> (Some (ErrWrap err ''failed to create new request in HandlePlonky2''), w)
     | Inr req \<Rightarrow> (case Do H cli req w of
       (Inl err, w) \<Rightarrow> (Some (ErrWrap err ''failed to do request in HandlePlonky2''), w)
     | (Inr resp, w) \<Rightarrow> (case ReadAll H resp w of
       (Inl err, w) \<Rightarrow> (Some (ErrWrap err ''failed to read response body in HandlePlonky2''), w)
     | (Inr body, w) \<Rightarrow> (case UnmarshalPlonky2Reply J body of
       Inl err \<Rightarrow> (Some (ErrWrap err ''failed to unmarshal json in HandlePlonky2''), w)
     | Inr reply \<Rightarrow>
         if Plonky2Reply_IsSubmitted reply
         then
           (let vargs = \<lparr>VerifyRequest_TxID = ID_String X txID, VerifyRequest_VerifyType = PLONKY2VERIFY\<rparr>;
                uri = Uri er @ VERIFYENDPOINT
            in case MarshalVerify J vargs of
              Inl err \<Rightarrow> (Some (ErrWrap err ''failed to marshal verify request args in HandlePlonky2''), w)
            | Inr vjsonData \<Rightarrow> (case NewRequest H uri vjsonData of
              Inl err \<Rightarrow> (Some (ErrWrap err ''failed to create new verify request in HandlePlonky2''), w)
            | Inr req \<Rightarrow> (case Do H cli req w of
              (Inl err, w) \<Rightarrow> (Some (ErrWrap err ''failed to do verify request in HandlePlonky2''), w)
            | (Inr resp, w) \<Rightarrow> (case ReadAll H resp w of
              (Inl err, w) \<Rightarrow> (Some (ErrWrap err ''failed to read verify response body in HandlePlonky2''), w)
            | (Inr body, w) \<Rightarrow> (case UnmarshalVerifyReply J body of
              Inl err \<Rightarrow> (Some (ErrWrap err ''failed to unmarshal verify reply in HandlePlonky2''), w)
            | Inr reply \<Rightarrow> (None, w))))))
         else (None, w))))))"

section \<open>What a handler sends\<close>

text \<open>
  The handlers as one function of what differs: \<open>first\<close> is the marshalled request and \<open>took\<close>
  reads \<open>IsSubmitted\<close> from the reply. Error texts are given by \<open>msg\<close>.
\<close>

definition post_json ::
  "('w, 'r) http_lib \<Rightarrow> http_client \<Rightarrow> string \<Rightarrow> error + bytes \<Rightarrow> (nat \<Rightarrow> string) \<Rightarrow> 'w \<Rightarrow> (error + bytes) \<times> 'w"
where
  "post_json H cli uri data msg w =
    (case data of Inl err \<Rightarrow> (Inl (ErrWrap err (msg 0)), w)
     | Inr d \<Rightarrow> (case NewRequest H uri d of Inl err \<Rightarrow> (Inl (ErrWrap err (msg 1)), w)
     | Inr req \<Rightarrow> (case Do H cli req w of (Inl err, w) \<Rightarrow> (Inl (ErrWrap err (msg 2)), w)
     | (Inr resp, w) \<Rightarrow> (case ReadAll H resp w of (Inl err, w) \<Rightarrow> (Inl (ErrWrap err (msg 3)), w)
     | (Inr body, w) \<Rightarrow> (Inr body, w)))))"

definition verify_exchange ::
  "('w, 'r) http_lib \<Rightarrow> handler_json \<Rightarrow> endpoint_requester \<Rightarrow> string \<Rightarrow> error + bytes \<Rightarrow>
    (bytes \<Rightarrow> error + bool) \<Rightarrow> verify_request_args \<Rightarrow> (nat \<Rightarrow> string) \<Rightarrow> 'w \<Rightarrow> error option \<times> 'w"
where
  "verify_exchange H J er ep first took vargs msg w =
    (case post_json H (Cli er) (Uri er @ ep) first msg w of
       (Inl err, w) \<Rightarrow> (Some err, w)
     | (Inr body, w) \<Rightarrow> (case took body of Inl err \<Rightarrow> (Some (ErrWrap err (msg 4)), w)
     | Inr False \<Rightarrow> (None, w)
     | Inr True \<Rightarrow>
         (case post_json H (Cli er) (Uri er @ VERIFYENDPOINT) (MarshalVerify J vargs) (\<lambda>i. msg (5 + i)) w of
            (Inl err, w) \<Rightarrow> (Some err, w)
          | (Inr body, w) \<Rightarrow> (case UnmarshalVerifyReply J body of
              Inl err \<Rightarrow> (Some (ErrWrap err (msg 9)), w) | Inr reply \<Rightarrow> (None, w)))))"

definition post_request :: "string \<Rightarrow> bytes \<Rightarrow> http_request" where
  "post_request u d = \<lparr>req_method = ''POST'', req_url = u,
    req_header = [''Content-Type'' \<mapsto> ''application/json''], req_body = d\<rparr>"

text \<open>
  What an exchange sends, given what came back: nothing when the first request cannot be made
  into JSON; otherwise the first request, and after it, exactly when a body came back in which
  the service says that it took the submission, the request to verify it.
\<close>

definition exchange_log ::
  "handler_json \<Rightarrow> endpoint_requester \<Rightarrow> string \<Rightarrow> error + bytes \<Rightarrow> (bytes \<Rightarrow> error + bool) \<Rightarrow> verify_request_args \<Rightarrow>
    (http_request \<times> bytes option) list \<Rightarrow> bool"
where
  "exchange_log J er ep first took vargs tr \<longleftrightarrow>
    (case first of
       Inl e \<Rightarrow> tr = []
     | Inr d \<Rightarrow> (\<exists>a rest. tr = (post_request (Uri er @ ep) d, a) # rest \<and>
         (if \<exists>b. a = Some b \<and> took b = Inr True
          then (case MarshalVerify J vargs of
                  Inl e \<Rightarrow> rest = []
                | Inr v \<Rightarrow> \<exists>a'. rest = [(post_request (Uri er @ VERIFYENDPOINT) v, a')])
          else rest = [])))"

text \<open>A URL is usable when \<open>net/http\<close> makes a request to it.\<close>

definition usable :: "('w, 'r) http_lib \<Rightarrow> endpoint_requester \<Rightarrow> bool" where
  "usable H er \<longleftrightarrow> (\<forall>ep d. \<exists>r. NewHTTPRequest H ''POST'' (Uri er @ ep) d = Inr r)"

context http_service
begin

lemma NewRequest_usable:
  assumes "usable H er"
  shows "NewRequest H (Uri er @ ep) d = Inr (post_request (Uri er @ ep) d)"
proof -
  obtain r where r: "NewHTTPRequest H ''POST'' (Uri er @ ep) d = Inr r"
    using assms unfolding usable_def by blast
  with NewHTTPRequest_fields [OF r] show ?thesis
    by (simp add: NewRequest_def post_request_def Header_Set_def)
qed

lemma post_json_trace:
  assumes "usable H er" "post_json H cli (Uri er @ ep) (Inr d) msg w = (r, w')"
  shows "\<exists>a. trace w' = trace w @ [(post_request (Uri er @ ep) d, a)] \<and>
    (case a of None \<Rightarrow> \<exists>e. r = Inl e | Some b \<Rightarrow> r = Inr b)"
  using assms(2)
  by (auto simp: post_json_def NewRequest_usable [OF assms(1)] split: sum.splits prod.splits
      dest: Do_failed Do_answered)

lemma exchange_traced:
  assumes "usable H er" "verify_exchange H J er ep first took vargs msg w = (e, w')"
  shows "\<exists>tr. trace w' = trace w @ tr \<and> exchange_log J er ep first took vargs tr"
proof (cases first)
  case (Inl x)
  then show ?thesis
    using assms(2) by (auto simp: verify_exchange_def post_json_def exchange_log_def)
next
  case (Inr d)
  obtain r1 w1 where p1: "post_json H (Cli er) (Uri er @ ep) (Inr d) msg w = (r1, w1)"
    by (rule prod.exhaust)
  obtain a where a: "trace w1 = trace w @ [(post_request (Uri er @ ep) d, a)]"
    "case a of None \<Rightarrow> \<exists>e. r1 = Inl e | Some b \<Rightarrow> r1 = Inr b"
    using post_json_trace [OF assms(1) p1] by blast
  show ?thesis
  proof (cases "\<exists>b. a = Some b \<and> took b = Inr True")
    case False
    then have "w' = w1"
      using assms(2) p1 a(2) Inr by (auto simp: verify_exchange_def split: sum.splits bool.splits option.splits)
    with a(1) Inr False show ?thesis
      by (intro exI [of _ "[(post_request (Uri er @ ep) d, a)]"]) (auto simp: exchange_log_def)
  next
    case True
    then obtain b where b: "a = Some b" "r1 = Inr b" "took b = Inr True"
      using a(2) by auto
    obtain r2 w2 where p2: "post_json H (Cli er) (Uri er @ VERIFYENDPOINT) (MarshalVerify J vargs)
        (\<lambda>i. msg (5 + i)) w1 = (r2, w2)"
      by (rule prod.exhaust)
    have w': "w' = w2"
      using assms(2) p1 p2 b Inr by (auto simp: verify_exchange_def split: sum.splits)
    show ?thesis
    proof (cases "MarshalVerify J vargs")
      case (Inl x)
      then have "w2 = w1" using p2 by (auto simp: post_json_def)
      with a(1) Inr Inl b w' show ?thesis
        by (intro exI [of _ "[(post_request (Uri er @ ep) d, a)]"]) (simp add: exchange_log_def)
    next
      case v: (Inr v)
      obtain a' where "trace w2 = trace w1 @ [(post_request (Uri er @ VERIFYENDPOINT) v, a')]"
        using post_json_trace [OF assms(1) p2 [unfolded v]] by blast
      with a(1) Inr v b w' show ?thesis
        by (intro exI [of _ "[(post_request (Uri er @ ep) d, a), (post_request (Uri er @ VERIFYENDPOINT) v, a')]"])
          (simp add: exchange_log_def)
    qed
  qed
qed

end

section \<open>The five handlers are exchanges\<close>

lemma case_post_json:
  "(case post_json H cli u data msg w of (Inl err, w) \<Rightarrow> f err w | (Inr b, w) \<Rightarrow> g b w) =
    (case data of Inl err \<Rightarrow> f (ErrWrap err (msg 0)) w
     | Inr d \<Rightarrow> (case NewRequest H u d of Inl err \<Rightarrow> f (ErrWrap err (msg 1)) w
     | Inr req \<Rightarrow> (case Do H cli req w of (Inl err, w) \<Rightarrow> f (ErrWrap err (msg 2)) w
     | (Inr resp, w) \<Rightarrow> (case ReadAll H resp w of (Inl err, w) \<Rightarrow> f (ErrWrap err (msg 3)) w
     | (Inr body, w) \<Rightarrow> g body w))))"
  by (simp add: post_json_def split: sum.split prod.split)

lemma case_submitted:
  "(case (case x of Inl e \<Rightarrow> Inl e | Inr r \<Rightarrow> Inr (p r)) of Inl err \<Rightarrow> f err | Inr False \<Rightarrow> no | Inr True \<Rightarrow> yes) =
    (case x of Inl err \<Rightarrow> f err | Inr r \<Rightarrow> if p r then yes else no)"
  by (simp split: sum.split)

definition sp1_first ::
  "handler_json \<Rightarrow> id_text \<Rightarrow> ID \<Rightarrow> ID \<Rightarrow> u16 \<Rightarrow> string \<Rightarrow> error + bytes" where
  "sp1_first J X txID imageID proofValType baseDir = MarshalSP1 J
    \<lparr>SP1Request_TxID = ID_String X txID,
     SP1Request_ELFFilePath = baseDir @ ''/'' @ DeployKey (ID_Hex X) imageID elfValType,
     SP1Request_ProofFilePath = baseDir @ ''/'' @ DeployKey (ID_Hex X) imageID proofValType\<rparr>"

lemma HandleSP1_exchange:
  "\<exists>msg. HandleSP1 H J X txID imageID proofValType baseDir er w =
    verify_exchange H J er SP1ENDPOINT (sp1_first J X txID imageID proofValType baseDir)
      (\<lambda>b. case UnmarshalSP1Reply J b of Inl e \<Rightarrow> Inl e | Inr r \<Rightarrow> Inr (SP1Reply_IsSubmitted r))
      \<lparr>VerifyRequest_TxID = ID_String X txID, VerifyRequest_VerifyType = SP1VERIFY\<rparr> msg w"
  by (rule exI [of _ "\<lambda>i. [''failed to marshal sp1 request args'', ''failed to create new request in HandleSP1'',
      ''failed to do request in HandleSP1'', ''failed to read response body in HandleSP1'', ''failed to unmarshal json in HandleSP1'',
      ''failed to marshal verify request args in HandleSP1'', ''failed to create new verify request in HandleSP1'',
      ''failed to do verify request in HandleSP1'', ''failed to read verify response body in HandleSP1'',
      ''failed to unmarshal verify reply in HandleSP1''] ! i"])
    (simp add: HandleSP1_def sp1_first_def verify_exchange_def case_post_json case_submitted Let_def
      cong del: sum.case_cong_weak if_weak_cong)

definition risczero_first ::
  "handler_json \<Rightarrow> id_text \<Rightarrow> ID \<Rightarrow> ID \<Rightarrow> u16 \<Rightarrow> string \<Rightarrow> string \<Rightarrow> error + bytes" where
  "risczero_first J X txID imageID proofValType RiscZeroImageID baseDir = MarshalRiscZero J
    \<lparr>RiscZeroRequest_TxID = ID_String X txID,
     RiscZeroRequest_RiscZeroImageID = RiscZeroImageID,
     RiscZeroRequest_ProofFilePath = baseDir @ ''/'' @ DeployKey (ID_Hex X) imageID proofValType\<rparr>"

lemma HandleRiscZero_exchange:
  "\<exists>msg. HandleRiscZero H J X txID imageID proofValType RiscZeroImageID baseDir er w =
    verify_exchange H J er RISCZEROENDPOINT (risczero_first J X txID imageID proofValType RiscZeroImageID baseDir)
      (\<lambda>b. case UnmarshalRiscZeroReply J b of Inl e \<Rightarrow> Inl e | Inr r \<Rightarrow> Inr (RiscZeroReply_IsSubmitted r))
      \<lparr>VerifyRequest_TxID = ID_String X txID, VerifyRequest_VerifyType = RISCZEROVERFIY\<rparr> msg w"
  by (rule exI [of _ "\<lambda>i. [''failed to marshal risczero request args'', ''failed to create new request in HandleRiscZero'',
      ''failed to do request in HandleRiscZero'', ''failed to read response body in HandleRiscZero'', ''failed to unmarshal risczero reply'',
      ''failed to marshal verify request args in HandleRiscZero'', ''failed to create new verify request in HandleRiscZero'',
      ''failed to do verify request in HandleRiscZero'', ''failed to read verify response body in HandleRiscZero'',
      ''failed to unmarshal verify reply in HandleRiscZero''] ! i"])
    (simp add: HandleRiscZero_def risczero_first_def verify_exchange_def case_post_json case_submitted Let_def
      cong del: sum.case_cong_weak if_weak_cong)

definition miden_first ::
  "handler_json \<Rightarrow> id_text \<Rightarrow> ID \<Rightarrow> ID \<Rightarrow> u16 \<Rightarrow> string \<Rightarrow> string \<Rightarrow> string \<Rightarrow> string \<Rightarrow> error + bytes" where
  "miden_first J X txID imageID proofValType codeFrontEnd inputsFrontEnd outputsFrontEnd baseDir = MarshalMiden J
    \<lparr>MidenRequest_TxID = ID_String X txID,
     MidenRequest_CodeFrontEnd = codeFrontEnd,
     MidenRequest_InputsFrontEnd = inputsFrontEnd,
     MidenRequest_OutputsFrontEnd = outputsFrontEnd,
     MidenRequest_ProofFilePath = baseDir @ ''/'' @ DeployKey (ID_Hex X) imageID proofValType\<rparr>"

lemma HandleMiden_exchange:
  "\<exists>msg. HandleMiden H J X txID imageID proofValType codeFrontEnd inputsFrontEnd outputsFrontEnd baseDir er w =
    verify_exchange H J er MIDENENDPOINT (miden_first J X txID imageID proofValType codeFrontEnd inputsFrontEnd outputsFrontEnd baseDir)
      (\<lambda>b. case UnmarshalMidenReply J b of Inl e \<Rightarrow> Inl e | Inr r \<Rightarrow> Inr (MidenReply_IsSubmitted r))
      \<lparr>VerifyRequest_TxID = ID_String X txID, VerifyRequest_VerifyType = MIDENVERIFY\<rparr> msg w"
  by (rule exI [of _ "\<lambda>i. [''failed to marshal miden request args'', ''failed to create new request in HandleMiden'',
      ''failed to do request in HandleMiden'', ''failed to read response body in HandleMiden'', ''failed to unmarshal miden reply'',
      ''failed to marshal verify request args in HandleMiden'', ''failed to create new verify request in HandleMiden'',
      ''failed to do verify request in HandleMiden'', ''failed to read verify response body in HandleMiden'',
      ''failed to unmarshal verify reply in HandleMiden''] ! i"])
    (simp add: HandleMiden_def miden_first_def verify_exchange_def case_post_json case_submitted Let_def
      cong del: sum.case_cong_weak if_weak_cong)

definition jolt_first ::
  "handler_json \<Rightarrow> id_text \<Rightarrow> ID \<Rightarrow> ID \<Rightarrow> u16 \<Rightarrow> string \<Rightarrow> error + bytes" where
  "jolt_first J X txID imageID proofValType baseDir = MarshalJolt J
    \<lparr>JoltRequest_TxID = ID_String X txID,
     JoltRequest_ELFFilePath = baseDir @ ''/'' @ DeployKey (ID_Hex X) imageID elfValType,
     JoltRequest_ProofFilePath = baseDir @ ''/'' @ DeployKey (ID_Hex X) imageID proofValType\<rparr>"

lemma HandleJolt_exchange:
  "\<exists>msg. HandleJolt H J X txID imageID proofValType baseDir er w =
    verify_exchange H J er JOLTENDPOINT (jolt_first J X txID imageID proofValType baseDir)
      (\<lambda>b. case UnmarshalJoltReply J b of Inl e \<Rightarrow> Inl e | Inr r \<Rightarrow> Inr (JoltReply_IsSubmitted r))
      \<lparr>VerifyRequest_TxID = ID_String X txID, VerifyRequest_VerifyType = JOLTVERIFY\<rparr> msg w"
  by (rule exI [of _ "\<lambda>i. [''failed to marshal jolt request args'', ''failed to create new request in Handle Jolt'',
      ''failed to do request in Handle Jolt'', ''failed to read response body in Handle Jolt'', ''failed to unmarshal json in Handle Jolt'',
      ''failed to marshal verify request args in Handle Jolt'', ''failed to create new verify request in Handle Jolt'',
      ''failed to do verify request in Handle Jolt'', ''failed to read verify response body in Handle Jolt'',
      ''failed to unmarshal verify reply in Handle Jolt''] ! i"])
    (simp add: HandleJolt_def jolt_first_def verify_exchange_def case_post_json case_submitted Let_def
      cong del: sum.case_cong_weak if_weak_cong)

definition plonky2_first ::
  "handler_json \<Rightarrow> id_text \<Rightarrow> ID \<Rightarrow> ID \<Rightarrow> u16 \<Rightarrow> u16 \<Rightarrow> u16 \<Rightarrow> string \<Rightarrow> error + bytes" where
  "plonky2_first J X txID imageID proofValType commonDataValType verifierDataValType baseDir = MarshalPlonky2 J
    \<lparr>Plonky2Request_TxID = ID_String X txID,
     Plonky2Request_ProofFilePath = baseDir @ ''/'' @ DeployKey (ID_Hex X) imageID proofValType,
     Plonky2Request_CommonDataFilePath = baseDir @ ''/'' @ DeployKey (ID_Hex X) imageID commonDataValType,
     Plonky2Request_VerifierDataFilePath = baseDir @ ''/'' @ DeployKey (ID_Hex X) imageID verifierDataValType\<rparr>"

lemma HandlePlonky2_exchange:
  "\<exists>msg. HandlePlonky2 H J X txID imageID proofValType commonDataValType verifierDataValType baseDir er w =
    verify_exchange H J er PLONKY2ENDPOINT (plonky2_first J X txID imageID proofValType commonDataValType verifierDataValType baseDir)
      (\<lambda>b. case UnmarshalPlonky2Reply J b of Inl e \<Rightarrow> Inl e | Inr r \<Rightarrow> Inr (Plonky2Reply_IsSubmitted r))
      \<lparr>VerifyRequest_TxID = ID_String X txID, VerifyRequest_VerifyType = PLONKY2VERIFY\<rparr> msg w"
  by (rule exI [of _ "\<lambda>i. [''failed to marshal plonky2 request args'', ''failed to create new request in HandlePlonky2'',
      ''failed to do request in HandlePlonky2'', ''failed to read response body in HandlePlonky2'', ''failed to unmarshal json in HandlePlonky2'',
      ''failed to marshal verify request args in HandlePlonky2'', ''failed to create new verify request in HandlePlonky2'',
      ''failed to do verify request in HandlePlonky2'', ''failed to read verify response body in HandlePlonky2'',
      ''failed to unmarshal verify reply in HandlePlonky2''] ! i"])
    (simp add: HandlePlonky2_def plonky2_first_def verify_exchange_def case_post_json case_submitted Let_def
      cong del: sum.case_cong_weak if_weak_cong)

end
