(* ===== verification/Chain.thy ===== *)
theory Chain
  imports Registry
begin

text \<open>
  The chain: transactions with the actions of the registry, executed one after the other. Each
  sees the keys it declares, and its changes are discarded when it fails, as hypersdk does
  with the results of \<open>Execute\<close>; fees are charged around the execution and are not part of
  it. \<open>step_safe\<close> collects what one transaction keeps, from the contracts of the actions.
\<close>

section \<open>Transactions\<close>

record ('bf, 'k) transaction =
  Tx_action :: action
  Tx_actor :: address
  Tx_id :: ID
  Tx_time :: i64
  Tx_rules :: "('bf, 'k) rules"

definition run_transaction ::
  "math64 \<Rightarrow> ('k, 'g, 'sk) bls_lib \<Rightarrow> 'm warp_lib \<Rightarrow> (bytes set \<Rightarrow> 's mutable) \<Rightarrow> ('bf, 'k) transaction \<Rightarrow> 's \<Rightarrow>
    (exec_result \<times> 's) go" where
  "run_transaction A L W M t s =
    do { (res, s') \<leftarrow> Action_Execute A L W (Tx_rules t)
           (M (Action_StateKeys (Tx_action t) (Tx_actor t) (Tx_id t)))
           (Tx_action t) s (Tx_time t) (Tx_actor t) (Tx_id t);
         Some (res, if success res then s' else s) }"

fun run_chain ::
  "math64 \<Rightarrow> ('k, 'g, 'sk) bls_lib \<Rightarrow> 'm warp_lib \<Rightarrow> (bytes set \<Rightarrow> 's mutable) \<Rightarrow> ('bf, 'k) transaction list \<Rightarrow>
    's \<Rightarrow> 's go" where
  "run_chain A L W M [] s = Some s"
| "run_chain A L W M (t # ts) s =
    do { (_, s) \<leftarrow> run_transaction A L W M t s; run_chain A L W M ts s }"

fun_cases run_chain_Nil: "run_chain A L W M [] s = Some s'"
fun_cases run_chain_Cons: "run_chain A L W M (t # ts) s = Some s'"

text \<open>
  Who a transaction can pay or be paid by, and the votes whose transaction names itself, which
  a hash over the transaction excludes.
\<close>

fun participants :: "action \<Rightarrow> address \<Rightarrow> address set" where
  "participants (ActionTransfer t) actor = {actor, Transfer_To t}"
| "participants a actor = {}"

lemma finite_participants [simp]: "finite (participants a actor)"
  by (cases a) simp_all

fun names_itself :: "action \<Rightarrow> ID \<Rightarrow> bool" where
  "names_itself (ActionValidatorVote v) tx \<longleftrightarrow> Vote_TxID v = tx"
| "names_itself a tx \<longleftrightarrow> False"

fun action_timeout :: "action \<Rightarrow> u64 option" where
  "action_timeout (ActionSP1 a) = Some (SP1_TimeOutBlocks a)"
| "action_timeout (ActionRiscZero a) = Some (RiscZero_TimeOutBlocks a)"
| "action_timeout (ActionMiden a) = Some (Miden_TimeOutBlocks a)"
| "action_timeout (ActionJolt a) = Some (Jolt_TimeOutBlocks a)"
| "action_timeout (ActionPLONKY2 a) = Some (PLONKY2_TimeOutBlocks a)"
| "action_timeout a = None"

section \<open>What a transaction keeps\<close>

lemma account_frame: "(\<And>a. m' (BalanceKey a) = m (BalanceKey a)) \<Longrightarrow> account m' = account m"
  by (simp add: account_def fun_eq_iff)

lemma status_frame: "(\<And>i. m' (StatusKey i) = m (StatusKey i)) \<Longrightarrow> status_set m' = status_set m"
  by (simp add: status_set_def fun_eq_iff)

lemma cast_vote_frame:
  "cast_vote scope v actor w m (BalanceKey a) = m (BalanceKey a)"
  by (simp add: cast_vote_def add_weight_def split: option.split)

lemma cast_vote_status:
  "StatusKey (Vote_TxID v) \<notin> scope \<Longrightarrow> cast_vote scope v actor w m (StatusKey i) = m (StatusKey i)"
  by (simp add: cast_vote_def add_weight_def split: option.split)

lemma wf_balances_frame: "(\<And>a. m' (BalanceKey a) = m (BalanceKey a)) \<Longrightarrow> wf_balances m' = wf_balances m"
  by (simp add: wf_balances_def)

text \<open>
  A transaction sees the state through the keys of its action and, as the one who pays,
  through the keys of balances.
\<close>

definition covers :: "bytes set \<Rightarrow> state_keys \<Rightarrow> bool" where
  "covers scope keys \<longleftrightarrow> keys \<subseteq> scope \<and> scope - keys \<subseteq> range BalanceKey"

lemma covers_refl [simp]: "covers keys keys"
  by (simp add: covers_def)

lemma covers_sponsor [simp]: "covers (keys \<union> SponsorStateKeys a) keys"
  by (auto simp: covers_def SponsorStateKeys_def)

lemma covers_subset: "covers scope keys \<Longrightarrow> keys \<subseteq> scope"
  by (simp add: covers_def)

lemma covers_status: "covers scope keys \<Longrightarrow> StatusKey i \<in> scope \<longleftrightarrow> StatusKey i \<in> keys"
  by (auto simp: covers_def)

text \<open>
  \<open>keeps S m m'\<close>: from \<open>m\<close> to \<open>m'\<close> the shape of the state, the supply on \<open>S\<close> and the status
  entry of every verification are kept.
\<close>

definition keeps :: "address set \<Rightarrow> (bytes \<rightharpoonup> bytes) \<Rightarrow> (bytes \<rightharpoonup> bytes) \<Rightarrow> bool" where
  "keeps S m m' \<longleftrightarrow> wf_state m' \<and> total_on S (account m') = total_on S (account m) \<and>
    (\<forall>i. m' (StatusKey i) = m (StatusKey i))"

lemma keeps_status: "keeps S m m' \<Longrightarrow> status_set m' = status_set m"
  unfolding keeps_def by (intro status_frame) blast

lemma keeps_refl: "wf_state m \<Longrightarrow> keeps S m m"
  by (simp add: keeps_def)

lemma keeps_trans: "keeps S m m' \<Longrightarrow> keeps S m' m'' \<Longrightarrow> keeps S m m''"
  by (simp add: keeps_def)

lemma declared_action_keeps:
  assumes "declared_action keys exec maxUnits" "state_view M kv scope" "wf_state (kv s)"
    and "\<And>b. BalanceKey b \<notin> keys a actor tx" "\<And>i. StatusKey i \<notin> keys a actor tx"
  shows "\<exists>res s'. exec M a s ts actor tx = Some (res, s') \<and> units res \<le> maxUnits \<and>
    (success res \<longrightarrow> keeps S (kv s) (kv s'))"
proof -
  obtain res s' where run: "exec M a s ts actor tx = Some (res, s')" and wf: "wf_state (kv s')"
    using declared_action.returns [OF assms(1-3)] by blast
  note frame = declared_action.footprint [OF assms(1,2) run]
  have "account (kv s') = account (kv s)"
    by (rule account_frame) (rule frame [OF assms(4)])
  moreover have "kv s' (StatusKey i) = kv s (StatusKey i)" for i
    by (rule frame [OF assms(5)])
  ultimately show ?thesis
    using run wf declared_action.bounded [OF assms(1) run]
    by (intro exI [of _ res] exI [of _ s']) (simp add: keeps_def)
qed

lemma Transfer_keeps:
  assumes "state_view M kv scope" "covers scope (Transfer_StateKeys t actor tx)" "checked_math A" "wf_state (kv s)"
    and "finite S" "actor \<in> S" "Transfer_To t \<in> S"
  shows "\<exists>res s'. Transfer_Execute A M t s ts actor tx = Some (res, s') \<and> units res \<le> Transfer_MaxComputeUnits \<and>
    (success res \<longrightarrow> keeps S (kv s) (kv s'))"
proof -
  have "wf_balances (kv s)"
    using assms(4) by (simp add: wf_state_def)
  from Transfer_eval [OF assms(1,3) this covers_subset [OF assms(2)]]
  obtain res s' where run: "Transfer_Execute A M t s ts actor tx = Some (res, s')" and spec:
    "success res \<longleftrightarrow> transfer_fits (account (kv s)) actor (Transfer_To t) (Transfer_Value t)"
    "success res \<longrightarrow> account (kv s') = move (account (kv s)) actor (Transfer_To t) (Transfer_Value t)"
    by blast
  have "wf_state (kv s')"
    using state_view.Transfer_returns [OF assms(1,4), of A t ts actor tx] run by auto
  moreover have "kv s' (StatusKey i) = kv s (StatusKey i)" for i
    by (rule state_view.Transfer_footprint [OF assms(1) run]) (simp add: Transfer_StateKeys_def)
  ultimately show ?thesis
    using run spec move_total [OF assms(5-7)] Transfer_bounded [OF run] by (auto simp: keeps_def)
qed

lemma Vote_keeps:
  assumes "state_view M kv scope" "covers scope (ValidatorVote_StateKeys v actor tx)" "checked_math A" "wf_state (kv s)"
    and "tx \<noteq> Vote_TxID v"
  shows "\<exists>res s'. ValidatorVote_Execute A L W r M v s ts actor tx = Some (res, s') \<and>
    units res \<le> ValidatorVote_MaxComputeUnits \<and> (success res \<longrightarrow> keeps S (kv s) (kv s'))"
proof -
  have keys: "vote_keys v actor \<subseteq> scope" "StatusKey (Vote_TxID v) \<notin> scope"
    using covers_subset [OF assms(2)] covers_status [OF assms(2)] assms(5)
    by (auto simp: vote_keys_def ValidatorVote_StateKeys_def)
  have wf: "wf_verify (kv s)" "wf_balances (kv s)"
    using assms(4) by (simp_all add: wf_state_def)
  obtain res s' where run: "ValidatorVote_Execute A L W r M v s ts actor tx = Some (res, s')" "wf_verify (kv s')"
    and spec: "case vote_outcome L W r v ts actor (kv s) of Rejected \<Rightarrow> \<not> success res | Ignored \<Rightarrow> success res \<and> s' = s
     | Counted w \<Rightarrow> success res \<and> kv s' = cast_vote scope v actor w (kv s)"
    using state_view.ValidatorVote_eval [OF assms(1,3) wf(1) keys(1), of L W r ts tx] by blast
  have "keeps S (kv s) (kv s')" if "success res"
  proof (cases "vote_outcome L W r v ts actor (kv s)")
    case (Counted w)
    with spec have s': "kv s' = cast_vote scope v actor w (kv s)" by simp
    have "account (kv s') = account (kv s)"
      unfolding s' by (rule account_frame) (rule cast_vote_frame)
    moreover have "wf_balances (kv s') = wf_balances (kv s)"
      unfolding s' by (rule wf_balances_frame) (rule cast_vote_frame)
    moreover have "kv s' (StatusKey i) = kv s (StatusKey i)" for i
      unfolding s' by (rule cast_vote_status [OF keys(2)])
    ultimately show ?thesis
      using run(2) wf by (simp add: keeps_def wf_state_def)
  qed (use that spec assms(4) keeps_refl in auto)
  with run(1) ValidatorVote_bounded [OF run(1)] show ?thesis
    by (intro exI [of _ res] exI [of _ s']) simp
qed

lemmas other_actions_keep =
  declared_action_keeps [OF register.declared_action_axioms]
  declared_action_keeps [OF register_image.declared_action_axioms]
  declared_action_keeps [OF sp1.action.declared_action_axioms]
  declared_action_keeps [OF risc_zero.action.declared_action_axioms]
  declared_action_keeps [OF miden.action.declared_action_axioms]
  declared_action_keeps [OF jolt.action.declared_action_axioms]
  declared_action_keeps [OF plonky2.action.declared_action_axioms]

lemmas other_keys = Register_StateKeys_def RegisterImage_StateKeys_def SP1_StateKeys_def
  RiscZero_StateKeys_def Miden_StateKeys_def Jolt_StateKeys_def PLONKY2_StateKeys_def

lemma Action_keeps:
  assumes view: "state_view M kv scope" and "covers scope (Action_StateKeys a actor tx)" "checked_math A" "wf_state (kv s)"
    and "finite S" "participants a actor \<subseteq> S" "\<not> names_itself a tx"
  shows "\<exists>res s'. Action_Execute A L W r M a s ts actor tx = Some (res, s') \<and>
    units res \<le> Action_MaxComputeUnits a \<and> (success res \<longrightarrow> keeps S (kv s) (kv s'))"
proof (cases a)
  case (ActionTransfer t)
  with Transfer_keeps [OF assms(1) _ assms(3-5), of t actor tx ts] assms(2,6) show ?thesis by simp
next
  case (ActionValidatorVote v)
  with assms(2,7) have "covers scope (ValidatorVote_StateKeys v actor tx)" "tx \<noteq> Vote_TxID v" by auto
  from Vote_keeps [OF assms(1) this(1) assms(3,4) this(2), where L = L and W = W and r = r and ts = ts and S = S]
    ActionValidatorVote show ?thesis by simp
next
  case (ActionRegister x)
  with other_actions_keep(1) [OF view assms(4), where a = x and actor = actor and tx = tx and ts = ts and S = S]
  show ?thesis by (simp add: other_keys)
next
  case (ActionRegisterImage x)
  with other_actions_keep(2) [OF view assms(4), where a = x and actor = actor and tx = tx and ts = ts and S = S]
  show ?thesis by (simp add: other_keys)
next
  case (ActionSP1 x)
  with other_actions_keep(3) [OF view assms(4), where a = x and actor = actor and tx = tx and ts = ts and S = S]
  show ?thesis by (simp add: other_keys)
next
  case (ActionRiscZero x)
  with other_actions_keep(4) [OF view assms(4), where a = x and actor = actor and tx = tx and ts = ts and S = S]
  show ?thesis by (simp add: other_keys)
next
  case (ActionMiden x)
  with other_actions_keep(5) [OF view assms(4), where a = x and actor = actor and tx = tx and ts = ts and S = S]
  show ?thesis by (simp add: other_keys)
next
  case (ActionJolt x)
  with other_actions_keep(6) [OF view assms(4), where a = x and actor = actor and tx = tx and ts = ts and S = S]
  show ?thesis by (simp add: other_keys)
next
  case (ActionPLONKY2 x)
  with other_actions_keep(7) [OF view assms(4), where a = x and actor = actor and tx = tx and ts = ts and S = S]
  show ?thesis by (simp add: other_keys)
qed

lemma run_chain_keeps:
  assumes "\<And>keys. state_view (M keys) kv keys" "checked_math A" "finite S"
    and "\<forall>t \<in> set ts. participants (Tx_action t) (Tx_actor t) \<subseteq> S \<and> \<not> names_itself (Tx_action t) (Tx_id t)"
    and "wf_state (kv s)"
  shows "\<exists>s'. run_chain A L W M ts s = Some s' \<and> keeps S (kv s) (kv s')"
  using assms(4,5)
proof (induction ts arbitrary: s)
  case Nil
  then show ?case by (simp add: keeps_refl)
next
  case (Cons t ts)
  obtain res s1 where s1: "Action_Execute A L W (Tx_rules t) (M (Action_StateKeys (Tx_action t) (Tx_actor t) (Tx_id t)))
      (Tx_action t) s (Tx_time t) (Tx_actor t) (Tx_id t) = Some (res, s1)"
    "success res \<longrightarrow> keeps S (kv s) (kv s1)"
    using Action_keeps [OF assms(1) covers_refl assms(2) Cons.prems(2) assms(3), of "Tx_action t" "Tx_actor t" "Tx_id t"]
      Cons.prems(1) by (simp, blast)
  let ?s = "if success res then s1 else s"
  have keep: "keeps S (kv s) (kv ?s)"
    using s1(2) Cons.prems(2) keeps_refl by simp
  then obtain s' where "run_chain A L W M ts ?s = Some s'" "keeps S (kv ?s) (kv s')"
    using Cons.IH [of ?s] Cons.prems(1) by (auto simp: keeps_def)
  with s1(1) keeps_trans [OF keep] show ?case
    by (auto simp: run_transaction_def)
qed

text \<open>What a genesis that loads leaves, for the chain that starts from it.\<close>

lemma genesis_facts:
  assumes "\<And>keys. state_view (M keys) kv keys" "checked_math A"
    and "\<And>al a. Some al \<in> set (CustomAllocation g) \<Longrightarrow> parse HRP (CustomAllocation_Address al) = Inr a \<Longrightarrow>
      BalanceKey a \<in> scope"
    and "kv s0 = Map.empty" "Load A B parse (M scope) g s0 = Some (None, s)"
    and "finite S" "set (parsed_addresses parse (CustomAllocation g)) \<subseteq> S"
  shows "wf_state (kv s)"
    and "distinct (parsed_addresses parse (CustomAllocation g)) \<Longrightarrow>
      total_on S (account (kv s)) = allocation_sum (CustomAllocation g)"
    and "kv s (StatusKey i) = None"
    and "allocation_sum (CustomAllocation g) < 2 ^ 64"
proof -
  have bv: "balance_view (M scope) kv scope A"
    using assms(1,2) by (simp add: balance_view_def)
  have load: "Load_allocations A parse (M scope) 0 (CustomAllocation g) s0 = Some (None, s)"
    using assms(5) by (simp add: Load_def split: option.splits)
  have "wf_balances (kv s0)"
    by (simp add: assms(4) wf_balances_def)
  note eval = balance_view.Load_allocations_eval [OF bv assms(3) this load]
  have "wf_verify (kv s)"
    using eval by (simp add: wf_verify_def assms(4))
  with eval show "wf_state (kv s)"
    by (simp add: wf_state_def)
  show "kv s (StatusKey i) = None"
    using eval by (simp add: assms(4))
  show "allocation_sum (CustomAllocation g) < 2 ^ 64"
    using eval by (simp add: loadable_def)
  have zero: "account Map.empty = Map.empty" "total_on S (Map.empty :: address \<rightharpoonup> u64) = 0"
    by (simp_all add: account_def fun_eq_iff total_on_def)
  show "total_on S (account (kv s)) = allocation_sum (CustomAllocation g)"
    if "distinct (parsed_addresses parse (CustomAllocation g))"
  proof -
    have "loadable parse 0 (CustomAllocation g)"
      "account (kv s) = allocated parse (CustomAllocation g) Map.empty"
      using eval by (simp_all add: zero assms(4))
    with that total_allocated [OF assms(6,7), of Map.empty] show ?thesis
      by (simp add: loadable_def zero)
  qed
qed

lemma ValidatorVote_success_units:
  assumes "ValidatorVote_Execute A L W r M v s ts actor tx = Some (res, s')" "success res"
  shows "units res = ValidatorVoteComputeUnits"
proof -
  have loop: "units res = ValidatorVoteComputeUnits"
    if "vote_loop A L W r M v actor pk sig tot vdrs s = Some (res, s')" for pk sig tot vdrs s
    using that assms(2)
    by (induction vdrs arbitrary: tot s)
      (auto simp: Let_def bind_eq_Some_conv split_beta split: if_splits sum.splits option.splits)
  show ?thesis
    using assms loop
    by (auto simp: ValidatorVote_Execute_def bind_eq_Some_conv Let_def split_beta
        split: if_splits option.splits sum.splits)
qed

lemmas size_defs = Transfer_Size_def Register_Size_def RegisterImage_Size_def SP1_Size_def
  RiscZero_Size_def Miden_Size_def Jolt_Size_def PLONKY2_Size_def ValidatorVote_Size_def
  transfer_enc_def register_enc_def register_image_enc_def sp1_enc_def risc_zero_enc_def
  miden_enc_def jolt_enc_def plonky2_enc_def validator_vote_enc_def

text \<open>A submission of a proof, of any of the five systems.\<close>

lemma submission_runs:
  assumes "state_view M kv scope" "TimeOutKey tx \<in> scope" "action_timeout a = Some t"
  shows "\<exists>res s'. Action_Execute A L W r M a s ts actor tx = Some (res, s') \<and> success res \<and>
    units res \<le> Action_MaxComputeUnits a \<and> Action_StateKeys a actor tx = {TimeOutKey tx} \<and>
    kv s' = (kv s)(TimeOutKey tx \<mapsto> AppendUint64 (ts + clamp_timeout t * 1000)) \<and>
    deadline (kv s') tx = Some (ts + clamp_timeout t * 1000)"
  using assms(3)
    sp1.opens_window [OF assms(1,2)] risc_zero.opens_window [OF assms(1,2)] miden.opens_window [OF assms(1,2)]
    jolt.opens_window [OF assms(1,2)] plonky2.opens_window [OF assms(1,2)]
  by (cases a) (fastforce simp: submission_defs)+

end
