(* ===== verification/Controller.thy ===== *)
theory Controller
  imports Trustless Config Accept_Handlers Storage_Tx Auth_Batch Chain
begin

text \<open>
  The controller of the virtual machine, \<open>controller/\<close>: what a node builds when it starts
  (\<open>Controller_Initialize\<close>) and what it does with a block that was accepted
  (\<open>Controller_Accepted\<close>): queue the submissions, hand them to the verifier service, store a
  record of each transaction and count the transfers. The claims say what leaves the node for
  a block, what is stored, and what the node remembers.
\<close>

section \<open>The controller\<close>

text \<open>
  The counter of transfers is a number, the file database is its base directory; \<open>'d\<close> is the
  metadata database. Loggers and the VM behind the controller are not part of the state: what
  is asked of the VM is an argument.
\<close>

record ('f, 'bf, 'k, 'sk, 'd) controller =
  Ctl_networkID :: u32
  Ctl_chainID :: ID
  Ctl_genesis :: "'bf genesis"
  Ctl_config :: "'f config"
  Ctl_transfer :: nat
  Ctl_metaDB :: 'd
  Ctl_fileDB :: string
  Ctl_trustless :: "('k, 'sk) trustless"

record tx_result =
  Result_Success :: bool
  Result_Consumed :: dimensions
  Result_Fee :: u64

record block_tx =
  BlockTx_ID :: ID
  BlockTx_Action :: action

record block =
  Block_Txs :: "block_tx list"
  Block_Results :: "tx_result list"
  Block_Timestamp :: i64

section \<open>Starting a node\<close>

text \<open>\<open>wrappers.Errs\<close> keeps the first error of the two registrations.\<close>

definition newMetrics :: "error option \<Rightarrow> error option \<Rightarrow> nat \<times> error option" where
  "newMetrics registered gathered =
    (0, case registered of None \<Rightarrow> gathered | Some err \<Rightarrow> Some err)"

record 'k snow_context =
  Snow_NetworkID :: u32
  Snow_ChainID :: ID
  Snow_NodeID :: string
  Snow_PublicKey :: 'k

datatype builder = ManualBuilder | TimeBuilder
datatype gossiper = ManualGossiper | ProposerGossiper

record ('h, 'e) initialized =
  Init_builder :: builder
  Init_gossiper :: gossiper
  Init_blockDB :: 'e
  Init_stateDB :: 'e
  Init_apis :: "string \<rightharpoonup> 'h"
  Init_engines :: "byte \<rightharpoonup> auth_engine"

definition JSONRPCEndpoint :: string where "JSONRPCEndpoint = ''/morpheusapi''"

text \<open>
  \<open>config_New\<close> and \<open>genesis_New\<close> are \<open>Config_New\<close> and \<open>Genesis_New\<close> on their packages,
  \<open>openDBs\<close> opens the databases, \<open>newHandler\<close> and \<open>newProposer\<close> are of hypersdk; the listener
  is started as a goroutine of its own.
\<close>

definition Controller_Initialize ::
  "error option \<times> error option \<Rightarrow> (string \<Rightarrow> bytes \<Rightarrow> 'w \<Rightarrow> (error + 'f config) \<times> 'w) \<Rightarrow>
    (bytes \<Rightarrow> bytes \<Rightarrow> error + 'bf genesis) \<Rightarrow> ('w \<Rightarrow> (error + 'e \<times> string \<times> 'e \<times> 'd) \<times> 'w) \<Rightarrow>
    'sk hex_keys \<Rightarrow> (string \<Rightarrow> error + 'h) \<Rightarrow> error option \<Rightarrow> 'k snow_context \<Rightarrow> bytes \<Rightarrow> bytes \<Rightarrow> bytes \<Rightarrow>
    'w \<Rightarrow> ((error + ('f, 'bf, 'k, 'sk, 'd) controller \<times> ('h, 'e) initialized) \<times> 'w) go" where
  "Controller_Initialize registrations config_New genesis_New openDBs hexKeys newHandler newProposer
      snow genesisBytes upgradeBytes configBytes w =
    (case newMetrics (fst registrations) (snd registrations) of
       (metrics, Some err) \<Rightarrow> Some (Inl err, w)
     | (metrics, None) \<Rightarrow> (case config_New (Snow_NodeID snow) configBytes w of
       (Inl err, w) \<Rightarrow> Some (Inl err, w)
     | (Inr cfg, w) \<Rightarrow> (case genesis_New genesisBytes upgradeBytes of
       Inl err \<Rightarrow> Some (Inl (ErrWrap err ''unable to read genesis''), w)
     | Inr g \<Rightarrow> (case openDBs w of
       (Inl err, w) \<Rightarrow> Some (Inl err, w)
     | (Inr (blockDB, fileDB, stateDB, metaDB), w) \<Rightarrow>
         do { t \<leftarrow> Trustless_New hexKeys (Port cfg) (ListenerPort cfg) (Snow_PublicKey snow) (ValPrivKey cfg);
          let c = \<lparr>Ctl_networkID = Snow_NetworkID snow, Ctl_chainID = Snow_ChainID snow, Ctl_genesis = g,
                Ctl_config = cfg, Ctl_transfer = metrics, Ctl_metaDB = metaDB, Ctl_fileDB = fileDB,
                Ctl_trustless = t\<rparr>
          in case newHandler Name of
               Inl err \<Rightarrow> Some (Inl err, w)
             | Inr jsonRPCHandler \<Rightarrow>
               (let apis = [JSONRPCEndpoint \<mapsto> jsonRPCHandler]
                in if TestMode cfg
                   then Some (Inr (c, \<lparr>Init_builder = ManualBuilder, Init_gossiper = ManualGossiper,
                     Init_blockDB = blockDB, Init_stateDB = stateDB, Init_apis = apis, Init_engines = Engines\<rparr>), w)
                   else (case newProposer of
                       Some err \<Rightarrow> Some (Inl err, w)
                     | None \<Rightarrow> Some (Inr (c, \<lparr>Init_builder = TimeBuilder, Init_gossiper = ProposerGossiper,
                         Init_blockDB = blockDB, Init_stateDB = stateDB, Init_apis = apis,
                         Init_engines = Engines\<rparr>), w))) }))))"

section \<open>An accepted block\<close>

text \<open>
  The switch over the action: a submission is queued with its time-out and handed to its
  handler; an error of the handler is logged only.
\<close>

fun accept_action ::
  "('w, 'r) http_lib \<Rightarrow> handler_json \<Rightarrow> id_text \<Rightarrow> ID \<Rightarrow> string \<Rightarrow> endpoint_requester \<Rightarrow> action \<Rightarrow>
    ('k, 'sk) trustless \<Rightarrow> 'w \<Rightarrow> ('k, 'sk) trustless \<times> 'w" where
  "accept_action H J X txID baseDir client (ActionSP1 sp1) t w =
    (let (_, t) = ListenActions t txID (SP1_TimeOutBlocks sp1);
         (_, w) = HandleSP1 H J X txID (SP1_ImageID sp1) (ucast (SP1_ProofValType sp1)) baseDir client w
     in (t, w))"
| "accept_action H J X txID baseDir client (ActionRiscZero risc0) t w =
    (let (_, t) = ListenActions t txID (RiscZero_TimeOutBlocks risc0);
         (_, w) = HandleRiscZero H J X txID (RiscZero_ImageID risc0) (ucast (RiscZero_ProofValType risc0))
           (RiscZero_RiscZeroImageID risc0) baseDir client w
     in (t, w))"
| "accept_action H J X txID baseDir client (ActionMiden miden) t w =
    (let (_, t) = ListenActions t txID (Miden_TimeOutBlocks miden);
         (_, w) = HandleMiden H J X txID (Miden_ImageID miden) (ucast (Miden_ProofValType miden))
           (Miden_CodeFrontEnd miden) (Miden_InputsFrontEnd miden) (Miden_OutputsFrontEnd miden) baseDir client w
     in (t, w))"
| "accept_action H J X txID baseDir client (ActionJolt jolt) t w =
    (let (_, t) = ListenActions t txID (Jolt_TimeOutBlocks jolt);
         (_, w) = HandleJolt H J X txID (Jolt_ImageID jolt) (ucast (Jolt_ProofValType jolt)) baseDir client w
     in (t, w))"
| "accept_action H J X txID baseDir client (ActionPLONKY2 plonky2) t w =
    (let (_, t) = ListenActions t txID (PLONKY2_TimeOutBlocks plonky2);
         (_, w) = HandlePlonky2 H J X txID (PLONKY2_ImageID plonky2) (ucast (PLONKY2_ProofValType plonky2))
           (ucast (PLONKY2_CommonDataValType plonky2)) (ucast (PLONKY2_VerifierDataValType plonky2)) baseDir client w
     in (t, w))"
| "accept_action H J X txID baseDir client action t w = (t, w)"

fun is_transfer :: "action \<Rightarrow> bool" where
  "is_transfer (ActionTransfer t) = True"
| "is_transfer a = False"

text \<open>The loop over the transactions, \<open>i\<close> the index; \<open>results[i]\<close> panics when it is out of range.\<close>

fun Accepted_loop ::
  "('w, 'r) http_lib \<Rightarrow> handler_json \<Rightarrow> id_text \<Rightarrow> fees_lib \<Rightarrow> ('b, 'd) meta_db \<Rightarrow> i64 \<Rightarrow> tx_result list \<Rightarrow>
    nat \<Rightarrow> block_tx list \<Rightarrow> ('f, 'bf, 'k, 'sk, 'd) controller \<Rightarrow> 'b \<Rightarrow> 'w \<Rightarrow>
    (error option \<times> ('f, 'bf, 'k, 'sk, 'd) controller \<times> 'b \<times> 'w) go" where
  "Accepted_loop H J X F D time results i [] c wb w = Some (None, c, wb, w)"
| "Accepted_loop H J X F D time results i (tx # txs) c wb w =
    do {
      result \<leftarrow> index results i;
      let (t, w) = accept_action H J X (BlockTx_ID tx) (Ctl_fileDB c) (Client (Ctl_config c)) (BlockTx_Action tx)
            (Ctl_trustless c) w;
          c = c\<lparr>Ctl_trustless := t\<rparr>;
          (err, wb) = (if Config_GetStoreTransactions (Ctl_config c)
            then StoreTransaction F (Batch_Put D) wb (BlockTx_ID tx) time (Result_Success result)
              (Result_Consumed result) (Result_Fee result)
            else (None, wb));
          c = (if err = None \<and> Result_Success result \<and> is_transfer (BlockTx_Action tx)
            then c\<lparr>Ctl_transfer := Ctl_transfer c + 1\<rparr> else c)
      in if err \<noteq> None then Some (err, c, wb, w)
         else Accepted_loop H J X F D time results (i + 1) txs c wb w }"

definition Controller_Accepted ::
  "('w, 'r) http_lib \<Rightarrow> handler_json \<Rightarrow> id_text \<Rightarrow> fees_lib \<Rightarrow> ('b, 'd) meta_db \<Rightarrow> block \<Rightarrow>
    ('f, 'bf, 'k, 'sk, 'd) controller \<Rightarrow> 'w \<Rightarrow> (error option \<times> ('f, 'bf, 'k, 'sk, 'd) controller \<times> 'w) go" where
  "Controller_Accepted H J X F D blk c w =
    do {
      let wb = NewBatch_db D (Ctl_metaDB c);
      (err, c, wb, w) \<leftarrow> Accepted_loop H J X F D (Block_Timestamp blk) (Block_Results blk) 0 (Block_Txs blk) c wb w;
      if err \<noteq> None then Some (err, c, w)
      else (let (err, db) = Batch_Write D wb (Ctl_metaDB c) in Some (err, c\<lparr>Ctl_metaDB := db\<rparr>, w)) }"

definition Controller_Rejected :: "block \<Rightarrow> error option" where "Controller_Rejected blk = None"
definition Controller_Shutdown :: "error option" where "Controller_Shutdown = None"

section \<open>What the controller answers\<close>

definition Controller_Rules ::
  "'k current_validators \<Rightarrow> ('f, 'bf, 'k, 'sk, 'd) controller \<Rightarrow> i64 \<Rightarrow> ('bf, 'k) rules" where
  "Controller_Rules currentValidators c t =
    Genesis_Rules (Ctl_genesis c) t (Ctl_networkID c) (Ctl_chainID c) (Client (Ctl_config c)) currentValidators"

definition Controller_Genesis :: "('f, 'bf, 'k, 'sk, 'd) controller \<Rightarrow> 'bf genesis" where
  "Controller_Genesis c = Ctl_genesis c"

definition Controller_GetFileDB :: "('f, 'bf, 'k, 'sk, 'd) controller \<Rightarrow> string" where
  "Controller_GetFileDB c = Ctl_fileDB c"

definition Controller_GetTransaction ::
  "fees_lib \<Rightarrow> ('b, 'd) meta_db \<Rightarrow> ('f, 'bf, 'k, 'sk, 'd) controller \<Rightarrow> ID \<Rightarrow>
    (bool \<times> i64 \<times> bool \<times> dimensions \<times> u64 \<times> error option) go" where
  "Controller_GetTransaction F D c txID = GetTransaction F (DB_Get D) (Ctl_metaDB c) txID"

definition Controller_GetBalanceFromState :: "read_state \<Rightarrow> address \<Rightarrow> (u64 \<times> error option) go" where
  "Controller_GetBalanceFromState readState acct = GetBalanceFromState readState acct"

definition Controller_GetVerifyStatusFromState :: "read_state \<Rightarrow> ID \<Rightarrow> (bool \<times> error option) go" where
  "Controller_GetVerifyStatusFromState readState txID = GetVerifyStatusFromState readState txID"

end
