(* ===== verification/Accepted_Blocks.thy ===== *)
theory Accepted_Blocks
  imports Controller
begin

text \<open>
  What a node does with an accepted block, from the model of \<open>Controller\<close>: the locale
  \<open>accepting\<close> joins the contracts of the metadata database and the fee encoding, and gives
  the effects of the loop over the transactions in closed form; the claims read off what is
  sent and when, what is stored, what is remembered, and what a node starts with.
\<close>

section \<open>What a block does\<close>

text \<open>What the handler of an action does to the network.\<close>

fun verifier_call ::
  "('w, 'r) http_lib \<Rightarrow> handler_json \<Rightarrow> id_text \<Rightarrow> ID \<Rightarrow> string \<Rightarrow> endpoint_requester \<Rightarrow> action \<Rightarrow> 'w \<Rightarrow> 'w" where
  "verifier_call H J X i dir er (ActionSP1 a) w =
    snd (HandleSP1 H J X i (SP1_ImageID a) (ucast (SP1_ProofValType a)) dir er w)"
| "verifier_call H J X i dir er (ActionRiscZero a) w =
    snd (HandleRiscZero H J X i (RiscZero_ImageID a) (ucast (RiscZero_ProofValType a)) (RiscZero_RiscZeroImageID a) dir er w)"
| "verifier_call H J X i dir er (ActionMiden a) w =
    snd (HandleMiden H J X i (Miden_ImageID a) (ucast (Miden_ProofValType a)) (Miden_CodeFrontEnd a)
      (Miden_InputsFrontEnd a) (Miden_OutputsFrontEnd a) dir er w)"
| "verifier_call H J X i dir er (ActionJolt a) w =
    snd (HandleJolt H J X i (Jolt_ImageID a) (ucast (Jolt_ProofValType a)) dir er w)"
| "verifier_call H J X i dir er (ActionPLONKY2 a) w =
    snd (HandlePlonky2 H J X i (PLONKY2_ImageID a) (ucast (PLONKY2_ProofValType a)) (ucast (PLONKY2_CommonDataValType a))
      (ucast (PLONKY2_VerifierDataValType a)) dir er w)"
| "verifier_call H J X i dir er a w = w"

text \<open>
  The exchange that an action has with the verifier service: a submission, and the request to
  verify it when the service took it; any other action has none.
\<close>

fun action_log ::
  "handler_json \<Rightarrow> id_text \<Rightarrow> ID \<Rightarrow> string \<Rightarrow> endpoint_requester \<Rightarrow> action \<Rightarrow> (http_request \<times> bytes option) list \<Rightarrow> bool" where
  "action_log J X i dir er (ActionSP1 a) = exchange_log J er SP1ENDPOINT
    (sp1_first J X i (SP1_ImageID a) (ucast (SP1_ProofValType a)) dir)
    (\<lambda>b. case UnmarshalSP1Reply J b of Inl e \<Rightarrow> Inl e | Inr r \<Rightarrow> Inr (SP1Reply_IsSubmitted r))
    \<lparr>VerifyRequest_TxID = ID_String X i, VerifyRequest_VerifyType = SP1VERIFY\<rparr>"
| "action_log J X i dir er (ActionRiscZero a) = exchange_log J er RISCZEROENDPOINT
    (risczero_first J X i (RiscZero_ImageID a) (ucast (RiscZero_ProofValType a)) (RiscZero_RiscZeroImageID a) dir)
    (\<lambda>b. case UnmarshalRiscZeroReply J b of Inl e \<Rightarrow> Inl e | Inr r \<Rightarrow> Inr (RiscZeroReply_IsSubmitted r))
    \<lparr>VerifyRequest_TxID = ID_String X i, VerifyRequest_VerifyType = RISCZEROVERFIY\<rparr>"
| "action_log J X i dir er (ActionMiden a) = exchange_log J er MIDENENDPOINT
    (miden_first J X i (Miden_ImageID a) (ucast (Miden_ProofValType a)) (Miden_CodeFrontEnd a)
      (Miden_InputsFrontEnd a) (Miden_OutputsFrontEnd a) dir)
    (\<lambda>b. case UnmarshalMidenReply J b of Inl e \<Rightarrow> Inl e | Inr r \<Rightarrow> Inr (MidenReply_IsSubmitted r))
    \<lparr>VerifyRequest_TxID = ID_String X i, VerifyRequest_VerifyType = MIDENVERIFY\<rparr>"
| "action_log J X i dir er (ActionJolt a) = exchange_log J er JOLTENDPOINT
    (jolt_first J X i (Jolt_ImageID a) (ucast (Jolt_ProofValType a)) dir)
    (\<lambda>b. case UnmarshalJoltReply J b of Inl e \<Rightarrow> Inl e | Inr r \<Rightarrow> Inr (JoltReply_IsSubmitted r))
    \<lparr>VerifyRequest_TxID = ID_String X i, VerifyRequest_VerifyType = JOLTVERIFY\<rparr>"
| "action_log J X i dir er (ActionPLONKY2 a) = exchange_log J er PLONKY2ENDPOINT
    (plonky2_first J X i (PLONKY2_ImageID a) (ucast (PLONKY2_ProofValType a)) (ucast (PLONKY2_CommonDataValType a))
      (ucast (PLONKY2_VerifierDataValType a)) dir)
    (\<lambda>b. case UnmarshalPlonky2Reply J b of Inl e \<Rightarrow> Inl e | Inr r \<Rightarrow> Inr (Plonky2Reply_IsSubmitted r))
    \<lparr>VerifyRequest_TxID = ID_String X i, VerifyRequest_VerifyType = PLONKY2VERIFY\<rparr>"
| "action_log J X i dir er a = (\<lambda>tr. tr = [])"

definition enqueue :: "ID \<Rightarrow> action \<Rightarrow> (ID \<rightharpoonup> u64) \<Rightarrow> (ID \<rightharpoonup> u64)" where
  "enqueue i a q = (case action_timeout a of None \<Rightarrow> q | Some b \<Rightarrow> q(i \<mapsto> b))"

lemma accept_action_eq:
  "accept_action H J X i dir er a t w =
    (t\<lparr>queuedActions := enqueue i a (queuedActions t)\<rparr>, verifier_call H J X i dir er a w)"
  by (cases a) (simp_all add: ListenActions_def enqueue_def case_prod_unfold Let_def)

context http_service
begin

lemma exchange_call:
  assumes "usable H er" "\<exists>msg. p = verify_exchange H J er ep first took vargs msg w"
  shows "\<exists>tr. trace (snd p) = trace w @ tr \<and> exchange_log J er ep first took vargs tr"
  using assms exchange_traced by (metis prod.collapse)

lemma verifier_call_traced:
  assumes "usable H er"
  shows "\<exists>tr. trace (verifier_call H J X i dir er a w) = trace w @ tr \<and> action_log J X i dir er a tr"
proof -
  note ex = exchange_call [OF assms HandleSP1_exchange] exchange_call [OF assms HandleRiscZero_exchange]
    exchange_call [OF assms HandleMiden_exchange] exchange_call [OF assms HandleJolt_exchange]
    exchange_call [OF assms HandlePlonky2_exchange]
  show ?thesis
    by (cases a) (simp_all add: ex)
qed

end

definition verifier_calls ::
  "('w, 'r) http_lib \<Rightarrow> handler_json \<Rightarrow> id_text \<Rightarrow> ('f, 'bf, 'k, 'sk, 'd) controller \<Rightarrow> block_tx list \<Rightarrow> 'w \<Rightarrow> 'w" where
  "verifier_calls H J X c = fold (\<lambda>tx.
    verifier_call H J X (BlockTx_ID tx) (Ctl_fileDB c) (Client (Ctl_config c)) (BlockTx_Action tx))"

lemma verifier_calls_simps [simp]:
  "verifier_calls H J X c [] w = w"
  "verifier_calls H J X c (tx # txs) w = verifier_calls H J X c txs
    (verifier_call H J X (BlockTx_ID tx) (Ctl_fileDB c) (Client (Ctl_config c)) (BlockTx_Action tx) w)"
  by (simp_all add: verifier_calls_def)

text \<open>The exchanges of a list of transactions, one for each.\<close>

definition block_log ::
  "handler_json \<Rightarrow> id_text \<Rightarrow> ('f, 'bf, 'k, 'sk, 'd) controller \<Rightarrow> block_tx list \<Rightarrow>
    (http_request \<times> bytes option) list list \<Rightarrow> bool" where
  "block_log J X c = list_all2 (\<lambda>tx.
    action_log J X (BlockTx_ID tx) (Ctl_fileDB c) (Client (Ctl_config c)) (BlockTx_Action tx))"

context http_service
begin

lemma verifier_calls_traced:
  assumes "usable H (Client (Ctl_config c))"
  shows "\<exists>trs. block_log J X c txs trs \<and> trace (verifier_calls H J X c txs w) = trace w @ concat trs"
proof (induction txs arbitrary: w)
  case Nil
  then show ?case by (intro exI [of _ "[]"]) (simp add: block_log_def)
next
  case (Cons tx txs)
  let ?w = "verifier_call H J X (BlockTx_ID tx) (Ctl_fileDB c) (Client (Ctl_config c)) (BlockTx_Action tx) w"
  obtain tr where tr: "trace ?w = trace w @ tr"
    "action_log J X (BlockTx_ID tx) (Ctl_fileDB c) (Client (Ctl_config c)) (BlockTx_Action tx) tr"
    using verifier_call_traced [OF assms] by blast
  obtain trs where "block_log J X c txs trs" "trace (verifier_calls H J X c txs ?w) = trace ?w @ concat trs"
    using Cons.IH by blast
  with tr show ?case by (intro exI [of _ "tr # trs"]) (simp add: block_log_def)
qed

end

text \<open>
  What a prefix of the transactions leaves in the state: the queue, the counter and the
  writes collected in the batch.
\<close>

fun queue_after :: "block_tx list \<Rightarrow> (ID \<rightharpoonup> u64) \<Rightarrow> (ID \<rightharpoonup> u64)" where
  "queue_after [] q = q"
| "queue_after (tx # txs) q = queue_after txs (enqueue (BlockTx_ID tx) (BlockTx_Action tx) q)"

definition transfers :: "(block_tx \<times> tx_result) list \<Rightarrow> nat" where
  "transfers trs = length (filter (\<lambda>(tx, r). Result_Success r \<and> is_transfer (BlockTx_Action tx)) trs)"

definition record_of :: "fees_lib \<Rightarrow> i64 \<Rightarrow> block_tx \<times> tx_result \<Rightarrow> bytes \<times> bytes" where
  "record_of F time = (\<lambda>(tx, r). (TxKey (BlockTx_ID tx),
    tx_record F time (Result_Success r) (Result_Consumed r) (Result_Fee r)))"

definition remember ::
  "block_tx list \<Rightarrow> nat \<Rightarrow> ('f, 'bf, 'k, 'sk, 'd) controller \<Rightarrow> ('f, 'bf, 'k, 'sk, 'd) controller" where
  "remember txs n c = c\<lparr>Ctl_trustless := (Ctl_trustless c)\<lparr>queuedActions := queue_after txs (queuedActions (Ctl_trustless c))\<rparr>,
    Ctl_transfer := Ctl_transfer c + n\<rparr>"

lemma remember_sel [simp]:
  "Ctl_config (remember ts n c) = Ctl_config c" "Ctl_fileDB (remember ts n c) = Ctl_fileDB c"
  "Ctl_metaDB (remember ts n c) = Ctl_metaDB c" "Ctl_transfer (remember ts n c) = Ctl_transfer c + n"
  by (simp_all add: remember_def)

lemma remember_remember: "remember ts n (remember [tx] m c) = remember (tx # ts) (m + n) c"
  by (simp add: remember_def)

lemma transfers_Cons: "transfers (x # trs) = transfers [x] + transfers trs"
  by (simp add: transfers_def)

lemma verifier_calls_remember [simp]: "verifier_calls H J X (remember ts n c) = verifier_calls H J X c"
  by (simp add: verifier_calls_def)

text \<open>One transaction of the loop, with its effects in closed form.\<close>

locale accepting = fees_spec F + meta_db_spec D pending content
  for F and D :: "('b, 'd) meta_db" and pending content
begin

lemma loop_step:
  assumes "Accepted_loop H J X F D time results i (tx # txs) c wb w = Some (err, c', wb', w')"
  obtains "i < length results"
    "(err \<noteq> None \<and> c' = remember [tx] 0 c \<and> w' = verifier_calls H J X c [tx] w) \<or>
     (\<exists>wb1. pending wb1 = pending wb @
         (if StoreTransactions (Ctl_config c) then [record_of F time (tx, results ! i)] else []) \<and>
       Accepted_loop H J X F D time results (i + 1) txs (remember [tx] (transfers [(tx, results ! i)]) c)
         wb1 (verifier_calls H J X c [tx] w) = Some (err, c', wb', w'))"
proof -
  let ?w = "verifier_calls H J X c [tx] w"
  have a: "accept_action H J X (BlockTx_ID tx) (Ctl_fileDB c) (Client (Ctl_config c)) (BlockTx_Action tx)
      (Ctl_trustless c) w = ((Ctl_trustless c)\<lparr>queuedActions :=
        enqueue (BlockTx_ID tx) (BlockTx_Action tx) (queuedActions (Ctl_trustless c))\<rparr>, ?w)"
    by (simp add: accept_action_eq)
  have i: "i < length results"
    using assms by (auto simp: index_def bind_eq_Some_conv split: if_splits)
  obtain e wb1 where put: "(if StoreTransactions (Ctl_config c)
      then Batch_Put D wb (TxKey (BlockTx_ID tx)) (snd (record_of F time (tx, results ! i))) else (None, wb)) = (e, wb1)"
    by (rule prod.exhaust)
  then have "e = None \<Longrightarrow> pending wb1 = pending wb @
      (if StoreTransactions (Ctl_config c) then [record_of F time (tx, results ! i)] else [])"
    by (auto simp: record_of_def split: if_splits dest!: Batch_Put_cases)
  moreover have "if e \<noteq> None then err = e \<and> c' = remember [tx] 0 c \<and> w' = ?w
    else Accepted_loop H J X F D time results (i + 1) txs (remember [tx] (transfers [(tx, results ! i)]) c)
      wb1 ?w = Some (err, c', wb', w')"
    using assms a i put
    by (cases "StoreTransactions (Ctl_config c)")
      (auto simp: index_def Config_GetStoreTransactions_def StoreTransaction_eq remember_def transfers_def
        record_of_def simp del: verifier_calls_simps split: if_splits)
  ultimately show ?thesis
    using that [OF i] by (cases e) auto
qed


lemma loop_effects:
  assumes "Accepted_loop H J X F D time results i txs c wb w = Some (err, c', wb', w')"
  shows "\<exists>n k. n \<le> length txs \<and> w' = verifier_calls H J X c (take n txs) w \<and>
    c' = remember (take n txs) k c \<and>
    (err = None \<longrightarrow> n = length txs \<and> length txs + i \<le> length results + (if txs = [] then i else 0) \<and>
      k = transfers (zip txs (drop i results)) \<and>
      pending wb' = pending wb @ (if StoreTransactions (Ctl_config c)
        then map (record_of F time) (zip txs (drop i results)) else []))"
  using assms
proof (induction txs arbitrary: i c wb w)
  case Nil
  then show ?case
    by (intro exI [of _ 0]) (auto simp: remember_def transfers_def)
next
  case (Cons tx txs)
  from loop_step [OF Cons.prems] have i: "i < length results"
    and cases: "(err \<noteq> None \<and> c' = remember [tx] 0 c \<and> w' = verifier_calls H J X c [tx] w) \<or>
     (\<exists>wb1. pending wb1 = pending wb @
         (if StoreTransactions (Ctl_config c) then [record_of F time (tx, results ! i)] else []) \<and>
       Accepted_loop H J X F D time results (i + 1) txs (remember [tx] (transfers [(tx, results ! i)]) c)
         wb1 (verifier_calls H J X c [tx] w) = Some (err, c', wb', w'))"
    by blast+
  from cases show ?case
  proof (elim disjE exE conjE)
    assume stop: "err \<noteq> None" "c' = remember [tx] 0 c" "w' = verifier_calls H J X c [tx] w"
    show ?thesis
      by (rule exI [of _ "Suc 0"], rule exI [of _ "0 :: nat"]) (use stop in auto)
  next
    fix wb1
    assume p: "pending wb1 = pending wb @
         (if StoreTransactions (Ctl_config c) then [record_of F time (tx, results ! i)] else [])"
      and run: "Accepted_loop H J X F D time results (i + 1) txs (remember [tx] (transfers [(tx, results ! i)]) c)
         wb1 (verifier_calls H J X c [tx] w) = Some (err, c', wb', w')"
    have drop: "drop i results = results ! i # drop (Suc i) results"
      using i by (simp add: Cons_nth_drop_Suc)
    from Cons.IH [OF run] obtain n k where ih:
      "n \<le> length txs" "w' = verifier_calls H J X c (take n txs) (verifier_calls H J X c [tx] w)"
      "c' = remember (take n txs) k (remember [tx] (transfers [(tx, results ! i)]) c)"
      "err = None \<Longrightarrow> n = length txs \<and> length txs + (i + 1) \<le> length results + (if txs = [] then i + 1 else 0) \<and>
        k = transfers (zip txs (drop (i + 1) results)) \<and>
        pending wb' = pending wb1 @ (if StoreTransactions (Ctl_config c)
          then map (record_of F time) (zip txs (drop (i + 1) results)) else [])"
      by auto
    have zip: "zip (tx # txs) (drop i results) = (tx, results ! i) # zip txs (drop (i + 1) results)"
      by (simp add: drop)
    show ?thesis
    proof (rule exI [of _ "Suc n"], rule exI [of _ "transfers [(tx, results ! i)] + k"], intro conjI impI)
      show "c' = remember (take (Suc n) (tx # txs)) (transfers [(tx, results ! i)] + k) c"
        using ih(3) by (simp add: remember_remember)
      show "transfers [(tx, results ! i)] + k = transfers (zip (tx # txs) (drop i results))" if "err = None"
        using ih(4) [OF that] unfolding zip by (subst transfers_Cons) simp
      show "pending wb' = pending wb @ (if StoreTransactions (Ctl_config c)
          then map (record_of F time) (zip (tx # txs) (drop i results)) else [])" if "err = None"
        using ih(4) [OF that] p unfolding zip by simp
      show "length (tx # txs) + i \<le> length results + (if tx # txs = [] then i else 0)" if "err = None"
        using ih(4) [OF that] i by (cases txs) simp_all
    qed (use ih in simp_all)
  qed
qed

lemma loop_returns:
  assumes "length txs + i \<le> length results"
  shows "\<exists>r. Accepted_loop H J X F D time results i txs c wb w = Some r"
  using assms
proof (induction txs arbitrary: i c wb w)
  case (Cons tx txs)
  then have "length txs + (i + 1) \<le> length results" and "i < length results"
    by simp_all
  with Cons.IH show ?case
    by (simp add: index_def split_beta Let_def)
qed simp

lemma Accepted_effects:
  assumes "Controller_Accepted H J X F D blk c w = Some (err, c', w')"
  shows "\<exists>n k. n \<le> length (Block_Txs blk) \<and> w' = verifier_calls H J X c (take n (Block_Txs blk)) w \<and>
    (\<exists>d. c' = remember (take n (Block_Txs blk)) k c \<lparr>Ctl_metaDB := d\<rparr> \<and>
      (err = None \<longrightarrow> n = length (Block_Txs blk) \<and> length (Block_Txs blk) \<le> length (Block_Results blk) \<and>
        k = transfers (zip (Block_Txs blk) (Block_Results blk)) \<and>
        content d = content (Ctl_metaDB c) ++ map_of (rev (if StoreTransactions (Ctl_config c)
          then map (record_of F (Block_Timestamp blk)) (zip (Block_Txs blk) (Block_Results blk)) else []))) \<and>
      (err \<noteq> None \<longrightarrow> content d = content (Ctl_metaDB c)))"
proof -
  obtain e c1 wb w1 where loop: "Accepted_loop H J X F D (Block_Timestamp blk) (Block_Results blk) 0
      (Block_Txs blk) c (NewBatch_db D (Ctl_metaDB c)) w = Some (e, c1, wb, w1)"
    using assms by (auto simp: Controller_Accepted_def bind_eq_Some_conv)
  from loop_effects [OF loop] obtain n k where eff:
    "n \<le> length (Block_Txs blk)" "w1 = verifier_calls H J X c (take n (Block_Txs blk)) w" "c1 = remember (take n (Block_Txs blk)) k c"
    and fin: "e = None \<longrightarrow> n = length (Block_Txs blk) \<and>
      length (Block_Txs blk) + 0 \<le> length (Block_Results blk) + (if Block_Txs blk = [] then 0 else 0) \<and>
      k = transfers (zip (Block_Txs blk) (drop 0 (Block_Results blk))) \<and>
      pending wb = pending (NewBatch_db D (Ctl_metaDB c)) @ (if StoreTransactions (Ctl_config c)
        then map (record_of F (Block_Timestamp blk)) (zip (Block_Txs blk) (drop 0 (Block_Results blk))) else [])"
    by blast
  have eff5: "n = length (Block_Txs blk) \<and> length (Block_Txs blk) \<le> length (Block_Results blk) \<and>
      k = transfers (zip (Block_Txs blk) (Block_Results blk)) \<and>
      pending wb = (if StoreTransactions (Ctl_config c)
        then map (record_of F (Block_Timestamp blk)) (zip (Block_Txs blk) (Block_Results blk)) else [])" if "e = None"
    using fin that by (simp add: NewBatch_empty)
  have run: "if e \<noteq> None then err = e \<and> c' = c1 \<and> w' = w1
    else \<exists>d. Batch_Write D wb (Ctl_metaDB c1) = (err, d) \<and> c' = c1\<lparr>Ctl_metaDB := d\<rparr> \<and> w' = w1"
    using assms loop by (auto simp: Controller_Accepted_def split: prod.splits if_splits)
  show ?thesis
  proof (cases e)
    case None
    then obtain d where d: "Batch_Write D wb (Ctl_metaDB c1) = (err, d)" "c' = c1\<lparr>Ctl_metaDB := d\<rparr>" "w' = w1"
      using run by auto
    have "Ctl_metaDB c1 = Ctl_metaDB c"
      using eff(3) by simp
    then have "err = None \<longrightarrow> content d = content (Ctl_metaDB c) ++ map_of (rev (pending wb))"
      "err \<noteq> None \<longrightarrow> content d = content (Ctl_metaDB c)"
      using Batch_Write_cases [OF d(1)] by auto
    moreover have "c' = remember (take n (Block_Txs blk)) k c\<lparr>Ctl_metaDB := d\<rparr>"
      using d(2) eff(3) by simp
    ultimately have main: "n \<le> length (Block_Txs blk) \<and> w' = verifier_calls H J X c (take n (Block_Txs blk)) w \<and>
        c' = remember (take n (Block_Txs blk)) k c\<lparr>Ctl_metaDB := d\<rparr> \<and>
        (err = None \<longrightarrow> content d = content (Ctl_metaDB c) ++ map_of (rev (pending wb))) \<and>
        (err \<noteq> None \<longrightarrow> content d = content (Ctl_metaDB c))"
      using eff(1,2) d(3) by blast
    from eff5 [OF None] have wb: "pending wb = (if StoreTransactions (Ctl_config c)
        then map (record_of F (Block_Timestamp blk)) (zip (Block_Txs blk) (Block_Results blk)) else [])"
      by (elim conjE)
    show ?thesis
      by (rule exI [of _ n], rule exI [of _ k]) (use eff5 [OF None] main [unfolded wb] in blast)
  next
    case (Some x)
    then have "c' = remember (take n (Block_Txs blk)) k c\<lparr>Ctl_metaDB := Ctl_metaDB c\<rparr>" "err \<noteq> None" "w' = w1"
      using run eff(3) by (simp_all add: remember_def)
    then show ?thesis
      using eff(1,2) by blast
  qed
qed

end

section \<open>A reference node\<close>

text \<open>A service that answers every request with yes, and a node that stores its transactions.\<close>

definition ref_json :: handler_json where
  "ref_json =
    \<lparr>MarshalSP1 = (\<lambda>a. Inr [1]), UnmarshalSP1Reply = (\<lambda>b. Inr \<lparr>SP1Reply_IsSubmitted = True\<rparr>),
     MarshalRiscZero = (\<lambda>a. Inr [2]), UnmarshalRiscZeroReply = (\<lambda>b. Inr \<lparr>RiscZeroReply_IsSubmitted = True\<rparr>),
     MarshalMiden = (\<lambda>a. Inr [3]), UnmarshalMidenReply = (\<lambda>b. Inr \<lparr>MidenReply_IsSubmitted = True\<rparr>),
     MarshalJolt = (\<lambda>a. Inr [4]), UnmarshalJoltReply = (\<lambda>b. Inr \<lparr>JoltReply_IsSubmitted = True\<rparr>),
     MarshalPlonky2 = (\<lambda>a. Inr [5]), UnmarshalPlonky2Reply = (\<lambda>b. Inr \<lparr>Plonky2Reply_IsSubmitted = True\<rparr>),
     MarshalVerify = (\<lambda>a. Inr [ucast (VerifyRequest_VerifyType a)]),
     UnmarshalVerifyReply = (\<lambda>b. Inr \<lparr>VerifyReply_IsSubmitted = True\<rparr>)\<rparr>"

definition ref_id_text :: id_text where
  "ref_id_text = \<lparr>ID_Hex = (\<lambda>i. itoa (unat i)), ID_String = (\<lambda>i. itoa (unat i))\<rparr>"

definition ref_controller :: "(nat, nat, nat \<times> 384 word, byte, bytes \<rightharpoonup> bytes) controller" where
  "ref_controller = \<lparr>Ctl_networkID = 1, Ctl_chainID = 2, Ctl_genesis = Default ref_merkledb,
    Ctl_config = (zero_config 0 ''node'')\<lparr>StoreTransactions := True, Client := New ''hub''\<rparr>, Ctl_transfer = 0,
    Ctl_metaDB = Map.empty, Ctl_fileDB = ''db'', Ctl_trustless = ref_trustless\<rparr>"

text \<open>A submission that failed, then a transfer that succeeded.\<close>

definition ref_block :: block where
  "ref_block = \<lparr>Block_Txs = [\<lparr>BlockTx_ID = 7, BlockTx_Action = ActionSP1 \<lparr>SP1_ImageID = 1, SP1_ProofValType = 2, SP1_TimeOutBlocks = 30\<rparr>\<rparr>,
      \<lparr>BlockTx_ID = 8, BlockTx_Action = ActionTransfer \<lparr>Transfer_To = 3, Transfer_Value = 4\<rparr>\<rparr>],
    Block_Results = [\<lparr>Result_Success = False, Result_Consumed = [1, 1, 1, 1, 1], Result_Fee = 5\<rparr>,
      \<lparr>Result_Success = True, Result_Consumed = [1, 1, 1, 1, 1], Result_Fee = 6\<rparr>],
    Block_Timestamp = 50\<rparr>"

interpretation ref_accepting: accepting ref_fees ref_db "\<lambda>b. b" "\<lambda>d. d"
  by unfold_locales

lemma ref_db_ops:
  "NewBatch_db ref_db d = []" "Batch_Put ref_db b k v = (None, b @ [(k, v)])"
  "Batch_Write ref_db b d = (None, d ++ map_of (rev b))"
  by (simp_all add: ref_db_def)

lemma ref_accepted:
  obtains c' w' where "Controller_Accepted ref_http ref_json ref_id_text ref_fees ref_db ref_block ref_controller
    ([], [[1], [1]]) = Some (None, c', w')"
  by (simp add: Controller_Accepted_def ref_block_def ref_controller_def index_def HandleSP1_def ListenActions_def
      ref_http_def ref_json_def NewRequest_def ref_fees.StoreTransaction_eq ref_db_ops zero_config_def Let_def
      Config_GetStoreTransactions_def)

section \<open>The claims about accepted blocks\<close>

text \<open>
  C14: what leaves a node for an accepted block. For each transaction, in the order of the
  block, there is exactly the exchange of its action with the service of the node's
  configuration: its submission is sent, and when the service answers that it took it, and
  only then, the request to verify it; for any other action nothing is sent. The submissions
  are queued with their time-outs. Whether the transaction succeeded does not matter, nor what
  becomes of the requests. When storing a record fails, the rest of the block is left.
\<close>

theorem accepted_requests:
  assumes "http_service H trace" "usable H (Client (Ctl_config c))" "fees_spec F" "meta_db_spec D pending content"
    and "Controller_Accepted H J X F D blk c w = Some (err, c', w')"
  shows "\<exists>n trs. n \<le> length (Block_Txs blk) \<and> (err = None \<longrightarrow> n = length (Block_Txs blk)) \<and>
    block_log J X c (take n (Block_Txs blk)) trs \<and> trace w' = trace w @ concat trs \<and>
    queuedActions (Ctl_trustless c') = queue_after (take n (Block_Txs blk)) (queuedActions (Ctl_trustless c))"
proof -
  have "accepting F D pending content"
    using assms(3,4) by (simp add: accepting_def)
  from accepting.Accepted_effects [OF this assms(5)] obtain n k d where
    n: "n \<le> length (Block_Txs blk)" "err = None \<longrightarrow> n = length (Block_Txs blk)"
    and w': "w' = verifier_calls H J X c (take n (Block_Txs blk)) w"
    and c': "c' = remember (take n (Block_Txs blk)) k c \<lparr>Ctl_metaDB := d\<rparr>"
    by blast
  from http_service.verifier_calls_traced [OF assms(1,2)] obtain trs where
    "block_log J X c (take n (Block_Txs blk)) trs" "trace w' = trace w @ concat trs"
    unfolding w' by blast
  with n c' show ?thesis
    by (intro exI [of _ n], intro exI [of _ trs]) (simp add: remember_def)
qed

text \<open>The failed submission is handed in, is taken, and is verified.\<close>

theorem accepted_requests_witness:
  "\<exists>c' w'. Controller_Accepted ref_service ref_json ref_id_text ref_fees ref_db ref_block ref_controller
      ([], [[1], [1]]) = Some (None, c', w') \<and>
    map fst (fst w') = [post_request ''hub/sp1-verify'' [1], post_request ''hub/verify'' [ucast SP1VERIFY]] \<and>
    queuedActions (Ctl_trustless c') = [7 \<mapsto> 30]"
proof -
  obtain c' w' where r: "Controller_Accepted ref_service ref_json ref_id_text ref_fees ref_db ref_block ref_controller
    ([], [[1], [1]]) = Some (None, c', w')" "fst w' \<noteq> [] \<and> snd (hd (fst w')) = Some [1]"
    by (simp add: Controller_Accepted_def ref_block_def ref_controller_def index_def HandleSP1_def ListenActions_def
      ref_service_def ref_json_def NewRequest_def ref_fees.StoreTransaction_eq ref_db_ops zero_config_def Let_def
      Config_GetStoreTransactions_def)
  have "usable ref_service (Client (Ctl_config ref_controller))"
    by (simp add: usable_def ref_service_def)
  from accepted_requests [OF ref_service.http_service_axioms this ref_fees.fees_spec_axioms ref_db.meta_db_spec_axioms r(1)] r
  show ?thesis
    by (auto simp: ref_block_def ref_controller_def enqueue_def block_log_def list_all2_Cons1 exchange_log_def
        sp1_first_def ref_json_def New_def endpoint_defs ref_trustless_def)
qed

text \<open>The records of a block, for the claim below and for the clients of the node.\<close>

lemma records_of_block:
  assumes "fees_spec F" "meta_db_spec D pending content"
    and "Controller_Accepted H J X F D blk c w = Some (None, c', w')"
    and "StoreTransactions (Ctl_config c)" "distinct (map BlockTx_ID (Block_Txs blk))"
    and "\<And>r. r \<in> set (Block_Results blk) \<Longrightarrow> length (Result_Consumed r) = 5"
  shows "(\<forall>i < length (Block_Txs blk). Controller_GetTransaction F D c' (BlockTx_ID (Block_Txs blk ! i)) =
      Some (True, Block_Timestamp blk, Result_Success (Block_Results blk ! i),
        Result_Consumed (Block_Results blk ! i), Result_Fee (Block_Results blk ! i), None)) \<and>
    (\<forall>j. j \<notin> BlockTx_ID ` set (Block_Txs blk) \<longrightarrow> Controller_GetTransaction F D c' j = Controller_GetTransaction F D c j)"
proof -
  have acc: "accepting F D pending content"
    using assms(1,2) by (simp add: accepting_def)
  define trs where "trs = zip (Block_Txs blk) (Block_Results blk)"
  obtain d where len: "length (Block_Txs blk) \<le> length (Block_Results blk)" and db: "Ctl_metaDB c' = d"
    and content: "content d = content (Ctl_metaDB c) ++ map_of (rev (map (record_of F (Block_Timestamp blk)) trs))"
    using accepting.Accepted_effects [OF acc assms(3)] assms(4) by (auto simp: trs_def)
  have ids: "map (BlockTx_ID \<circ> fst) trs = map BlockTx_ID (Block_Txs blk)"
    using len by (simp add: trs_def map_fst_zip_take flip: map_map)
  have "map fst (map (record_of F (Block_Timestamp blk)) trs) = map TxKey (map (BlockTx_ID \<circ> fst) trs)"
    by (auto simp: record_of_def)
  then have keys: "map fst (map (record_of F (Block_Timestamp blk)) trs) = map TxKey (map BlockTx_ID (Block_Txs blk))"
    by (simp only: ids)
  have "distinct (map fst (map (record_of F (Block_Timestamp blk)) trs))"
    using assms(5) unfolding keys by (simp add: distinct_map inj_on_def)
  then have content: "content d = content (Ctl_metaDB c) ++ map_of (map (record_of F (Block_Timestamp blk)) trs)"
    using content by (metis map_of_inject_set distinct_rev rev_map set_rev)
  note get = Controller_GetTransaction_def db meta_db_spec.DB_Get_content [OF assms(2)]
  show ?thesis
  proof (intro conjI allI impI)
    fix i assume i: "i < length (Block_Txs blk)"
    then have mem: "(Block_Txs blk ! i, Block_Results blk ! i) \<in> set trs"
      using len by (auto simp: trs_def set_zip)
    then have "content d (TxKey (BlockTx_ID (Block_Txs blk ! i))) = Some (tx_record F (Block_Timestamp blk)
        (Result_Success (Block_Results blk ! i)) (Result_Consumed (Block_Results blk ! i)) (Result_Fee (Block_Results blk ! i)))"
      using \<open>distinct (map fst _)\<close> by (auto simp: content map_add_Some_iff record_of_def intro!: map_of_is_SomeI)
    then show "Controller_GetTransaction F D c' (BlockTx_ID (Block_Txs blk ! i)) =
      Some (True, Block_Timestamp blk, Result_Success (Block_Results blk ! i),
        Result_Consumed (Block_Results blk ! i), Result_Fee (Block_Results blk ! i), None)"
      unfolding get using len i
      by (intro fees_spec.GetTransaction_record [OF assms(1)] assms(6)) (simp_all add: get)
  next
    fix j assume j: "j \<notin> BlockTx_ID ` set (Block_Txs blk)"
    then have "TxKey j \<notin> fst ` set (map (record_of F (Block_Timestamp blk)) trs)"
      unfolding set_map [symmetric] keys by auto
    then have "content d (TxKey j) = content (Ctl_metaDB c) (TxKey j)"
      by (simp add: content map_add_def map_of_eq_None_iff option.case_eq_if)
    then show "Controller_GetTransaction F D c' j = Controller_GetTransaction F D c j"
      by (simp add: get GetTransaction_def)
  qed
qed

text \<open>
  C15: the records of a block: when transactions are stored and the block is accepted without
  an error, each transaction of the block is answered with the time of the block and its own
  outcome, units and fee, and every other transaction as before.
\<close>

theorem accepted_records:
  assumes "fees_spec F" "meta_db_spec D pending content"
    and "Controller_Accepted H J X F D blk c w = Some (None, c', w')"
    and "StoreTransactions (Ctl_config c)" "distinct (map BlockTx_ID (Block_Txs blk))"
    and "\<And>r. r \<in> set (Block_Results blk) \<Longrightarrow> length (Result_Consumed r) = 5"
  shows "(\<forall>i < length (Block_Txs blk). Controller_GetTransaction F D c' (BlockTx_ID (Block_Txs blk ! i)) =
      Some (True, Block_Timestamp blk, Result_Success (Block_Results blk ! i),
        Result_Consumed (Block_Results blk ! i), Result_Fee (Block_Results blk ! i), None)) \<and>
    (\<forall>j. j \<notin> BlockTx_ID ` set (Block_Txs blk) \<longrightarrow> Controller_GetTransaction F D c' j = Controller_GetTransaction F D c j)"
  using records_of_block [OF assms(1-5)] assms(6) by blast

theorem accepted_records_witness:
  "\<exists>c' w'. Controller_Accepted ref_http ref_json ref_id_text ref_fees ref_db ref_block ref_controller
      ([], [[1], [1]]) = Some (None, c', w') \<and>
    Controller_GetTransaction ref_fees ref_db c' 7 = Some (True, 50, False, [1, 1, 1, 1, 1], 5, None) \<and>
    Controller_GetTransaction ref_fees ref_db c' 8 = Some (True, 50, True, [1, 1, 1, 1, 1], 6, None)"
proof -
  obtain c' w' where r: "Controller_Accepted ref_http ref_json ref_id_text ref_fees ref_db ref_block ref_controller
    ([], [[1], [1]]) = Some (None, c', w')"
    by (rule ref_accepted)
  have "StoreTransactions (Ctl_config ref_controller)" "distinct (map BlockTx_ID (Block_Txs ref_block))"
    "\<And>x. x \<in> set (Block_Results ref_block) \<Longrightarrow> length (Result_Consumed x) = 5"
    by (auto simp: ref_controller_def ref_block_def)
  from accepted_records [OF ref_fees.fees_spec_axioms ref_db.meta_db_spec_axioms r this]
  show ?thesis
    using r by (auto simp: ref_block_def less_Suc_eq)
qed

text \<open>
  C21: a block with a result for each transaction never panics the node, and accepting it
  without an error changes, besides the database, the queue and the counter only, which
  grows by the number of transfers that succeeded.
\<close>

theorem accepted_returns:
  assumes "fees_spec F" "meta_db_spec D pending content"
    and "length (Block_Txs blk) \<le> length (Block_Results blk)"
  shows "\<exists>err c' w'. Controller_Accepted H J X F D blk c w = Some (err, c', w') \<and>
    (err = None \<longrightarrow> (\<exists>d. c' = remember (Block_Txs blk) (transfers (zip (Block_Txs blk) (Block_Results blk))) c
        \<lparr>Ctl_metaDB := d\<rparr> \<and> (\<not> StoreTransactions (Ctl_config c) \<longrightarrow> content d = content (Ctl_metaDB c))))"
proof -
  have acc: "accepting F D pending content"
    using assms(1,2) by (simp add: accepting_def)
  have "\<exists>r. Accepted_loop H J X F D (Block_Timestamp blk) (Block_Results blk) 0 (Block_Txs blk) c
      (NewBatch_db D (Ctl_metaDB c)) w = Some r"
    by (rule accepting.loop_returns [OF acc]) (simp add: assms(3))
  then obtain e c1 wb w1 where "Accepted_loop H J X F D (Block_Timestamp blk) (Block_Results blk) 0 (Block_Txs blk) c
      (NewBatch_db D (Ctl_metaDB c)) w = Some (e, c1, wb, w1)"
    by (auto simp only: split_paired_Ex)
  then obtain err c' w' where run: "Controller_Accepted H J X F D blk c w = Some (err, c', w')"
    by (cases e; cases "Batch_Write D wb (Ctl_metaDB c1)") (simp_all add: Controller_Accepted_def)
  from accepting.Accepted_effects [OF acc this] show ?thesis
    by (intro exI [of _ err], intro exI [of _ c'], intro exI [of _ w']) (auto simp: run)
qed

theorem accepted_returns_witness:
  "\<exists>err c' w'. Controller_Accepted ref_http ref_json ref_id_text ref_fees ref_db ref_block ref_controller
      ([], [[1], [1]]) = Some (err, c', w') \<and> (err = None \<longrightarrow> Ctl_transfer c' = 1)"
  using accepted_returns [OF ref_fees.fees_spec_axioms ref_db.meta_db_spec_axioms,
      of ref_block ref_http ref_json ref_id_text ref_controller "([], [[1], [1]])"]
  by (auto simp: ref_block_def transfers_def ref_controller_def)

text \<open>A node that starts has passed every step of \<open>Initialize\<close>.\<close>

lemma Controller_Initialize_ok:
  assumes "Controller_Initialize regs cn gn od K nh np snow gb ub cb w = Some (Inr (c, out), w')"
  obtains w1 where "cn (Snow_NodeID snow) cb w = (Inr (Ctl_config c), w1)" "w' = snd (od w1)"
    "Trustless_New K (Port (Ctl_config c)) (ListenerPort (Ctl_config c)) (Snow_PublicKey snow)
      (ValPrivKey (Ctl_config c)) = Some (Ctl_trustless c)"
    "gn gb ub = Inr (Ctl_genesis c)" "Ctl_transfer c = 0" "Ctl_chainID c = Snow_ChainID snow"
    "Ctl_networkID c = Snow_NetworkID snow" "Init_engines out = Engines"
    "Init_builder out = (if TestMode (Ctl_config c) then ManualBuilder else TimeBuilder)"
    "Init_gossiper out = (if TestMode (Ctl_config c) then ManualGossiper else ProposerGossiper)"
proof -
  obtain m where m: "newMetrics (fst regs) (snd regs) = (m, None)"
    using assms by (cases "snd (newMetrics (fst regs) (snd regs))")
      (auto simp: Controller_Initialize_def prod_eq_iff split: prod.splits)
  obtain x w1 where x: "cn (Snow_NodeID snow) cb w = (x, w1)"
    by (rule prod.exhaust)
  obtain cfg where cfg: "x = Inr cfg"
    using assms m x by (cases x) (simp_all add: Controller_Initialize_def)
  obtain g where g: "gn gb ub = Inr g"
    using assms m x cfg by (cases "gn gb ub") (simp_all add: Controller_Initialize_def)
  obtain y w2 where y: "od w1 = (y, w2)"
    by (rule prod.exhaust)
  obtain q where q: "y = Inr q"
    using assms m x cfg g y by (cases y) (simp_all add: Controller_Initialize_def)
  obtain b s f d where dbs: "y = Inr (b, s, f, d)"
    unfolding q by (cases q) simp
  obtain t where t: "Trustless_New K (Port cfg) (ListenerPort cfg) (Snow_PublicKey snow) (ValPrivKey cfg) = Some t"
    using assms m x cfg g y dbs by (cases "Trustless_New K (Port cfg) (ListenerPort cfg) (Snow_PublicKey snow) (ValPrivKey cfg)")
      (simp_all add: Controller_Initialize_def)
  obtain j where j: "nh Name = Inr j"
    using assms m x cfg g y dbs t by (cases "nh Name") (simp_all add: Controller_Initialize_def)
  have m0: "m = 0"
    using m by (simp add: newMetrics_def split: option.splits)
  note run = assms [unfolded Controller_Initialize_def m, simplified, unfolded x cfg, simplified, unfolded g, simplified,
    unfolded y dbs, simplified, unfolded t, simplified, unfolded j, simplified]
  have c: "c = \<lparr>Ctl_networkID = Snow_NetworkID snow, Ctl_chainID = Snow_ChainID snow, Ctl_genesis = g,
      Ctl_config = cfg, Ctl_transfer = m, Ctl_metaDB = d, Ctl_fileDB = s, Ctl_trustless = t\<rparr>"
    and w: "w' = w2" "Init_engines out = Engines"
      "Init_builder out = (if TestMode cfg then ManualBuilder else TimeBuilder)"
      "Init_gossiper out = (if TestMode cfg then ManualGossiper else ProposerGossiper)"
    using run by (auto simp: Let_def split: if_splits option.splits)
  show thesis
    by (rule that [of w1]) (simp_all add: c x cfg y t g m0 w)
qed

text \<open>
  A node that starts has shaken hands with its hub and its verifier service, with two
  requests and no more, talks to that service, listens for results where the hub told it,
  and starts with an empty queue and counter; it builds and gossips by hand exactly in test
  mode, and its rules are those of its genesis and of the network it was started on.
\<close>

theorem controller_initialized:
  assumes "http_view H sent" "\<And>w. sent (snd (openDBs w)) = sent w"
    and "Controller_Initialize regs (Config_New H u1 u2 D f0 um parse) (Genesis_New B umg) openDBs hex newHandler
      newProposer snow gb ub cb w = Some (Inr (c, out), w')"
  shows "Client (Ctl_config c) = New (''http://127.0.0.1:'' @ Port (Ctl_config c)) \<and>
    Trustless_New hex (Port (Ctl_config c)) (ListenerPort (Ctl_config c)) (Snow_PublicKey snow)
      (ValPrivKey (Ctl_config c)) = Some (Ctl_trustless c) \<and>
    Ctl_transfer c = 0 \<and> (Init_builder out = ManualBuilder \<longleftrightarrow> TestMode (Ctl_config c)) \<and>
    (Init_gossiper out = ManualGossiper \<longleftrightarrow> TestMode (Ctl_config c)) \<and> Init_engines out = Engines \<and>
    Genesis_New B umg gb ub = Inr (Controller_Genesis c) \<and>
    Rules_ChainID (Controller_Rules vals c t) = Snow_ChainID snow \<and>
    Rules_NetworkID (Controller_Rules vals c t) = Snow_NetworkID snow \<and>
    (\<exists>r1 r2. sent w' = sent w @ [r1, r2])"
proof -
  obtain w1 where cfg: "Config_New H u1 u2 D f0 um parse (Snow_NodeID snow) cb w = (Inr (Ctl_config c), w1)"
    and w': "w' = snd (openDBs w1)"
    and t: "Trustless_New hex (Port (Ctl_config c)) (ListenerPort (Ctl_config c)) (Snow_PublicKey snow)
      (ValPrivKey (Ctl_config c)) = Some (Ctl_trustless c)"
    and rest: "Genesis_New B umg gb ub = Inr (Ctl_genesis c)" "Ctl_transfer c = 0" "Ctl_chainID c = Snow_ChainID snow"
      "Ctl_networkID c = Snow_NetworkID snow" "Init_engines out = Engines"
      "Init_builder out = (if TestMode (Ctl_config c) then ManualBuilder else TimeBuilder)"
      "Init_gossiper out = (if TestMode (Ctl_config c) then ManualGossiper else ProposerGossiper)"
    by (rule Controller_Initialize_ok [OF assms(3)])
  have "\<exists>r1 r2. sent w' = sent w @ [r1, r2]"
    using http_view.Config_New_sends [OF assms(1) cfg] by (auto simp: w' assms(2))
  then show ?thesis
    using Config_New_fields [OF cfg] t rest
    by (auto simp: Controller_Rules_def Controller_Genesis_def Genesis_Rules_def Rules_ChainID_def Rules_NetworkID_def)
qed

lemma Trustless_New_port: "Trustless_New K p l k v = Some t \<Longrightarrow> Trustless_port t = p"
  by (auto simp: Trustless_New_def bind_eq_Some_conv)

text \<open>The node of the handshake's example, its hub and service on ports 90 and 91.\<close>

theorem controller_initialized_witness:
  "\<exists>c out w'. Controller_Initialize (None, None)
      (Config_New ref_http ref_ping ref_ping_single ref_base (0 :: nat) (\<lambda>b c. Inr (c\<lparr>HubPorturi := ''hub'', ValPrivKey := ''key''\<rparr>)) ref_bech32)
      (Genesis_New ref_merkledb (\<lambda>b g. Inr g)) (\<lambda>w. (Inr ((), ''db'', (), ()), w)) ref_hex (\<lambda>n. Inr ()) None
      \<lparr>Snow_NetworkID = 1, Snow_ChainID = 2, Snow_NodeID = ''node'', Snow_PublicKey = (3 :: nat)\<rparr> [] [] [1]
      ([], [[], []]) = Some (Inr (c, out), w') \<and>
    Trustless_port (Ctl_trustless c) = ''90'' \<and> Init_builder out = TimeBuilder \<and> length (fst w') = 2"
proof -
  obtain c out w' where r: "Controller_Initialize (None, None)
      (Config_New ref_http ref_ping ref_ping_single ref_base (0 :: nat) (\<lambda>b c. Inr (c\<lparr>HubPorturi := ''hub'', ValPrivKey := ''key''\<rparr>)) ref_bech32)
      (Genesis_New ref_merkledb (\<lambda>b g. Inr g)) (\<lambda>w. (Inr ((), ''db'', (), ()), w)) ref_hex (\<lambda>n. Inr ()) None
      \<lparr>Snow_NetworkID = 1, Snow_ChainID = 2, Snow_NodeID = ''node'', Snow_PublicKey = (3 :: nat)\<rparr> [] [] [1]
      ([], [[], []]) = Some (Inr (c, out), w')" "Port (Ctl_config c) = ''90''" "\<not> TestMode (Ctl_config c)"
    by (simp add: Controller_Initialize_def newMetrics_def Genesis_New_def Config_New_def ref_http_def ref_ping_def
        ref_ping_single_def setDefault_def zero_config_def Ping_def PingSingle_def Trustless_New_def ref_hex_def to_array_def)
  have dbs: "fst (snd ((Inr ((), ''db'', (), ()) :: error + _, v))) = fst v" for v :: "http_request list \<times> bytes list"
    by simp
  note init = controller_initialized [where vals = "\<lambda>_. ([], {})" and t = 0, OF ref_http.http_view_axioms dbs r(1)]
  have "Trustless_port (Ctl_trustless c) = ''90''"
    using init r(2) Trustless_New_port by metis
  moreover have "Init_builder out = TimeBuilder"
    using init r(3) by (cases "Init_builder out") auto
  moreover have "length (fst w') = 2"
    using init by auto
  ultimately show ?thesis using r(1) by blast
qed

end
