(* ===== verification/Rpc.thy ===== *)
theory Rpc
  imports Accepted_Blocks "HOL-Library.Sublist"
begin

text \<open>
  The JSON-RPC interface of a node, \<open>rpc/\<close>: the server over the interface \<open>Controller\<close> of
  \<open>rpc/dependencies.go\<close>, the client over hypersdk's requester, its waiting loops and its
  parser. The requester and \<open>rpc.Wait\<close> are outside the repository: \<open>rpc_transport\<close> and
  \<open>wait_spec\<close> are their contracts. The claims join client, server and controller: what the
  client reports is what the node recorded.
\<close>

section \<open>The server\<close>

text \<open>The interface of \<open>rpc/dependencies.go\<close>, without the tracer.\<close>

record 'bf rpc_controller =
  RC_Genesis :: "'bf genesis"
  RC_GetTransaction :: "ID \<Rightarrow> (bool \<times> i64 \<times> bool \<times> dimensions \<times> u64 \<times> error option) go"
  RC_GetBalanceFromState :: "address \<Rightarrow> (u64 \<times> error option) go"
  RC_GetVerifyStatusFromState :: "ID \<Rightarrow> (bool \<times> error option) go"

record 'bf genesis_reply =
  GenesisReply_Genesis :: "'bf genesis option"

record tx_args =
  TxArgs_TxID :: ID

record tx_reply =
  TxReply_Timestamp :: i64
  TxReply_Success :: bool
  TxReply_Units :: dimensions
  TxReply_Fee :: u64

record balance_args =
  BalanceArgs_Address :: string

record balance_reply =
  BalanceReply_Amount :: u64

record verify_status_args =
  VerifyStatusArgs_TxID :: ID

record verify_status_reply =
  VerifyStatusReply_Status :: bool

text \<open>A method gets the reply to fill in, and returns an error or \<open>nil\<close>.\<close>

definition Server_Genesis :: "'bf rpc_controller \<Rightarrow> 'bf genesis_reply \<Rightarrow> error option \<times> 'bf genesis_reply" where
  "Server_Genesis c reply = (None, reply\<lparr>GenesisReply_Genesis := Some (RC_Genesis c)\<rparr>)"

definition Server_Tx :: "'bf rpc_controller \<Rightarrow> tx_args \<Rightarrow> tx_reply \<Rightarrow> (error option \<times> tx_reply) go" where
  "Server_Tx c args reply =
    do { (found, t, success, un, fee, err) \<leftarrow> RC_GetTransaction c (TxArgs_TxID args);
         if err \<noteq> None then Some (err, reply)
         else if \<not> found then Some (Some ErrTxNotFound, reply)
         else Some (None, reply\<lparr>TxReply_Timestamp := t, TxReply_Success := success,
                TxReply_Units := un, TxReply_Fee := fee\<rparr>) }"

definition Server_Balance ::
  "bech32 \<Rightarrow> 'bf rpc_controller \<Rightarrow> balance_args \<Rightarrow> balance_reply \<Rightarrow> (error option \<times> balance_reply) go" where
  "Server_Balance ParseAddressBech32 c args reply =
    (case ParseAddressBech32 HRP (BalanceArgs_Address args) of
       Inl err \<Rightarrow> Some (Some err, reply)
     | Inr addr \<Rightarrow> do {
         (balance, err) \<leftarrow> RC_GetBalanceFromState c addr;
         if err \<noteq> None then Some (err, reply)
         else Some (err, reply\<lparr>BalanceReply_Amount := balance\<rparr>) })"

definition Server_VerifyStatus ::
  "'bf rpc_controller \<Rightarrow> verify_status_args \<Rightarrow> verify_status_reply \<Rightarrow> (error option \<times> verify_status_reply) go" where
  "Server_VerifyStatus c args reply =
    do { (status, err) \<leftarrow> RC_GetVerifyStatusFromState c (VerifyStatusArgs_TxID args);
         if err \<noteq> None then Some (err, reply)
         else Some (None, reply\<lparr>VerifyStatusReply_Status := status\<rparr>) }"

text \<open>The controller of the node implements the interface.\<close>

definition controller_rpc ::
  "fees_lib \<Rightarrow> ('b, 'd) meta_db \<Rightarrow> read_state \<Rightarrow> ('f, 'bf, 'k, 'sk, 'd) controller \<Rightarrow> 'bf rpc_controller" where
  "controller_rpc F D readState c =
    \<lparr>RC_Genesis = Controller_Genesis c, RC_GetTransaction = Controller_GetTransaction F D c,
     RC_GetBalanceFromState = Controller_GetBalanceFromState readState,
     RC_GetVerifyStatusFromState = Controller_GetVerifyStatusFromState readState\<rparr>"

section \<open>The client\<close>

text \<open>
  \<open>SendRequest\<close> of hypersdk's requester, at the types it is used with: the name of the method,
  the arguments and the reply to fill in; \<open>ErrorText\<close> is \<open>Error()\<close>.
\<close>

record ('bf, 'w) rpc_requester =
  Send_genesis :: "string \<Rightarrow> 'bf genesis_reply \<Rightarrow> 'w \<Rightarrow> (error option \<times> 'bf genesis_reply) \<times> 'w"
  Send_tx :: "string \<Rightarrow> tx_args \<Rightarrow> tx_reply \<Rightarrow> 'w \<Rightarrow> (error option \<times> tx_reply) \<times> 'w"
  Send_balance :: "string \<Rightarrow> balance_args \<Rightarrow> balance_reply \<Rightarrow> 'w \<Rightarrow> (error option \<times> balance_reply) \<times> 'w"
  Send_bytes :: "string \<Rightarrow> bytes \<Rightarrow> 'w \<Rightarrow> error option \<times> 'w"
  Send_verifyStatus ::
    "string \<Rightarrow> verify_status_args \<Rightarrow> verify_status_reply \<Rightarrow> 'w \<Rightarrow> (error option \<times> verify_status_reply) \<times> 'w"
  ErrorText :: "error \<Rightarrow> string"

record 'bf rpc_client =
  Client_uri :: string
  Client_networkID :: u32
  Client_chainID :: ID
  Client_g :: "'bf genesis option"

text \<open>\<open>strings.TrimSuffix\<close> and \<open>strings.Contains\<close>.\<close>

definition TrimSuffix :: "string \<Rightarrow> string \<Rightarrow> string" where
  "TrimSuffix s t = (if suffix t s then take (length s - length t) s else s)"

definition Contains :: "string \<Rightarrow> string \<Rightarrow> bool" where
  "Contains s t \<longleftrightarrow> (\<exists>r \<in> set (suffixes s). prefix t r)"

definition NewJSONRPCClient :: "string \<Rightarrow> u32 \<Rightarrow> ID \<Rightarrow> 'bf rpc_client" where
  "NewJSONRPCClient uri networkID chainID =
    (let uri = TrimSuffix uri ''/'';
         uri = uri @ JSONRPCEndpoint
     in \<lparr>Client_uri = uri, Client_networkID = networkID, Client_chainID = chainID, Client_g = None\<rparr>)"

definition Client_Genesis ::
  "('bf, 'w) rpc_requester \<Rightarrow> 'bf rpc_client \<Rightarrow> 'w \<Rightarrow>
    ('bf genesis option \<times> error option) \<times> 'bf rpc_client \<times> 'w" where
  "Client_Genesis R cli w =
    (if Client_g cli \<noteq> None then ((Client_g cli, None), cli, w)
     else
       (let resp = \<lparr>GenesisReply_Genesis = None\<rparr>;
            ((err, resp), w) = Send_genesis R ''genesis'' resp w
        in if err \<noteq> None then ((None, err), cli, w)
           else (let cli = cli\<lparr>Client_g := GenesisReply_Genesis resp\<rparr>
                 in ((GenesisReply_Genesis resp, None), cli, w))))"

definition zero_tx_reply :: tx_reply where
  "zero_tx_reply = \<lparr>TxReply_Timestamp = 0, TxReply_Success = False, TxReply_Units = replicate 5 0, TxReply_Fee = 0\<rparr>"

definition Client_Tx ::
  "('bf, 'w) rpc_requester \<Rightarrow> 'bf rpc_client \<Rightarrow> ID \<Rightarrow> 'w \<Rightarrow> (bool \<times> bool \<times> i64 \<times> u64 \<times> error option) \<times> 'w" where
  "Client_Tx R cli i w =
    (let ((err, resp), w) = Send_tx R ''tx'' \<lparr>TxArgs_TxID = i\<rparr> zero_tx_reply w
     in case err of
          Some e \<Rightarrow>
            if Contains (ErrorText R e) (ErrorText R ErrTxNotFound) then ((False, False, -1, 0, None), w)
            else ((False, False, -1, 0, Some e), w)
        | None \<Rightarrow> ((True, TxReply_Success resp, TxReply_Timestamp resp, TxReply_Fee resp, None), w))"

definition Client_Balance ::
  "('bf, 'w) rpc_requester \<Rightarrow> 'bf rpc_client \<Rightarrow> string \<Rightarrow> 'w \<Rightarrow> (u64 \<times> error option) \<times> 'w" where
  "Client_Balance R cli addr w =
    (let ((err, resp), w) = Send_balance R ''balance'' \<lparr>BalanceArgs_Address = addr\<rparr> \<lparr>BalanceReply_Amount = 0\<rparr> w
     in ((BalanceReply_Amount resp, err), w))"

definition Client_Broadcast ::
  "('bf, 'w) rpc_requester \<Rightarrow> 'bf rpc_client \<Rightarrow> bytes \<Rightarrow> 'w \<Rightarrow> error option \<times> 'w" where
  "Client_Broadcast R cli data w = Send_bytes R ''broadcast'' data w"

definition Client_VerifyStatus ::
  "('bf, 'w) rpc_requester \<Rightarrow> 'bf rpc_client \<Rightarrow> ID \<Rightarrow> 'w \<Rightarrow> (bool \<times> error option) \<times> 'w" where
  "Client_VerifyStatus R cli i w =
    (let ((err, resp), w) = Send_verifyStatus R ''verifyStatus'' \<lparr>VerifyStatusArgs_TxID = i\<rparr>
           \<lparr>VerifyStatusReply_Status = False\<rparr> w
     in ((VerifyStatusReply_Status resp, err), w))"

subsection \<open>Waiting\<close>

text \<open>
  \<open>rpc.Wait\<close> of hypersdk is a parameter: it asks a check, over a state, until the check says
  yes, fails or time is up. \<open>WaitForTransaction\<close> shares two variables with its check, so its
  state is the world with them.
\<close>

type_synonym 's wait_check = "'s \<Rightarrow> (bool \<times> error option) \<times> 's"

definition balance_check ::
  "('bf, 'w) rpc_requester \<Rightarrow> 'bf rpc_client \<Rightarrow> string \<Rightarrow> u64 \<Rightarrow> 'w wait_check" where
  "balance_check R cli addr amount w =
    (let ((balance, err), w) = Client_Balance R cli addr w
     in if err \<noteq> None then ((False, err), w)
        else (let shouldExit = balance \<ge> amount in ((shouldExit, None), w)))"

definition Client_WaitForBalance ::
  "('w wait_check \<Rightarrow> 'w \<Rightarrow> error option \<times> 'w) \<Rightarrow> ('bf, 'w) rpc_requester \<Rightarrow> 'bf rpc_client \<Rightarrow>
    string \<Rightarrow> u64 \<Rightarrow> 'w \<Rightarrow> error option \<times> 'w" where
  "Client_WaitForBalance Wait R cli addr amount w = Wait (balance_check R cli addr amount) w"

definition transaction_check ::
  "('bf, 'w) rpc_requester \<Rightarrow> 'bf rpc_client \<Rightarrow> ID \<Rightarrow> ('w \<times> bool \<times> u64) wait_check" where
  "transaction_check R cli txID = (\<lambda>(w, success, fee).
    (let ((found, isuccess, _, ifee, err), w) = Client_Tx R cli txID w
     in if err \<noteq> None then ((False, err), (w, success, fee))
        else ((found, None), (w, isuccess, ifee))))"

definition Client_WaitForTransaction ::
  "(('w \<times> bool \<times> u64) wait_check \<Rightarrow> 'w \<times> bool \<times> u64 \<Rightarrow> error option \<times> 'w \<times> bool \<times> u64) \<Rightarrow>
    ('bf, 'w) rpc_requester \<Rightarrow> 'bf rpc_client \<Rightarrow> ID \<Rightarrow> 'w \<Rightarrow> (bool \<times> u64 \<times> error option) \<times> 'w" where
  "Client_WaitForTransaction Wait R cli txID w =
    (let (err, w, success, fee) = Wait (transaction_check R cli txID) (w, False, 0)
     in if err \<noteq> None then ((False, 0, err), w) else ((success, fee, None), w))"

subsection \<open>The parser\<close>

record 'bf rpc_parser =
  Parser_networkID :: u32
  Parser_chainID :: ID
  Parser_genesis :: "'bf genesis option"

definition Parser_ChainID :: "'bf rpc_parser \<Rightarrow> ID" where "Parser_ChainID p = Parser_chainID p"

text \<open>A parser without a genesis panics when it is asked for rules.\<close>

definition Parser_Rules :: "'bf rpc_parser \<Rightarrow> i64 \<Rightarrow> ('bf, 'k) rules go" where
  "Parser_Rules p t =
    do { g \<leftarrow> Parser_genesis p;
         let r = New '''';
         Some (Genesis_Rules g t (Parser_networkID p) (Parser_chainID p) r (\<lambda>_. ([], {}))) }"

definition Client_Parser ::
  "('bf, 'w) rpc_requester \<Rightarrow> 'bf rpc_client \<Rightarrow> 'w \<Rightarrow>
    ('bf rpc_parser option \<times> error option) \<times> 'bf rpc_client \<times> 'w" where
  "Client_Parser R cli w =
    (let ((g, err), cli, w) = Client_Genesis R cli w
     in if err \<noteq> None then ((None, err), cli, w)
        else ((Some \<lparr>Parser_networkID = Client_networkID cli, Parser_chainID = Client_chainID cli,
                Parser_genesis = g\<rparr>, None), cli, w))"

end
