(* ===== verification/Rpc_Claims.thy ===== *)
theory Rpc_Claims
  imports Rpc
begin

text \<open>
  What a client learns from a node: the contracts \<open>rpc_transport\<close> of the JSON-RPC requester
  and \<open>wait_spec\<close> of \<open>rpc.Wait\<close>, and the claims about the client over a server over the
  controller.
\<close>

section \<open>The transport\<close>

text \<open>
  \<open>C w\<close> is the node that the server has when the request is handled. A call either brings back
  what the method of the server gave, an error as its text, or fails with an error of its own.
\<close>

locale rpc_transport =
  fixes R :: "('bf, 'w) rpc_requester" and C :: "'w \<Rightarrow> 'bf rpc_controller" and parse :: bech32
  assumes tx_answered: "Send_tx R ''tx'' args reply w = ((err, resp), w') \<Longrightarrow>
      (err = None \<and> Server_Tx (C w) args reply = Some (None, resp)) \<or>
      (\<exists>e e' r. err = Some e' \<and> Server_Tx (C w) args reply = Some (Some e, r) \<and> ErrorText R e' = ErrorText R e) \<or>
      (\<exists>e'. err = Some e' \<and> \<not> Contains (ErrorText R e') (ErrorText R ErrTxNotFound))"
    and balance_answered: "Send_balance R ''balance'' bargs breply w = ((None, bresp), w') \<Longrightarrow>
      Server_Balance parse (C w) bargs breply = Some (None, bresp)"
    and status_answered: "Send_verifyStatus R ''verifyStatus'' vargs vreply w = ((None, vresp), w') \<Longrightarrow>
      Server_VerifyStatus (C w) vargs vreply = Some (None, vresp)"
    and genesis_answered: "Send_genesis R ''genesis'' greply w = ((None, gresp), w') \<Longrightarrow>
      Server_Genesis (C w) greply = (None, gresp)"
begin

lemma Tx_reports:
  assumes "Client_Tx R cli i w = ((found, ok, ts, fee, None), w')"
  shows "if found then \<exists>un. RC_GetTransaction (C w) i = Some (True, ts, ok, un, fee, None)
    else \<exists>f t s u fe e. RC_GetTransaction (C w) i = Some (f, t, s, u, fe, e) \<and>
      (e = None \<and> \<not> f \<or> (\<exists>x. e = Some x \<and> Contains (ErrorText R x) (ErrorText R ErrTxNotFound)))"
proof -
  obtain err resp w1 where send: "Send_tx R ''tx'' \<lparr>TxArgs_TxID = i\<rparr> zero_tx_reply w = ((err, resp), w1)"
    by (metis prod.exhaust)
  show ?thesis
    using tx_answered [OF send] assms send
    by (auto simp: Client_Tx_def Server_Tx_def zero_tx_reply_def bind_eq_Some_conv split: if_splits option.splits)
qed

lemma Balance_reports:
  assumes "Client_Balance R cli addr w = ((b, None), w')"
  obtains a where "parse HRP addr = Inr a" "RC_GetBalanceFromState (C w) a = Some (b, None)"
proof -
  obtain resp where "Send_balance R ''balance'' \<lparr>BalanceArgs_Address = addr\<rparr> \<lparr>BalanceReply_Amount = 0\<rparr> w = ((None, resp), w')"
    "b = BalanceReply_Amount resp"
    using assms by (auto simp: Client_Balance_def split: prod.splits)
  from balance_answered [OF this(1)] this(2) that show ?thesis
    by (auto simp: Server_Balance_def bind_eq_Some_conv split: sum.splits if_splits)
qed

lemma VerifyStatus_reports:
  assumes "Client_VerifyStatus R cli i w = ((b, None), w')"
  shows "RC_GetVerifyStatusFromState (C w) i = Some (b, None)"
proof -
  obtain resp where "Send_verifyStatus R ''verifyStatus'' \<lparr>VerifyStatusArgs_TxID = i\<rparr>
      \<lparr>VerifyStatusReply_Status = False\<rparr> w = ((None, resp), w')" "b = VerifyStatusReply_Status resp"
    using assms by (auto simp: Client_VerifyStatus_def split: prod.splits)
  from status_answered [OF this(1)] this(2) show ?thesis
    by (auto simp: Server_VerifyStatus_def bind_eq_Some_conv split: if_splits)
qed

lemma Genesis_reports:
  assumes "Client_Genesis R cli w = ((g, None), cli', w')" "Client_g cli = None"
  shows "g = Some (RC_Genesis (C w)) \<and> cli' = cli\<lparr>Client_g := g\<rparr>"
proof -
  obtain resp where send: "Send_genesis R ''genesis'' \<lparr>GenesisReply_Genesis = None\<rparr> w = ((None, resp), w')"
    and g: "g = GenesisReply_Genesis resp" "cli' = cli\<lparr>Client_g := g\<rparr>"
    using assms by (auto simp: Client_Genesis_def Let_def split: prod.splits if_splits)
  from genesis_answered [OF send] g show ?thesis
    by (auto simp: Server_Genesis_def)
qed

end

section \<open>Reading the committed state\<close>

text \<open>\<open>ReadState\<close> of the VM reads the committed state; a missing entry is \<open>ErrNotFound\<close>.\<close>

locale committed_read =
  fixes f :: read_state and m :: "bytes \<rightharpoonup> bytes"
  assumes ReadState_one: "f [k] = (case m k of None \<Rightarrow> ([[]], [Some ErrNotFound]) | Some v \<Rightarrow> ([v], [None]))"
begin

lemma Balance_read:
  assumes "wf_balances m"
  shows "GetBalanceFromState f a = Some (amount_of (account m a), None)"
  using assms
  by (cases "m (BalanceKey a)")
    (simp_all add: GetBalanceFromState_def ReadState_one innerGetBalance_def account_def index_def Uint64_def wf_balances_def)

lemma VerifyStatus_read:
  "m (StatusKey i) = None \<Longrightarrow> GetVerifyStatusFromState f i = Some (False, Some ErrNotFound)"
  by (simp add: GetVerifyStatusFromState_def ReadState_one index_def)

end

definition read_view :: "(bytes \<rightharpoonup> bytes) \<Rightarrow> read_state" where
  "read_view m ks = (map (\<lambda>k. case m k of None \<Rightarrow> [] | Some v \<Rightarrow> v) ks,
    map (\<lambda>k. if m k = None then Some ErrNotFound else None) ks)"

interpretation read_view: committed_read "read_view m" m for m
  by unfold_locales (simp add: read_view_def split: option.split)

section \<open>Waiting\<close>

text \<open>\<open>polled check n s s'\<close>: the check says no \<open>n\<close> times and then yes, from \<open>s\<close> to \<open>s'\<close>.\<close>

inductive polled :: "'s wait_check \<Rightarrow> nat \<Rightarrow> 's \<Rightarrow> 's \<Rightarrow> bool" for check where
  polled_yes: "check s = ((True, None), s') \<Longrightarrow> polled check 0 s s'"
| polled_no: "check s = ((False, None), s1) \<Longrightarrow> polled check n s1 s' \<Longrightarrow> polled check (Suc n) s s'"

inductive_cases polled_0 [elim!]: "polled check 0 s s'"
inductive_cases polled_Suc [elim!]: "polled check (Suc n) s s'"

lemma polled_last: "polled check n s s' \<Longrightarrow> \<exists>s0. check s0 = ((True, None), s')"
  by (induction rule: polled.induct) blast+

text \<open>
  \<open>Wait\<close> returns without an error only after the check said yes, and it does when the check
  says yes within \<open>patience\<close> polls, the time the context leaves.
\<close>

locale wait_spec =
  fixes Wait :: "'s wait_check \<Rightarrow> 's \<Rightarrow> error option \<times> 's" and patience :: nat
  assumes Wait_polled: "Wait check s = (None, s') \<Longrightarrow> \<exists>n. polled check n s s'"
    and Wait_returns: "polled check n s s' \<Longrightarrow> n < patience \<Longrightarrow> Wait check s = (None, s')"

fun ref_wait :: "nat \<Rightarrow> 's wait_check \<Rightarrow> 's \<Rightarrow> error option \<times> 's" where
  "ref_wait 0 check s = (Some (ErrExternal ''context deadline exceeded''), s)"
| "ref_wait (Suc n) check s =
    (case check s of ((_, Some e), s) \<Rightarrow> (Some e, s)
     | ((True, None), s) \<Rightarrow> (None, s)
     | ((False, None), s) \<Rightarrow> ref_wait n check s)"

lemma ref_wait_polled: "ref_wait n check s = (None, s') \<Longrightarrow> \<exists>k. polled check k s s'"
  by (induction n arbitrary: s) (auto split: prod.splits option.splits bool.splits intro: polled.intros)

lemma ref_wait_returns: "polled check k s s' \<Longrightarrow> k < n \<Longrightarrow> ref_wait n check s = (None, s')"
proof (induction arbitrary: n rule: polled.induct)
  case (polled_yes s s')
  then show ?case by (cases n) simp_all
next
  case (polled_no s s1 k s')
  then show ?case by (cases n) simp_all
qed

interpretation ref_wait: wait_spec "ref_wait n" n for n
  by unfold_locales (auto intro: ref_wait_polled ref_wait_returns)

lemma transaction_check_eq:
  assumes "Client_Tx R cli i w = ((found, ok, ts, fee, None), w')"
  shows "transaction_check R cli i (w, a, b) = ((found, None), (w', ok, fee))"
  using assms by (simp add: transaction_check_def)

lemma transaction_polls:
  assumes "\<forall>k < n. \<exists>ok ts fee. Client_Tx R cli i (ws k) = ((False, ok, ts, fee, None), ws (Suc k))"
    and "Client_Tx R cli i (ws n) = ((True, ok, ts, fee, None), w')"
  shows "polled (transaction_check R cli i) n (ws 0, False, 0) (w', ok, fee)"
proof -
  have "polled (transaction_check R cli i) (n - k) (ws k, a, b) (w', ok, fee)" if "k \<le> n" for k a b
    using that
  proof (induction "n - k" arbitrary: k a b)
    case 0
    then have "k = n" by simp
    then show ?case
      using transaction_check_eq [OF assms(2)] by (auto intro: polled.intros)
  next
    case (Suc m)
    then have k: "k < n" "n - k = Suc m" by simp_all
    with assms(1) obtain o' t' f' where "Client_Tx R cli i (ws k) = ((False, o', t', f', None), ws (Suc k))" by blast
    from transaction_check_eq [OF this] have
      "transaction_check R cli i (ws k, a, b) = ((False, None), (ws (Suc k), o', f'))" .
    moreover have "polled (transaction_check R cli i) (n - Suc k) (ws (Suc k), o', f') (w', ok, fee)"
      using Suc k by simp
    ultimately show ?case
      using k by (auto intro: polled.intros simp: Suc_diff_Suc [symmetric])
  qed
  from this [of 0] show ?thesis by auto
qed

section \<open>A reference transport\<close>

text \<open>The world are the nodes that will answer, one per request; the last one stays.\<close>

fun ref_text :: "error \<Rightarrow> string" where
  "ref_text ErrTxNotFound = ''tx not found''"
| "ref_text (ErrExternal s) = s"
| "ref_text (ErrMessage s) = s"
| "ref_text e = ''error''"

definition answer ::
  "('bf rpc_controller \<Rightarrow> (error option \<times> 'r) go) \<Rightarrow> 'r \<Rightarrow> 'bf rpc_controller list \<Rightarrow>
    (error option \<times> 'r) \<times> 'bf rpc_controller list" where
  "answer f reply w = (case w of [] \<Rightarrow> ((Some (ErrExternal ''down''), reply), [])
    | c # cs \<Rightarrow> ((case f c of None \<Rightarrow> (Some (ErrExternal ''down''), reply) | Some r \<Rightarrow> r), if cs = [] then w else cs))"

definition ref_requester :: "('bf, 'bf rpc_controller list) rpc_requester" where
  "ref_requester =
    \<lparr>Send_genesis = (\<lambda>m r. answer (\<lambda>c. Some (Server_Genesis c r)) r), Send_tx = (\<lambda>m a r. answer (\<lambda>c. Server_Tx c a r) r),
     Send_balance = (\<lambda>m a r. answer (\<lambda>c. Server_Balance ref_bech32 c a r) r), Send_bytes = (\<lambda>m b w. (None, w)),
     Send_verifyStatus = (\<lambda>m a r. answer (\<lambda>c. Server_VerifyStatus c a r) r), ErrorText = ref_text\<rparr>"

lemma down_text: "\<not> Contains ''down'' ''tx not found''"
  by (simp add: Contains_def)

interpretation ref_transport: rpc_transport ref_requester hd ref_bech32
proof
  show "(err = None \<and> Server_Tx (hd w) args reply = Some (None, resp)) \<or>
      (\<exists>e e' r. err = Some e' \<and> Server_Tx (hd w) args reply = Some (Some e, r) \<and>
        ErrorText ref_requester e' = ErrorText ref_requester e) \<or>
      (\<exists>e'. err = Some e' \<and> \<not> Contains (ErrorText ref_requester e') (ErrorText ref_requester ErrTxNotFound))"
    if "Send_tx ref_requester ''tx'' args reply w = ((err, resp), w')" for args reply w err resp and w' :: "'a rpc_controller list"
    using that by (cases err) (auto simp: ref_requester_def answer_def down_text split: list.splits option.splits)
qed (auto simp: ref_requester_def answer_def split: list.splits option.splits)

section \<open>The claims\<close>

text \<open>
  What a client reports of a transaction is what the node it reached had recorded: time,
  outcome and fee; and when it reports that there is none, without an error, the node had
  none, or an error of it reads like that.
\<close>

theorem client_tx_faithful:
  assumes "rpc_transport R C parse" "Client_Tx R cli i w = ((found, ok, ts, fee, None), w')"
  shows "if found then \<exists>un. RC_GetTransaction (C w) i = Some (True, ts, ok, un, fee, None)
    else \<exists>f t s u fe e. RC_GetTransaction (C w) i = Some (f, t, s, u, fe, e) \<and>
      (e = None \<and> \<not> f \<or> (\<exists>x. e = Some x \<and> Contains (ErrorText R x) (ErrorText R ErrTxNotFound)))"
  by (rule rpc_transport.Tx_reports [OF assms])

text \<open>A node that has transaction 7 and no other.\<close>

definition ref_node :: "nat rpc_controller" where
  "ref_node = \<lparr>RC_Genesis = Default ref_merkledb,
    RC_GetTransaction = (\<lambda>i. Some (if i = 7 then (True, 50, True, [1, 1, 1, 1, 1], 6, None)
      else (False, 0, False, replicate 5 0, 0, None))),
    RC_GetBalanceFromState = (\<lambda>a. Some (5, None)), RC_GetVerifyStatusFromState = (\<lambda>i. Some (False, Some ErrNotFound))\<rparr>"

lemma ref_node_Tx:
  "Client_Tx ref_requester cli 7 (ref_node # ns) = ((True, True, 50, 6, None), if ns = [] then [ref_node] else ns)"
  "Client_Tx ref_requester cli 8 (ref_node # ns) = ((False, False, -1, 0, None), if ns = [] then [ref_node] else ns)"
  by (simp_all add: Client_Tx_def ref_requester_def answer_def Server_Tx_def ref_node_def Contains_def)

theorem client_tx_faithful_witness:
  "RC_GetTransaction ref_node 7 = Some (True, 50, True, [1, 1, 1, 1, 1], 6, None)"
  using client_tx_faithful [OF ref_transport.rpc_transport_axioms ref_node_Tx(1) [of _ "[]"]]
  by (simp add: ref_node_def)

text \<open>
  A client that asks a node about a transaction of a block it accepted learns the outcome,
  the time and the fee that the block recorded, whatever else happened to the transaction:
  from the client's call through the server, the controller, the database and its records.
\<close>

theorem clients_see_accepted_blocks:
  assumes "fees_spec F" "meta_db_spec D pending content"
    and "Controller_Accepted H J X F D blk c w = Some (None, c', w')"
    and "StoreTransactions (Ctl_config c)" "distinct (map BlockTx_ID (Block_Txs blk))"
    and "\<And>r. r \<in> set (Block_Results blk) \<Longrightarrow> length (Result_Consumed r) = 5"
    and "rpc_transport R C parse" "C v = controller_rpc F D readState c'" "k < length (Block_Txs blk)"
    and "Client_Tx R cli (BlockTx_ID (Block_Txs blk ! k)) v = ((found, ok, ts, fee, None), v')"
  shows "found \<and> ok = Result_Success (Block_Results blk ! k) \<and> ts = Block_Timestamp blk \<and>
    fee = Result_Fee (Block_Results blk ! k)"
proof -
  have "RC_GetTransaction (C v) (BlockTx_ID (Block_Txs blk ! k)) =
      Some (True, Block_Timestamp blk, Result_Success (Block_Results blk ! k),
        Result_Consumed (Block_Results blk ! k), Result_Fee (Block_Results blk ! k), None)"
    using records_of_block [OF assms(1-5)] assms(6,9) by (simp add: assms(8) controller_rpc_def)
  with rpc_transport.Tx_reports [OF assms(7,10)] show ?thesis
    by (cases found) auto
qed

text \<open>The failed submission of the example block, as a client sees it.\<close>

theorem clients_see_accepted_blocks_witness:
  "\<exists>c' w'. Controller_Accepted ref_http ref_json ref_id_text ref_fees ref_db ref_block ref_controller
      ([], [[1], [1]]) = Some (None, c', w') \<and>
    (\<forall>found ok ts fee v'. Client_Tx ref_requester (NewJSONRPCClient ''uri/'' 1 2) 7
        [controller_rpc ref_fees ref_db (\<lambda>ks. ([], [])) c'] = ((found, ok, ts, fee, None), v') \<longrightarrow>
      found \<and> \<not> ok \<and> ts = 50 \<and> fee = 5)"
proof -
  obtain c' w' where r: "Controller_Accepted ref_http ref_json ref_id_text ref_fees ref_db ref_block ref_controller
    ([], [[1], [1]]) = Some (None, c', w')"
    by (rule ref_accepted)
  have facts: "StoreTransactions (Ctl_config ref_controller)" "distinct (map BlockTx_ID (Block_Txs ref_block))"
    "\<And>x. x \<in> set (Block_Results ref_block) \<Longrightarrow> length (Result_Consumed x) = 5"
    by (auto simp: ref_controller_def ref_block_def)
  have "found \<and> \<not> ok \<and> ts = 50 \<and> fee = 5"
    if "Client_Tx ref_requester (NewJSONRPCClient ''uri/'' 1 2) 7
        [controller_rpc ref_fees ref_db (\<lambda>ks. ([], [])) c'] = ((found, ok, ts, fee, None), v')"
    for found ok ts fee v'
    using clients_see_accepted_blocks [OF ref_fees.fees_spec_axioms ref_db.meta_db_spec_axioms
        r facts ref_transport.rpc_transport_axioms, where v = "[controller_rpc ref_fees ref_db (\<lambda>ks. ([], [])) c']"
        and readState = "\<lambda>ks. ([], [])" and k = 0] that
    by (simp add: ref_block_def) blast
  with r show ?thesis by blast
qed

text \<open>
  C18: waiting for a transaction ends: when the node says that it has none a number of times
  within the patience of the context, and then has it, the client returns the outcome and
  the fee of that answer; and whatever it returns without an error is an answer of the node.
\<close>

theorem wait_for_transaction:
  assumes "wait_spec Wait patience" "n < patience"
    and "\<forall>k < n. \<exists>ok ts fee. Client_Tx R cli i (ws k) = ((False, ok, ts, fee, None), ws (Suc k))"
    and "Client_Tx R cli i (ws n) = ((True, ok, ts, fee, None), w')"
  shows "Client_WaitForTransaction Wait R cli i (ws 0) = ((ok, fee, None), w') \<and>
    (\<forall>v ok' fee' v'. Client_WaitForTransaction Wait R cli i v = ((ok', fee', None), v') \<longrightarrow>
      (\<exists>v0 ts'. Client_Tx R cli i v0 = ((True, ok', ts', fee', None), v')))"
proof (intro conjI allI impI)
  have "Wait (transaction_check R cli i) (ws 0, False, 0) = (None, w', ok, fee)"
    by (rule wait_spec.Wait_returns [OF assms(1) transaction_polls [OF assms(3,4)] assms(2)])
  then show "Client_WaitForTransaction Wait R cli i (ws 0) = ((ok, fee, None), w')"
    by (simp add: Client_WaitForTransaction_def)
next
  fix v ok' fee' v'
  assume "Client_WaitForTransaction Wait R cli i v = ((ok', fee', None), v')"
  then have "Wait (transaction_check R cli i) (v, False, 0) = (None, v', ok', fee')"
    by (auto simp: Client_WaitForTransaction_def split: prod.splits if_splits)
  from wait_spec.Wait_polled [OF assms(1) this] obtain k where
    "polled (transaction_check R cli i) k (v, False, 0) (v', ok', fee')" ..
  from polled_last [OF this] obtain s0 where "transaction_check R cli i s0 = ((True, None), v', ok', fee')" ..
  then show "\<exists>v0 ts'. Client_Tx R cli i v0 = ((True, ok', ts', fee', None), v')"
    by (cases s0) (auto simp: transaction_check_def split: prod.splits if_splits)
qed

text \<open>Two nodes without transaction 7, then one that has it, and a patience of five polls.\<close>

definition ref_empty_node :: "nat rpc_controller" where
  "ref_empty_node = ref_node\<lparr>RC_GetTransaction := \<lambda>i. Some (False, 0, False, replicate 5 0, 0, None)\<rparr>"

theorem wait_for_transaction_witness:
  "Client_WaitForTransaction (ref_wait 5) ref_requester (NewJSONRPCClient ''uri'' 1 2) 7
    [ref_empty_node, ref_empty_node, ref_node] = ((True, 6, None), [ref_node])"
proof -
  let ?ws = "\<lambda>k. drop k [ref_empty_node, ref_empty_node, ref_node]"
  have "\<forall>k < 2. \<exists>ok ts fee. Client_Tx ref_requester (NewJSONRPCClient ''uri'' 1 2) 7 (?ws k) =
      ((False, ok, ts, fee, None), ?ws (Suc k))"
    by (auto simp: less_Suc_eq numeral_2_eq_2 Client_Tx_def ref_requester_def answer_def Server_Tx_def
        ref_node_def ref_empty_node_def Contains_def)
  from wait_for_transaction [OF ref_wait.wait_spec_axioms _ this, of 5] ref_node_Tx(1) [of _ "[]"]
  show ?thesis by simp
qed

text \<open>
  The balance a client learns, and waits for, is that of the account behind the address it
  gave: no client is told that a balance has reached an amount unless the state of a node
  has it.
\<close>

theorem client_balance_faithful:
  assumes "rpc_transport R C parse" "wait_spec Wait patience"
    and "Client_WaitForBalance Wait R cli addr amount w = (None, w')"
  shows "\<exists>v a b. parse HRP addr = Inr a \<and> RC_GetBalanceFromState (C v) a = Some (b, None) \<and> amount \<le> b \<and>
    Client_Balance R cli addr v = ((b, None), w')"
proof -
  from wait_spec.Wait_polled [OF assms(2) assms(3) [unfolded Client_WaitForBalance_def]] obtain k where
    "polled (balance_check R cli addr amount) k w w'" ..
  from polled_last [OF this] obtain v where "balance_check R cli addr amount v = ((True, None), w')" ..
  then obtain b where b: "Client_Balance R cli addr v = ((b, None), w')" "amount \<le> b"
    by (auto simp: balance_check_def split: prod.splits if_splits)
  from rpc_transport.Balance_reports [OF assms(1) b(1)] b show ?thesis by blast
qed

theorem client_balance_faithful_witness:
  "Client_WaitForBalance (ref_wait 5) ref_requester (NewJSONRPCClient ''uri'' 1 2) ''a'' 5 [ref_node] = (None, [ref_node]) \<and>
    (\<exists>v a b. RC_GetBalanceFromState (hd v :: nat rpc_controller) a = Some (b, None) \<and> 5 \<le> b)"
proof -
  have r: "Client_WaitForBalance (ref_wait 5) ref_requester (NewJSONRPCClient ''uri'' 1 2) ''a'' 5 [ref_node] = (None, [ref_node])"
    by (simp add: Client_WaitForBalance_def eval_nat_numeral balance_check_def Client_Balance_def ref_requester_def
        answer_def Server_Balance_def ref_node_def ref_bech32_def)
  from client_balance_faithful [OF ref_transport.rpc_transport_axioms ref_wait.wait_spec_axioms r] r
  show ?thesis by blast
qed

text \<open>
  The balance that the API reads from the committed state is the one that an executing
  action reads from its view of the same state: the two read paths of the code agree, on
  accounts that are there and on those that are not.
\<close>

theorem read_paths_agree:
  assumes "committed_read f (kv s)" "state_view M kv scope" "BalanceKey a \<in> scope" "wf_balances (kv s)"
  shows "GetBalanceFromState f a = GetBalance M s a \<and>
    GetBalanceFromState f a = Some (amount_of (account (kv s) a), None)"
proof -
  have "GetBalance M s a = Some (amount_of (account (kv s) a), None)"
  proof (cases "kv s (BalanceKey a)")
    case None
    then show ?thesis
      using state_view.get_none [OF assms(2,3)]
      by (simp add: GetBalance_def getBalance_def innerGetBalance_def account_def)
  next
    case (Some v)
    then show ?thesis
      using state_view.get_some [OF assms(2,3)] assms(4)
      by (simp add: GetBalance_def getBalance_def innerGetBalance_def account_def wf_balances_def Uint64_def)
  qed
  with committed_read.Balance_read [OF assms(1,4)] show ?thesis by simp
qed

theorem read_paths_agree_witness:
  "(GetBalanceFromState (read_view (one_account 1 100)) 1 = GetBalance (mem_view {BalanceKey 1}) (one_account 1 100) 1 \<and>
    GetBalanceFromState (read_view (one_account 1 100)) 1 = Some (amount_of (account (one_account 1 100) 1), None)) \<and>
    amount_of (account (one_account 1 100) 1) = 100"
  by (rule conjI, rule read_paths_agree [OF read_view.committed_read_axioms mem_view.state_view_axioms]) simp_all

text \<open>
  A client asks for the genesis once: a client made for a node gets, the first time, a
  parser whose rules have every parameter of the node's own, and from then on the same
  parser without a request. Only the requester and the validators are not those of the node.
\<close>

theorem client_parser_agrees:
  assumes "rpc_transport R C parse" "C w = controller_rpc F D readState c"
    and "Client_Parser R (NewJSONRPCClient uri (Ctl_networkID c) (Ctl_chainID c)) w = ((Some p, None), cli', w')"
  shows "(\<exists>r. Parser_Rules p t = Some r \<and>
      r = (Controller_Rules vals c t)\<lparr>Rules_client := New [], Rules_f := (\<lambda>_. ([], {}))\<rparr>) \<and>
    Parser_ChainID p = Ctl_chainID c \<and> Client_Parser R cli' v = ((Some p, None), cli', v)"
proof -
  obtain g cli where cli: "cli = NewJSONRPCClient uri (Ctl_networkID c) (Ctl_chainID c)"
    and g: "Client_Genesis R cli w = ((g, None), cli', w')"
    and p: "p = \<lparr>Parser_networkID = Client_networkID cli', Parser_chainID = Client_chainID cli', Parser_genesis = g\<rparr>"
    using assms(3) by (auto simp: Client_Parser_def split: prod.splits if_splits)
  have none: "Client_g cli = None" "Client_networkID cli = Ctl_networkID c" "Client_chainID cli = Ctl_chainID c"
    by (simp_all add: cli NewJSONRPCClient_def Let_def)
  from rpc_transport.Genesis_reports [OF assms(1) g none(1)] have
    "g = Some (Ctl_genesis c)" "cli' = cli\<lparr>Client_g := g\<rparr>"
    by (simp_all add: assms(2) controller_rpc_def Controller_Genesis_def)
  with p none show ?thesis
    by (simp add: Parser_Rules_def Parser_ChainID_def Controller_Rules_def Genesis_Rules_def Client_Parser_def
        Client_Genesis_def)
qed

theorem client_parser_agrees_witness:
  "\<exists>p cli' w'. Client_Parser ref_requester (NewJSONRPCClient ''uri/'' 1 2)
      [controller_rpc ref_fees ref_db (\<lambda>ks. ([], [])) ref_controller] = ((Some p, None), cli', w') \<and>
    Parser_ChainID p = 2 \<and> Client_Parser ref_requester cli' [] = ((Some p, None), cli', [])"
proof -
  have ids: "Ctl_networkID ref_controller = 1" "Ctl_chainID ref_controller = 2"
    by (simp_all add: ref_controller_def)
  obtain p cli' w' where r: "Client_Parser ref_requester (NewJSONRPCClient ''uri/'' 1 2)
      [controller_rpc ref_fees ref_db (\<lambda>ks. ([], [])) ref_controller] = ((Some p, None), cli', w')"
    by (simp add: Client_Parser_def Client_Genesis_def NewJSONRPCClient_def ref_requester_def answer_def
        Server_Genesis_def controller_rpc_def)
  from client_parser_agrees [OF ref_transport.rpc_transport_axioms _ r [folded ids], where vals = "\<lambda>_. ([], {})" and v = "[]"]
    r show ?thesis
    by (auto simp: ids)
qed

end
