(* ===== verification/Node.thy ===== *)
theory Node
  imports Rpc_Claims
begin

text \<open>
  A running node: blocks are accepted and requests arrive at the listener of the \<open>trustless\<close>
  module, in any order. The step function is the two operations on one state; the two sides
  meet in the module and in the VM, whose prices change with the blocks and are read when a
  vote is submitted. The claims are about all runs: what the listener submits, and what of it
  depends on the order in which blocks and requests interleave.
\<close>

section \<open>The node as a state machine\<close>

text \<open>
  The state: the controller, the network of the requester, the VM that transactions are
  submitted to and prices are read from, the answers written so far, and the errors that
  accepting blocks has returned to the VM. \<open>NE_applied\<close> is what hypersdk does to the VM for a
  block that was accepted. A request carries its path, its method, its
  body and the two readings of the clock.
\<close>

datatype node_event =
    BlockAccepted block
  | RequestArrived string string bytes i64 i64

fun is_block :: "node_event \<Rightarrow> bool" where
  "is_block (BlockAccepted blk) = True"
| "is_block (RequestArrived path verb body now1 now2) = False"

record ('f, 'bf, 'k, 'sk, 'd, 'w, 'v) node =
  Node_ctl :: "('f, 'bf, 'k, 'sk, 'd) controller"
  Node_net :: 'w
  Node_vm :: 'v
  Node_out :: "response list"
  Node_errs :: "error list"

record ('r, 'b, 'd, 'w, 'g, 'sk2, 'm, 'bf, 'k, 'sk, 'x, 'v) node_env =
  NE_http :: "('w, 'r) http_lib"
  NE_json :: handler_json
  NE_text :: id_text
  NE_fees :: fees_lib
  NE_db :: "('b, 'd) meta_db"
  NE_bls :: "('k, 'g, 'sk2) bls_lib"
  NE_warp :: "'m warp_lib"
  NE_trustless :: "('bf, 'k, 'm, 'sk, 'x, 'v) trustless_env"
  NE_applied :: "block \<Rightarrow> 'v \<Rightarrow> 'v"

definition serve ::
  "('k, 'g, 'sk2) bls_lib \<Rightarrow> 'm warp_lib \<Rightarrow> ('bf, 'k, 'm, 'sk, 'x, 'v) trustless_env \<Rightarrow> string \<Rightarrow> string \<Rightarrow> bytes \<Rightarrow>
    i64 \<Rightarrow> i64 \<Rightarrow> ('k, 'sk) trustless \<Rightarrow> 'v \<Rightarrow> (response list \<times> ('k, 'sk) trustless \<times> 'v) go" where
  "serve L W E path verb body now1 now2 t v =
    (case snd (ListenResults t) path verb of
       None \<Rightarrow> Some ([], t, v)
     | Some PingRoute \<Rightarrow> Some (trustless_ping, t, v)
     | Some SubmitResultRoute \<Rightarrow> submitResult L W E now1 now2 t body v)"

fun node_step ::
  "('r, 'b, 'd, 'w, 'g, 'sk2, 'm, 'bf, 'k, 'sk, 'x, 'v) node_env \<Rightarrow> node_event \<Rightarrow>
    ('f, 'bf, 'k, 'sk, 'd, 'w, 'v) node \<Rightarrow> ('f, 'bf, 'k, 'sk, 'd, 'w, 'v) node go" where
  "node_step N (BlockAccepted blk) n =
    do { (err, c, w) \<leftarrow> Controller_Accepted (NE_http N) (NE_json N) (NE_text N) (NE_fees N) (NE_db N) blk
           (Node_ctl n) (Node_net n);
         Some (n\<lparr>Node_ctl := c, Node_net := w, Node_vm := NE_applied N blk (Node_vm n),
           Node_errs := Node_errs n @ (case err of None \<Rightarrow> [] | Some e \<Rightarrow> [e])\<rparr>) }"
| "node_step N (RequestArrived path verb body now1 now2) n =
    do { (out, t, v) \<leftarrow> serve (NE_bls N) (NE_warp N) (NE_trustless N) path verb body now1 now2
           (Ctl_trustless (Node_ctl n)) (Node_vm n);
         Some (n\<lparr>Node_ctl := (Node_ctl n)\<lparr>Ctl_trustless := t\<rparr>, Node_vm := v, Node_out := Node_out n @ out\<rparr>) }"

fun node_run ::
  "('r, 'b, 'd, 'w, 'g, 'sk2, 'm, 'bf, 'k, 'sk, 'x, 'v) node_env \<Rightarrow> node_event list \<Rightarrow>
    ('f, 'bf, 'k, 'sk, 'd, 'w, 'v) node \<Rightarrow> ('f, 'bf, 'k, 'sk, 'd, 'w, 'v) node go" where
  "node_run N [] n = Some n"
| "node_run N (e # es) n = do { n \<leftarrow> node_step N e n; node_run N es n }"

fun_cases node_run_Nil: "node_run N [] n = Some n'"
fun_cases node_run_Cons: "node_run N (e # es) n = Some n'"

lemma node_run_append: "node_run N (es @ fs) n = do { n \<leftarrow> node_run N es n; node_run N fs n }"
proof (induction es arbitrary: n)
  case (Cons e es)
  then show ?case by (cases "node_step N e n") simp_all
qed simp

section \<open>The two sides do not meet\<close>

text \<open>Accepting a block does not look at the recorded results, a request not at the queue.\<close>

definition with_verified ::
  "(ID \<rightharpoonup> bool) \<Rightarrow> ('f, 'bf, 'k, 'sk, 'd) controller \<Rightarrow> ('f, 'bf, 'k, 'sk, 'd) controller" where
  "with_verified V c = c\<lparr>Ctl_trustless := (Ctl_trustless c)\<lparr>verifiedActions := V\<rparr>\<rparr>"

lemma with_verified_sel [simp]:
  "Ctl_config (with_verified V c) = Ctl_config c" "Ctl_fileDB (with_verified V c) = Ctl_fileDB c"
  "Ctl_metaDB (with_verified V c) = Ctl_metaDB c" "Ctl_transfer (with_verified V c) = Ctl_transfer c"
  "Ctl_trustless (with_verified V c) = (Ctl_trustless c)\<lparr>verifiedActions := V\<rparr>"
  by (simp_all add: with_verified_def)

lemma with_verified_upd:
  "(with_verified V c)\<lparr>Ctl_trustless := t\<lparr>verifiedActions := V\<rparr>\<rparr> = with_verified V (c\<lparr>Ctl_trustless := t\<rparr>)"
  "(with_verified V c)\<lparr>Ctl_trustless := t\<lparr>verifiedActions := V\<rparr>, Ctl_transfer := k\<rparr> =
    with_verified V (c\<lparr>Ctl_trustless := t, Ctl_transfer := k\<rparr>)"
  "(with_verified V c)\<lparr>Ctl_transfer := k\<rparr> = with_verified V (c\<lparr>Ctl_transfer := k\<rparr>)"
  "(with_verified V c)\<lparr>Ctl_metaDB := d\<rparr> = with_verified V (c\<lparr>Ctl_metaDB := d\<rparr>)"
  by (simp_all add: with_verified_def)

lemma accept_action_verified:
  "accept_action H J X i dir er a (t\<lparr>verifiedActions := V\<rparr>) w =
    (let (t, w) = accept_action H J X i dir er a t w in (t\<lparr>verifiedActions := V\<rparr>, w))"
  by (cases a) (simp_all add: ListenActions_def split: prod.split)

lemma Accepted_loop_verified:
  fixes c :: "('f, 'bf, 'k, 'sk, 'd) controller"
  shows "Accepted_loop H J X F D time results i txs (with_verified V c) wb w =
    map_option (\<lambda>(e, c, wb, w). (e, with_verified V c, wb, w)) (Accepted_loop H J X F D time results i txs c wb w)"
proof (induction txs arbitrary: i c wb w)
  case (Cons tx txs)
  obtain t1 w1 where a: "accept_action H J X (BlockTx_ID tx) (Ctl_fileDB c) (Client (Ctl_config c))
      (BlockTx_Action tx) (Ctl_trustless c) w = (t1, w1)"
    by (rule prod.exhaust)
  show ?case
  proof (cases "index results i")
    case (Some r)
    obtain e wb1 where put: "(if Config_GetStoreTransactions (Ctl_config c)
        then StoreTransaction F (Batch_Put D) wb (BlockTx_ID tx) time (Result_Success r) (Result_Consumed r) (Result_Fee r)
        else (None, wb)) = (e, wb1)"
      by (rule prod.exhaust)
    have sel: "Ctl_config (x\<lparr>Ctl_trustless := y\<rparr>) = Ctl_config x"
      for x :: "('f, 'bf, 'k, 'sk, 'd) controller" and y by simp
    show ?thesis
      by (simp only: sel Accepted_loop.simps Some bind.bind_lunit Let_def prod.case a accept_action_verified
          with_verified_sel put) (simp add: with_verified_upd Cons.IH)
  qed simp
qed simp

lemma Controller_Accepted_verified:
  "Controller_Accepted H J X F D blk (with_verified V c) w =
    map_option (\<lambda>(e, c, w). (e, with_verified V c, w)) (Controller_Accepted H J X F D blk c w)"
  by (cases "Accepted_loop H J X F D (Block_Timestamp blk) (Block_Results blk) 0 (Block_Txs blk) c
      (NewBatch_db D (Ctl_metaDB c)) w")
    (auto simp: Controller_Accepted_def Accepted_loop_verified with_verified_upd Let_def split: prod.split)

text \<open>Accepting changes the queue of the module only.\<close>

lemma accept_action_frame:
  "accept_action H J X i dir er a t w = (t', w') \<Longrightarrow> t' = t\<lparr>queuedActions := queuedActions t'\<rparr>"
  by (cases a) (auto simp: ListenActions_def split: prod.splits)

lemma Accepted_loop_frame:
  fixes c :: "('f, 'bf, 'k, 'sk, 'd) controller"
  assumes "Accepted_loop H J X F D time results i txs c wb w = Some (e, c', wb', w')"
  shows "Ctl_trustless c' = (Ctl_trustless c)\<lparr>queuedActions := queuedActions (Ctl_trustless c')\<rparr>"
  using assms
proof (induction txs arbitrary: i c wb w)
  case (Cons tx txs)
  obtain t1 w1 where a: "accept_action H J X (BlockTx_ID tx) (Ctl_fileDB c) (Client (Ctl_config c))
      (BlockTx_Action tx) (Ctl_trustless c) w = (t1, w1)"
    by (rule prod.exhaust)
  note t1 = accept_action_frame [OF a]
  obtain r where r: "index results i = Some r"
    using Cons.prems by (auto simp: bind_eq_Some_conv)
  obtain e0 wb1 where put: "(if Config_GetStoreTransactions (Ctl_config c)
      then StoreTransaction F (Batch_Put D) wb (BlockTx_ID tx) time (Result_Success r) (Result_Consumed r) (Result_Fee r)
      else (None, wb)) = (e0, wb1)"
    by (rule prod.exhaust)
  have sel: "Ctl_config (x\<lparr>Ctl_trustless := y\<rparr>) = Ctl_config x"
    for x :: "('f, 'bf, 'k, 'sk, 'd) controller" and y by simp
  define c1 where "c1 = (if e0 = None \<and> Result_Success r \<and> is_transfer (BlockTx_Action tx)
    then c\<lparr>Ctl_trustless := t1, Ctl_transfer := Ctl_transfer (c\<lparr>Ctl_trustless := t1\<rparr>) + 1\<rparr> else c\<lparr>Ctl_trustless := t1\<rparr>)"
  have "Ctl_trustless c1 = t1" by (simp add: c1_def)
  moreover have "c' = c1 \<or> Accepted_loop H J X F D time results (i + 1) txs c1 wb1 w1 = Some (e, c', wb', w')"
    using Cons.prems
    by (simp only: sel Accepted_loop.simps r bind.bind_lunit Let_def prod.case a put flip: c1_def)
      (auto split: if_splits)
  ultimately have "Ctl_trustless c' = t1\<lparr>queuedActions := queuedActions (Ctl_trustless c')\<rparr>"
    using Cons.IH by auto
  then show ?case
    by (subst (asm) t1) simp
qed simp

lemma Controller_Accepted_frame:
  "Controller_Accepted H J X F D blk c w = Some (e, c', w') \<Longrightarrow>
    Ctl_trustless c' = (Ctl_trustless c)\<lparr>queuedActions := queuedActions (Ctl_trustless c')\<rparr>"
  by (auto simp: Controller_Accepted_def bind_eq_Some_conv Let_def split: prod.splits if_splits
      dest: Accepted_loop_frame)

text \<open>A request changes the recorded results only, and does not look at the queue.\<close>

lemma serve_frame:
  "serve L W E path verb body n1 n2 t v = Some (out, t', v') \<Longrightarrow> t' = t\<lparr>verifiedActions := verifiedActions t'\<rparr>"
  by (auto simp: serve_def submitResult_def bind_eq_Some_conv Let_def split: prod.splits sum.splits option.splits route.splits)

lemma submitResult_queue:
  "submitResult L W E n1 n2 (t\<lparr>queuedActions := q\<rparr>) body v =
    map_option (\<lambda>(out, t, v). (out, t\<lparr>queuedActions := q\<rparr>, v)) (submitResult L W E n1 n2 t body v)"
proof (cases "DecodeSubmitResult E body")
  case (Inr req)
  have swap: "t\<lparr>queuedActions := q, verifiedActions := V\<rparr> = t\<lparr>verifiedActions := V, queuedActions := q\<rparr>" for V
    by simp
  show ?thesis
    by (simp add: submitResult_def Inr Let_def case_prod_unfold map_option_bind o_def swap)
qed (simp add: submitResult_def)

lemma serve_queue:
  "serve L W E path verb body n1 n2 (t\<lparr>queuedActions := q\<rparr>) v =
    map_option (\<lambda>(out, t, v). (out, t\<lparr>queuedActions := q\<rparr>, v)) (serve L W E path verb body n1 n2 t v)"
  by (simp add: serve_def ListenResults_def submitResult_queue)

section \<open>What a node submits\<close>

text \<open>
  \<open>subs\<close> are the transactions the VM was given by the node, oldest first; a block adds none.
\<close>

locale vm_view =
  fixes E :: "('bf, 'k, 'm, 'sk, 'x, 'v) trustless_env" and applied :: "block \<Rightarrow> 'v \<Rightarrow> 'v" and subs :: "'v \<Rightarrow> 'x list"
  assumes submit_view: "Env_submit E txs v = (errs, v') \<Longrightarrow> subs v' = subs v @ txs"
    and applied_view: "subs (applied blk v) = subs v"
begin

lemma GenerateTransaction_submits:
  assumes "GenerateTransaction E n1 n2 a f v = Some (r, v')"
  shows "subs v' = subs v \<or> (\<exists>x ts chain fee. subs v' = subs v @ [x] \<and> SignTx E ts chain fee a f = Inr x)"
  using assms
  by (auto simp: GenerateTransaction_def Let_def bind_eq_Some_conv split: sum.splits prod.splits dest!: submit_view)

end

text \<open>
  A vote of a node with this key: on a result that was handed in as \<open>body\<close>, for the identifier
  it names, or the zero identifier.
\<close>

definition vote_for ::
  "('k, 'g, 'sk2) bls_lib \<Rightarrow> ('bf, 'k, 'm, 'sk, 'x, 'v) trustless_env \<Rightarrow> 'k \<Rightarrow> bytes \<Rightarrow> validator_vote \<Rightarrow> bool" where
  "vote_for L E pk body v \<longleftrightarrow> (\<exists>req. DecodeSubmitResult E body = Inr req \<and>
    Vote_TxID v = (case IDFromString E (SubmitResult_TxID req) of Inl _ \<Rightarrow> 0 | Inr i \<Rightarrow> i) \<and>
    Vote_Vote v = SubmitResult_IsValid req \<and> Vote_PublicKey v = Bls_PublicKeyToBytes L pk)"

definition node_vote ::
  "('k, 'g, 'sk2) bls_lib \<Rightarrow> ('bf, 'k, 'm, 'sk, 'x, 'v) trustless_env \<Rightarrow> ('k, 'sk) trustless \<Rightarrow> node_event list \<Rightarrow> 'x \<Rightarrow> bool"
where
  "node_vote L E t es x \<longleftrightarrow> (\<exists>v body now1 now2 ts chain fee.
    RequestArrived ''/submit-result'' ''POST'' body now1 now2 \<in> set es \<and>
    vote_for L E (Trustless_publicKey t) body v \<and>
    SignTx E ts chain fee (ActionValidatorVote v) (Trustless_authFactory t) = Inr x)"

lemma serve_submits:
  assumes "vm_view E applied subs" "serve L W E path verb body n1 n2 t v = Some (out, t', v')"
  shows "\<exists>xs. subs v' = subs v @ xs \<and> (\<forall>x \<in> set xs. node_vote L E t [RequestArrived path verb body n1 n2] x)"
proof (cases "path = ''/submit-result'' \<and> verb = ''POST''")
  case route: True
  then have run: "submitResult L W E n1 n2 t body v = Some (out, t', v')"
    using assms(2) by (simp add: serve_def ListenResults_def)
  show ?thesis
  proof (cases "DecodeSubmitResult E body")
    case (Inl e)
    then show ?thesis using run by (intro exI [of _ "[]"]) (auto simp: submitResult_def)
  next
    case (Inr req)
    obtain i sig txID err where
      i: "i = (case IDFromString E (SubmitResult_TxID req) of Inl _ \<Rightarrow> 0 | Inr i \<Rightarrow> i)" and
      gen: "GenerateTransaction E n1 n2 (ActionValidatorVote (result_vote L t i (SubmitResult_IsValid req) sig))
        (Trustless_authFactory t) v = Some ((txID, err), v')"
      by (rule submitResult_decoded [OF Inr run]) (rule that)
    have vote: "vote_for L E (Trustless_publicKey t) body (result_vote L t i (SubmitResult_IsValid req) sig)"
      by (simp add: vote_for_def result_vote_def Inr i)
    from vm_view.GenerateTransaction_submits [OF assms(1) gen] show ?thesis
    proof (elim disjE exE conjE)
      fix x ts chain fee
      assume "subs v' = subs v @ [x]" "SignTx E ts chain fee
        (ActionValidatorVote (result_vote L t i (SubmitResult_IsValid req) sig)) (Trustless_authFactory t) = Inr x"
      with vote route show ?thesis
        by (intro exI [of _ "[x]"]) (auto simp: node_vote_def)
    qed auto
  qed
next
  case False
  then show ?thesis
    using assms(2) by (intro exI [of _ "[]"]) (auto simp: serve_def ListenResults_def trustless_ping_def split: if_splits)
qed

lemma node_vote_mono: "node_vote L E t es x \<Longrightarrow> set es \<subseteq> set fs \<Longrightarrow> node_vote L E t fs x"
  unfolding node_vote_def by blast

definition same_keys :: "('k, 'sk) trustless \<Rightarrow> ('k, 'sk) trustless \<Rightarrow> bool" where
  "same_keys t t' \<longleftrightarrow> Trustless_publicKey t' = Trustless_publicKey t \<and> Trustless_authFactory t' = Trustless_authFactory t"

lemma node_vote_same_keys: "same_keys t t' \<Longrightarrow> node_vote L E t' es x = node_vote L E t es x"
  by (simp add: same_keys_def node_vote_def)

lemma node_step_submits:
  assumes "vm_view (NE_trustless N) (NE_applied N) subs" "node_step N e n = Some n'"
  shows "same_keys (Ctl_trustless (Node_ctl n)) (Ctl_trustless (Node_ctl n')) \<and>
    (\<exists>xs. subs (Node_vm n') = subs (Node_vm n) @ xs \<and>
      (\<forall>x \<in> set xs. node_vote (NE_bls N) (NE_trustless N) (Ctl_trustless (Node_ctl n)) [e] x))"
proof (cases e)
  case (BlockAccepted blk)
  then obtain r c w where "Controller_Accepted (NE_http N) (NE_json N) (NE_text N) (NE_fees N) (NE_db N) blk
      (Node_ctl n) (Node_net n) = Some (r, c, w)" "Node_ctl n' = c" "Node_vm n' = NE_applied N blk (Node_vm n)"
    using assms(2) by (auto simp: bind_eq_Some_conv)
  note n' = this(2,3) and frame = Controller_Accepted_frame [OF this(1)]
  have "same_keys (Ctl_trustless (Node_ctl n)) (Ctl_trustless c)"
    unfolding same_keys_def by (subst (1 2) frame) simp
  then show ?thesis
    by (auto simp: n' vm_view.applied_view [OF assms(1)])
next
  case (RequestArrived path verb body n1 n2)
  then obtain out t v where s: "serve (NE_bls N) (NE_warp N) (NE_trustless N) path verb body n1 n2
      (Ctl_trustless (Node_ctl n)) (Node_vm n) = Some (out, t, v)"
    and n': "n' = n\<lparr>Node_ctl := (Node_ctl n)\<lparr>Ctl_trustless := t\<rparr>, Node_vm := v, Node_out := Node_out n @ out\<rparr>"
    using assms(2) by (auto simp: bind_eq_Some_conv)
  have "same_keys (Ctl_trustless (Node_ctl n)) t"
    unfolding same_keys_def by (subst (1 2) serve_frame [OF s]) simp
  with serve_submits [OF assms(1) s] show ?thesis
    by (auto simp: n' RequestArrived)
qed

lemma node_run_submits:
  assumes "vm_view (NE_trustless N) (NE_applied N) subs" "node_run N es n = Some n'"
  shows "\<exists>xs. subs (Node_vm n') = subs (Node_vm n) @ xs \<and>
    (\<forall>x \<in> set xs. node_vote (NE_bls N) (NE_trustless N) (Ctl_trustless (Node_ctl n)) es x)"
  using assms(2)
proof (induction es arbitrary: n)
  case (Cons e es)
  then obtain n1 where n1: "node_step N e n = Some n1" "node_run N es n1 = Some n'"
    by (auto simp: bind_eq_Some_conv)
  from node_step_submits [OF assms(1) n1(1)] obtain xs where
    keys: "same_keys (Ctl_trustless (Node_ctl n)) (Ctl_trustless (Node_ctl n1))" and
    xs: "subs (Node_vm n1) = subs (Node_vm n) @ xs"
    "\<forall>x \<in> set xs. node_vote (NE_bls N) (NE_trustless N) (Ctl_trustless (Node_ctl n)) [e] x"
    by blast
  from Cons.IH [OF n1(2)] obtain ys where ys: "subs (Node_vm n') = subs (Node_vm n1) @ ys"
    "\<forall>x \<in> set ys. node_vote (NE_bls N) (NE_trustless N) (Ctl_trustless (Node_ctl n1)) es x"
    by blast
  show ?case
  proof (intro exI [of _ "xs @ ys"] conjI ballI)
    fix x assume "x \<in> set (xs @ ys)"
    with xs(2) ys(2) show "node_vote (NE_bls N) (NE_trustless N) (Ctl_trustless (Node_ctl n)) (e # es) x"
      by (auto simp: node_vote_same_keys [OF keys] intro: node_vote_mono)
  qed (simp add: ys(1) xs(1))
qed auto

section \<open>When the order matters\<close>

text \<open>
  A listener that returns: every message can be made, the signer returns on a message, and
  submitting one transaction brings back an answer.
\<close>

locale responsive =
  fixes W :: "'m warp_lib" and E :: "('bf, 'k, 'm, 'sk, 'x, 'v) trustless_env"
  assumes message_made: "\<exists>m. NewUnsignedMessage W (Rules_NetworkID (Env_rules E 0)) (Rules_ChainID (Env_rules E 0))
      (GetMessage i b) = Inr m"
    and signer_returns: "\<exists>sg. Signer_Sign E (Some m) = Some sg"
    and submit_answers: "Env_submit E [x] v = (errs, v') \<Longrightarrow> errs \<noteq> []"
begin

lemma GenerateTransaction_returns: "\<exists>r v'. GenerateTransaction E n1 n2 a f v = Some (r, v')"
  by (auto simp: GenerateTransaction_def Let_def index_def split: sum.split prod.split dest: submit_answers)

text \<open>A result that decodes is voted on; the vote and what is recorded do not depend on the VM.\<close>

lemma submitResult_shape:
  assumes "DecodeSubmitResult E body = Inr req"
  shows "\<exists>outs t' a. \<forall>w. submitResult L W E n1 n2 t body w =
    do { ((txID, err), w) \<leftarrow> GenerateTransaction E n1 n2 a (Trustless_authFactory t) w;
         Some (outs @ [ResultSubmitted txID], t', w) }"
proof -
  define i where "i = (case IDFromString E (SubmitResult_TxID req) of Inl _ \<Rightarrow> 0 | Inr i \<Rightarrow> i)"
  obtain m where m: "NewUnsignedMessage W (Rules_NetworkID (Env_rules E 0)) (Rules_ChainID (Env_rules E 0))
      (GetMessage i (SubmitResult_IsValid req)) = Inr m"
    using message_made by blast
  obtain sg where sg: "Signer_Sign E (Some m) = Some sg"
    using signer_returns by blast
  define outs where "outs = (case IDFromString E (SubmitResult_TxID req) of Inl err \<Rightarrow> [HttpError err StatusBadRequest] | Inr i \<Rightarrow> []) @
    (case sg of Inl err \<Rightarrow> [HttpError err StatusBadRequest] | Inr s \<Rightarrow> [])"
  define a where "a = ActionValidatorVote (result_vote L t i (SubmitResult_IsValid req) (case sg of Inl err \<Rightarrow> [] | Inr s \<Rightarrow> s))"
  have "submitResult L W E n1 n2 t body w =
    do { ((txID, err), w) \<leftarrow> GenerateTransaction E n1 n2 a (Trustless_authFactory t) w;
         Some (outs @ [ResultSubmitted txID],
           t\<lparr>verifiedActions := (verifiedActions t)(i \<mapsto> SubmitResult_IsValid req)\<rparr>, w) }" for w
    using assms m sg
    by (cases "IDFromString E (SubmitResult_TxID req)"; cases sg)
      (simp_all add: submitResult_def i_def outs_def a_def result_vote_def Let_def)
  then show ?thesis by blast
qed

lemma serve_shape:
  obtains outs t' where "\<And>w. serve L W E path verb body n1 n2 t w = Some (outs, t', w)"
  | outs t' a where "\<And>w. serve L W E path verb body n1 n2 t w =
      do { ((txID, err), w) \<leftarrow> GenerateTransaction E n1 n2 a (Trustless_authFactory t) w;
           Some (outs @ [ResultSubmitted txID], t', w) }"
proof (cases "snd (ListenResults t) path verb = Some SubmitResultRoute")
  case True
  then have s: "serve L W E path verb body n1 n2 t w = submitResult L W E n1 n2 t body w" for w
    by (simp add: serve_def)
  show thesis
  proof (cases "DecodeSubmitResult E body")
    case (Inl e)
    then show thesis
      by (intro that(1)) (simp add: s submitResult_def)
  next
    case (Inr req)
    from submitResult_shape [OF this] that(2) show thesis
      unfolding s by blast
  qed
next
  case False
  then have "serve L W E path verb body n1 n2 t w =
      Some (case snd (ListenResults t) path verb of None \<Rightarrow> [] | Some r \<Rightarrow> trustless_ping, t, w)" for w
    by (auto simp: serve_def split: option.split route.split)
  then show thesis by (rule that(1))
qed

lemma serve_returns: "\<exists>r. serve L W E path verb body n1 n2 t v = Some r"
proof (rule serve_shape [of L path verb body n1 n2 t])
  fix outs t' a
  assume s: "\<And>w. serve L W E path verb body n1 n2 t w =
      do { ((txID, err), w) \<leftarrow> GenerateTransaction E n1 n2 a (Trustless_authFactory t) w;
           Some (outs @ [ResultSubmitted txID], t', w) }"
  obtain txID err v' where "GenerateTransaction E n1 n2 a (Trustless_authFactory t) v = Some ((txID, err), v')"
    using GenerateTransaction_returns by (metis prod.collapse)
  then show ?thesis by (simp add: s)
qed simp

end

text \<open>
  A VM in which every vote is submitted, whatever the prices are; \<open>act\<close> reads the action of a
  signed transaction.
\<close>

locale steady_vm = vm_view E applied subs + responsive W E
  for E :: "('bf, 'k, 'm, 'sk, 'x, 'v) trustless_env" and applied and subs :: "'v \<Rightarrow> 'x list" and W :: "'m warp_lib" +
  fixes act :: "'x \<Rightarrow> action"
  assumes priced: "\<exists>p. Env_unitPrices E v = Inr p"
    and estimated: "\<exists>u. EstimateMaxUnits E r a f = Inr u"
    and affordable: "Env_unitPrices E v = Inr p \<Longrightarrow> EstimateMaxUnits E r a f = Inr u \<Longrightarrow> \<exists>fee. MulSum E p u = Inr fee"
    and sign_action: "\<exists>x. SignTx E ts chain fee a f = Inr x \<and> act x = a"
begin

lemma GenerateTransaction_steady:
  "\<exists>r v'. GenerateTransaction E n1 n2 a f v = Some (r, v') \<and> map act (subs v') = map act (subs v) @ [a]"
proof -
  obtain p where p: "Env_unitPrices E v = Inr p"
    using priced by blast
  obtain u where u: "EstimateMaxUnits E (Trustless_Parser_Rules E n1) a f = Inr u"
    using estimated by blast
  obtain fee where fee: "MulSum E p u = Inr fee"
    using affordable [OF p u] by blast
  let ?r = "Trustless_Parser_Rules E n2"
  obtain x where x: "SignTx E (UnixRMilli E n2 (Rules_GetValidityWindow ?r)) (Rules_ChainID ?r) fee a f = Inr x" "act x = a"
    using sign_action by blast
  obtain errs v' where s: "Env_submit E [x] v = (errs, v')"
    by (rule prod.exhaust)
  show ?thesis
    using submit_answers [OF s] submit_view [OF s] x(2)
    by (simp add: GenerateTransaction_def p u fee x(1) s index_def Let_def)
qed

lemma serve_steady:
  obtains t' as where "\<And>v. \<exists>out v'. serve L W E path verb body n1 n2 t v = Some (out, t', v') \<and>
    map act (subs v') = map act (subs v) @ as"
proof (rule serve_shape [of L path verb body n1 n2 t])
  fix outs t'
  assume "\<And>w. serve L W E path verb body n1 n2 t w = Some (outs, t', w)"
  then show thesis by (intro that [of t' "[]"]) simp
next
  fix outs t' a
  assume s: "\<And>w. serve L W E path verb body n1 n2 t w =
      do { ((txID, err), w) \<leftarrow> GenerateTransaction E n1 n2 a (Trustless_authFactory t) w;
           Some (outs @ [ResultSubmitted txID], t', w) }"
  show thesis
  proof (rule that [of t' "[a]"])
    fix v
    obtain txID err v' where "GenerateTransaction E n1 n2 a (Trustless_authFactory t) v = Some ((txID, err), v')"
      "map act (subs v') = map act (subs v) @ [a]"
      using GenerateTransaction_steady [of n1 n2 a "Trustless_authFactory t" v] by (metis prod.collapse)
    then show "\<exists>out v'. serve L W E path verb body n1 n2 t v = Some (out, t', v') \<and>
        map act (subs v') = map act (subs v) @ [a]"
      by (simp add: s)
  qed
qed

end

text \<open>Two nodes that differ in the answers they wrote and in the fees of their votes at most.\<close>

definition same_outcome ::
  "('x \<Rightarrow> action) \<Rightarrow> ('v \<Rightarrow> 'x list) \<Rightarrow> ('f, 'bf, 'k, 'sk, 'd, 'w, 'v) node \<Rightarrow> ('f, 'bf, 'k, 'sk, 'd, 'w, 'v) node \<Rightarrow> bool" where
  "same_outcome act subs n1 n2 \<longleftrightarrow> Node_ctl n1 = Node_ctl n2 \<and> Node_net n1 = Node_net n2 \<and> Node_errs n1 = Node_errs n2 \<and>
    map act (subs (Node_vm n1)) = map act (subs (Node_vm n2))"

definition agree ::
  "('x \<Rightarrow> action) \<Rightarrow> ('v \<Rightarrow> 'x list) \<Rightarrow> ('f, 'bf, 'k, 'sk, 'd, 'w, 'v) node go \<Rightarrow> ('f, 'bf, 'k, 'sk, 'd, 'w, 'v) node go \<Rightarrow> bool" where
  "agree act subs = rel_option (same_outcome act subs)"

lemma agree_refl [simp]: "agree act subs x x"
  by (cases x) (simp_all add: agree_def same_outcome_def)

lemma agree_trans: "agree act subs x y \<Longrightarrow> agree act subs y z \<Longrightarrow> agree act subs x z"
  by (cases x; cases y; cases z) (simp_all add: agree_def same_outcome_def)

lemma agree_bind:
  assumes "agree act subs x y" "\<And>m n. same_outcome act subs m n \<Longrightarrow> agree act subs (f m) (g n)"
  shows "agree act subs (x \<bind> f) (y \<bind> g)"
  using assms by (cases x; cases y) (simp_all add: agree_def)

lemma step_agrees:
  assumes "steady_vm (NE_trustless N) (NE_applied N) subs (NE_warp N) act" "same_outcome act subs m n"
  shows "agree act subs (node_step N e m) (node_step N e n)"
proof (cases e)
  case (BlockAccepted blk)
  have "subs (NE_applied N blk v) = subs v" for v
    using vm_view.applied_view assms(1) by (auto simp: steady_vm_def)
  then show ?thesis
    using assms(2)
    by (cases "Controller_Accepted (NE_http N) (NE_json N) (NE_text N) (NE_fees N) (NE_db N) blk (Node_ctl n) (Node_net n)")
      (auto simp: BlockAccepted agree_def same_outcome_def)
next
  case (RequestArrived path verb body n1 n2)
  show ?thesis
  proof (rule steady_vm.serve_steady [OF assms(1), of "NE_bls N" path verb body n1 n2 "Ctl_trustless (Node_ctl n)"])
    fix t as
    assume s: "\<And>v. \<exists>out v'. serve (NE_bls N) (NE_warp N) (NE_trustless N) path verb body n1 n2
        (Ctl_trustless (Node_ctl n)) v = Some (out, t, v') \<and> map act (subs v') = map act (subs v) @ as"
    show ?thesis
      using s [of "Node_vm m"] s [of "Node_vm n"] assms(2)
      by (auto simp: RequestArrived agree_def same_outcome_def)
  qed
qed

lemma run_agrees:
  assumes "steady_vm (NE_trustless N) (NE_applied N) subs (NE_warp N) act" "same_outcome act subs m n"
  shows "agree act subs (node_run N es m) (node_run N es n)"
  using assms(2)
proof (induction es arbitrary: m n)
  case Nil
  then show ?case by (simp add: agree_def)
next
  case (Cons e es)
  then show ?case
    using agree_bind [OF step_agrees [OF assms(1) Cons.prems] Cons.IH] by simp
qed

lemma steps_commute:
  assumes "steady_vm (NE_trustless N) (NE_applied N) subs (NE_warp N) act"
  shows "agree act subs
    (do { n \<leftarrow> node_step N (RequestArrived path verb body n1 n2) n; node_step N (BlockAccepted blk) n })
    (do { n \<leftarrow> node_step N (BlockAccepted blk) n; node_step N (RequestArrived path verb body n1 n2) n })"
proof -
  let ?A = "Controller_Accepted (NE_http N) (NE_json N) (NE_text N) (NE_fees N) (NE_db N) blk"
  let ?S = "serve (NE_bls N) (NE_warp N) (NE_trustless N) path verb body n1 n2"
  have subs: "subs (NE_applied N blk v) = subs v" for v
    using vm_view.applied_view assms by (auto simp: steady_vm_def)
  obtain t as where s: "\<And>v. \<exists>out v'. ?S (Ctl_trustless (Node_ctl n)) v = Some (out, t, v') \<and>
      map act (subs v') = map act (subs v) @ as"
    by (rule steady_vm.serve_steady [OF assms, of "NE_bls N" path verb body n1 n2 "Ctl_trustless (Node_ctl n)"])
      (rule that)
  obtain out1 v1 where s1: "?S (Ctl_trustless (Node_ctl n)) (Node_vm n) = Some (out1, t, v1)"
    "map act (subs v1) = map act (subs (Node_vm n)) @ as"
    using s by blast
  obtain out2 v2 where s2: "?S (Ctl_trustless (Node_ctl n)) (NE_applied N blk (Node_vm n)) = Some (out2, t, v2)"
    "map act (subs v2) = map act (subs (Node_vm n)) @ as"
    using s [of "NE_applied N blk (Node_vm n)"] by (auto simp: subs)
  note t = serve_frame [OF s1(1)]
  have ctl: "(Node_ctl n)\<lparr>Ctl_trustless := t\<rparr> = with_verified (verifiedActions t) (Node_ctl n)"
    by (subst t) (simp add: with_verified_def)
  show ?thesis
  proof (cases "?A (Node_ctl n) (Node_net n)")
    case None
    then show ?thesis
      by (simp add: s1(1) ctl Controller_Accepted_verified agree_def)
  next
    case (Some a)
    obtain e c w where a: "?A (Node_ctl n) (Node_net n) = Some (e, c, w)"
      using Some by (cases a) simp
    note c = Controller_Accepted_frame [OF a]
    have after: "?S (Ctl_trustless c) (NE_applied N blk (Node_vm n)) =
        Some (out2, t\<lparr>queuedActions := queuedActions (Ctl_trustless c)\<rparr>, v2)"
      by (subst c, subst serve_queue) (simp add: s2(1))
    have "t\<lparr>queuedActions := queuedActions (Ctl_trustless c)\<rparr> = (Ctl_trustless c)\<lparr>verifiedActions := verifiedActions t\<rparr>"
      by (subst t, subst (2) c) simp
    then have "c\<lparr>Ctl_trustless := t\<lparr>queuedActions := queuedActions (Ctl_trustless c)\<rparr>\<rparr> = with_verified (verifiedActions t) c"
      by (simp add: with_verified_def)
    then show ?thesis
      using s1(2) s2(2)
      by (simp add: s1(1) a ctl Controller_Accepted_verified after agree_def same_outcome_def subs)
  qed
qed

lemma request_past_blocks:
  assumes "steady_vm (NE_trustless N) (NE_applied N) subs (NE_warp N) act" "\<not> is_block e" "\<forall>b \<in> set bs. is_block b"
  shows "agree act subs (node_run N (e # bs @ es) n) (node_run N (bs @ e # es) n)"
  using assms(3)
proof (induction bs arbitrary: n)
  case (Cons b bs)
  obtain blk where b: "b = BlockAccepted blk"
    using Cons.prems by (cases b) auto
  obtain path verb body n1 n2 where e: "e = RequestArrived path verb body n1 n2"
    using assms(2) by (cases e) auto
  have "node_run N (e # (b # bs) @ es) n =
      do { n \<leftarrow> do { n \<leftarrow> node_step N e n; node_step N b n }; node_run N (bs @ es) n }"
    by (cases "node_step N e n") simp_all
  moreover have "agree act subs \<dots> (do { n \<leftarrow> do { n \<leftarrow> node_step N b n; node_step N e n }; node_run N (bs @ es) n })"
    unfolding b e by (rule agree_bind [OF steps_commute [OF assms(1)] run_agrees [OF assms(1)]])
  moreover have "do { n \<leftarrow> do { n \<leftarrow> node_step N b n; node_step N e n }; node_run N (bs @ es) n } =
      do { n \<leftarrow> node_step N b n; node_run N (e # bs @ es) n }"
    by (cases "node_step N b n") simp_all
  moreover have "agree act subs (do { n \<leftarrow> node_step N b n; node_run N (e # bs @ es) n }) (node_run N ((b # bs) @ e # es) n)"
    using Cons by (cases "node_step N b n") simp_all
  ultimately show ?case
    using agree_trans by metis
qed simp

lemma runs_agree_blocks_first:
  assumes "steady_vm (NE_trustless N) (NE_applied N) subs (NE_warp N) act"
  shows "agree act subs (node_run N es n) (node_run N (filter is_block es @ filter (\<lambda>e. \<not> is_block e) es) n)"
proof (induction es arbitrary: n)
  case (Cons e es)
  show ?case
  proof (cases "is_block e")
    case True
    then show ?thesis
      using Cons.IH by (cases "node_step N e n") simp_all
  next
    case False
    have 1: "agree act subs (node_run N (e # es) n) (node_run N (e # filter is_block es @ filter (\<lambda>e. \<not> is_block e) es) n)"
      using Cons.IH by (cases "node_step N e n") simp_all
    have 2: "agree act subs (node_run N (e # filter is_block es @ filter (\<lambda>e. \<not> is_block e) es) n)
        (node_run N (filter is_block es @ e # filter (\<lambda>e. \<not> is_block e) es) n)"
      by (rule request_past_blocks [OF assms False]) simp
    from agree_trans [OF 1 2] False show ?thesis by simp
  qed
qed simp

section \<open>The claims\<close>

text \<open>
  C17: over any run, what a node submits are votes, one for a result that was handed in by a
  \<open>POST\<close> to its listener, on the transaction and with the outcome that the body names (the zero
  identifier when it does not parse), signed by its own factory and carrying its own key.
\<close>

theorem node_votes_only:
  assumes "vm_view (NE_trustless N) (NE_applied N) subs" "node_run N es n = Some n'" "subs (Node_vm n) = []"
  shows "\<forall>x \<in> set (subs (Node_vm n')). node_vote (NE_bls N) (NE_trustless N) (Ctl_trustless (Node_ctl n)) es x"
  using node_run_submits [OF assms(1,2)] assms(3) by auto

text \<open>The reference node: a ping, and a result for transaction 1.\<close>

definition ref_node_env ::
  "(bytes, (bytes \<times> bytes) list, bytes \<rightharpoonup> bytes, http_request list \<times> bytes list, nat \<times> 768 word, 384 word, bytes, nat,
    nat \<times> 384 word, byte, action, action list) node_env" where
  "ref_node_env = \<lparr>NE_http = ref_http, NE_json = ref_json, NE_text = ref_id_text, NE_fees = ref_fees, NE_db = ref_db,
    NE_bls = ref_bls, NE_warp = ref_warp, NE_trustless = ref_env, NE_applied = (\<lambda>blk v. v)\<rparr>"

definition ref_running ::
  "(nat, nat, nat \<times> 384 word, byte, bytes \<rightharpoonup> bytes, http_request list \<times> bytes list, action list) node" where
  "ref_running = \<lparr>Node_ctl = ref_controller, Node_net = ([], [[1], [1]]), Node_vm = [], Node_out = [], Node_errs = []\<rparr>"

interpretation ref_vm: vm_view ref_env "\<lambda>blk v. v" "\<lambda>v. v"
  by unfold_locales (auto simp: ref_env_def)

definition ref_events :: "node_event list" where
  "ref_events = [RequestArrived ''/ping'' ''GET'' [] 0 0, RequestArrived ''/submit-result'' ''POST'' [1, 65] 0 0]"

lemma ref_run:
  obtains n' where "node_run ref_node_env ref_events ref_running = Some n'" "length (Node_vm n') = 1"
    "Node_out n' = [Pong, ResultSubmitted 9]"
  by (simp add: ref_events_def ref_node_env_def ref_running_def serve_def ListenResults_def trustless_ping_def
      submitResult_def ref_env_def ref_warp_def ref_signer_def bytes_string_def GenerateTransaction_def index_def Let_def)

theorem node_votes_only_witness:
  "\<exists>n'. node_run ref_node_env ref_events ref_running = Some n' \<and> length (Node_vm n') = 1 \<and>
    (\<forall>x \<in> set (Node_vm n'). node_vote ref_bls ref_env (Ctl_trustless (Node_ctl ref_running)) ref_events x)"
proof -
  obtain n' where n': "node_run ref_node_env ref_events ref_running = Some n'" "length (Node_vm n') = 1"
    by (rule ref_run)
  have "vm_view (NE_trustless ref_node_env) (NE_applied ref_node_env) (\<lambda>v. v)"
    using ref_vm.vm_view_axioms by (simp add: ref_node_env_def)
  from node_votes_only [OF this n'(1)] n' show ?thesis
    by (simp add: ref_running_def ref_node_env_def)
qed

text \<open>
  C16: what of a run depends on the order in which blocks are accepted and requests are
  served, in an environment that always prices, signs and takes a vote. A run panics exactly
  when the run does that accepts the blocks first, in their order, and then serves the
  requests, in theirs; otherwise the two end with the same controller (queue, results,
  records, counter), the same traffic with the verifier service and the same errors, and have
  submitted votes on the same transactions with the same outcomes, in the same order. What
  may differ are the fees of the votes, since blocks change the prices.
\<close>

theorem node_interleaving:
  assumes "steady_vm (NE_trustless N) (NE_applied N) subs (NE_warp N) act"
  shows "case (node_run N es n, node_run N (filter is_block es @ filter (\<lambda>e. \<not> is_block e) es) n) of
      (None, None) \<Rightarrow> True
    | (Some n1, Some n2) \<Rightarrow> Node_ctl n1 = Node_ctl n2 \<and> Node_net n1 = Node_net n2 \<and> Node_errs n1 = Node_errs n2 \<and>
        map act (subs (Node_vm n1)) = map act (subs (Node_vm n2))
    | _ \<Rightarrow> False"
  using runs_agree_blocks_first [OF assms, of es n]
  by (auto simp: agree_def same_outcome_def elim!: option.rel_cases)

text \<open>
  A VM whose price rises with every block: the vote that is served before the block pays less
  than after it, and is the same vote.
\<close>

definition ref_pricing :: "(nat, nat \<times> 384 word, bytes, byte, u64 \<times> action, u64 \<times> (u64 \<times> action) list) trustless_env" where
  "ref_pricing = \<lparr>Signer_Sign = ref_signer, Env_unitPrices = (\<lambda>w. Inr [fst w]),
    Env_submit = (\<lambda>txs w. (map (\<lambda>_. None) txs, (fst w, snd w @ txs))), Env_rules = (\<lambda>t. ref_rules 1),
    EstimateMaxUnits = (\<lambda>r a f. Inr [1]), MulSum = (\<lambda>p u. Inr (sum_list (map2 (*) p u))),
    UnixRMilli = (\<lambda>now d. now + d), SignTx = (\<lambda>ts c fee a f. Inr (fee, a)), TxID_of = (\<lambda>x. 9),
    IDFromString = IDFromString ref_env, DecodeSubmitResult = DecodeSubmitResult ref_env\<rparr>"

definition ref_pricing_node ::
  "(bytes, (bytes \<times> bytes) list, bytes \<rightharpoonup> bytes, http_request list \<times> bytes list, nat \<times> 768 word, 384 word, bytes, nat,
    nat \<times> 384 word, byte, u64 \<times> action, u64 \<times> (u64 \<times> action) list) node_env" where
  "ref_pricing_node = \<lparr>NE_http = ref_http, NE_json = ref_json, NE_text = ref_id_text, NE_fees = ref_fees, NE_db = ref_db,
    NE_bls = ref_bls, NE_warp = ref_warp, NE_trustless = ref_pricing, NE_applied = (\<lambda>blk w. (fst w + 1, snd w))\<rparr>"

interpretation ref_pricing: steady_vm ref_pricing "\<lambda>blk w. (fst w + 1, snd w)" snd ref_warp snd
  by unfold_locales (auto simp: ref_pricing_def ref_warp_def ref_signer_def)

definition empty_block :: block where
  "empty_block = \<lparr>Block_Txs = [], Block_Results = [], Block_Timestamp = 50\<rparr>"

definition ref_order :: "node_event list" where
  "ref_order = [RequestArrived ''/submit-result'' ''POST'' [1, 65] 0 0, BlockAccepted empty_block]"

definition ref_priced ::
  "(nat, nat, nat \<times> 384 word, byte, bytes \<rightharpoonup> bytes, http_request list \<times> bytes list, u64 \<times> (u64 \<times> action) list) node" where
  "ref_priced = \<lparr>Node_ctl = ref_controller, Node_net = ([], []), Node_vm = (5, []), Node_out = [], Node_errs = []\<rparr>"

theorem node_interleaving_witness:
  "\<exists>n1 n2. node_run ref_pricing_node ref_order ref_priced = Some n1 \<and>
    node_run ref_pricing_node (rev ref_order) ref_priced = Some n2 \<and>
    map fst (snd (Node_vm n1)) = [5] \<and> map fst (snd (Node_vm n2)) = [6] \<and>
    map snd (snd (Node_vm n1)) = map snd (snd (Node_vm n2)) \<and> Node_ctl n1 = Node_ctl n2"
proof -
  let ?run = "\<lambda>es. node_run ref_pricing_node es ref_priced"
  obtain n1 where n1: "?run ref_order = Some n1" "map fst (snd (Node_vm n1)) = [5]"
    by (simp add: ref_order_def ref_pricing_node_def ref_priced_def serve_def ListenResults_def submitResult_def
        ref_pricing_def ref_env_def ref_warp_def ref_signer_def bytes_string_def GenerateTransaction_def index_def Let_def
        empty_block_def Controller_Accepted_def ref_db_def)
  obtain n2 where n2: "?run (rev ref_order) = Some n2" "map fst (snd (Node_vm n2)) = [6]"
    by (simp add: ref_order_def ref_pricing_node_def ref_priced_def serve_def ListenResults_def submitResult_def
        ref_pricing_def ref_env_def ref_warp_def ref_signer_def bytes_string_def GenerateTransaction_def index_def Let_def
        empty_block_def Controller_Accepted_def ref_db_def)
  have steady: "steady_vm (NE_trustless ref_pricing_node) (NE_applied ref_pricing_node) snd (NE_warp ref_pricing_node) snd"
    using ref_pricing.steady_vm_axioms by (simp add: ref_pricing_node_def)
  have "filter is_block ref_order @ filter (\<lambda>e. \<not> is_block e) ref_order = rev ref_order"
    by (simp add: ref_order_def)
  with node_interleaving [OF steady, of ref_order ref_priced] n1 n2 show ?thesis by simp
qed

text \<open>
  A result is handed in whether or not the node waits for it: the queue of accepted
  submissions is written for every block and consulted by no request, so a result for a
  transaction the node never saw is recorded, signed and submitted like any other.
\<close>

theorem queue_never_consulted:
  "serve L W E path verb body now1 now2 (t\<lparr>queuedActions := q\<rparr>) v =
    map_option (\<lambda>(out, t, v). (out, t\<lparr>queuedActions := q\<rparr>, v)) (serve L W E path verb body now1 now2 t v)"
  by (rule serve_queue)

end
