(* ===== verification/Ledger.thy ===== *)
theory Ledger
  imports Chain
begin

text \<open>
  The chain as a ledger: what the entries of the state mean (accounts, deadlines, weights,
  voters, statuses and images), the effect of a transaction on that meaning as a function
  that never looks at keys, bytes or errors, and the simulation: the code, transaction by
  transaction, does to the state exactly what the ledger says and succeeds exactly when the
  ledger says so.
\<close>

section \<open>The abstract ledger\<close>

record ledger =
  Accounts :: "address \<rightharpoonup> u64"
  Deadlines :: "ID \<rightharpoonup> i64"
  Weights :: "ID \<rightharpoonup> u64"
  Voters :: "ID \<Rightarrow> address \<Rightarrow> bool"
  Statuses :: "ID \<Rightarrow> bool"
  Images :: "ID \<Rightarrow> u16 \<Rightarrow> bytes option"

definition ledger_of :: "(bytes \<rightharpoonup> bytes) \<Rightarrow> ledger" where
  "ledger_of m = \<lparr>Accounts = account m, Deadlines = deadline m, Weights = weight_of m,
    Voters = has_voted m, Statuses = status_set m, Images = (\<lambda>i h. m (HashKey i h))\<rparr>"

lemma ledger_of_sel [simp]:
  "Accounts (ledger_of m) = account m" "Deadlines (ledger_of m) = deadline m"
  "Weights (ledger_of m) = weight_of m" "Voters (ledger_of m) = has_voted m"
  "Statuses (ledger_of m) = status_set m" "Images (ledger_of m) i h = m (HashKey i h)"
  by (simp_all add: ledger_of_def)

text \<open>
  A submission opens the window of its transaction. A counted vote adds the weight of a yes
  and records the voter; only a vote that is itself the transaction it votes on could reach
  the status, from the second yes on.
\<close>

definition set_deadline :: "ID \<Rightarrow> u64 \<Rightarrow> i64 \<Rightarrow> ledger \<Rightarrow> ledger" where
  "set_deadline tx timeOut ts l =
    l\<lparr>Deadlines := (Deadlines l)(tx \<mapsto> ts + clamp_timeout timeOut * 1000)\<rparr>"

definition judge_vote ::
  "('k, 'g, 'sk) bls_lib \<Rightarrow> 'm warp_lib \<Rightarrow> ('bf, 'k) rules \<Rightarrow> validator_vote \<Rightarrow> i64 \<Rightarrow> address \<Rightarrow>
    ledger \<Rightarrow> vote_outcome" where
  "judge_vote L W r v ts actor l =
    (case (Deadlines l (Vote_TxID v), Bls_PublicKeyFromBytes L (Vote_PublicKey v),
        Bls_SignatureFromBytes L (Vote_Signature v)) of
       (Some d, Inr pk, Inr sig) \<Rightarrow>
         if sint ts \<le> sint d \<and> Vote_PublicKey v \<in> snd (Rules_f r ()) then
           (case matching pk (fst (Rules_f r ())) of
              [] \<Rightarrow> Ignored
            | [vdr] \<Rightarrow> if signed_vote L W r v pk sig \<and> \<not> Voters l (Vote_TxID v) actor
                then Counted (Validator_Weight vdr) else Rejected
            | _ \<Rightarrow> Rejected)
         else Rejected
     | _ \<Rightarrow> Rejected)"

definition count_vote :: "ID \<Rightarrow> validator_vote \<Rightarrow> address \<Rightarrow> u64 \<Rightarrow> ledger \<Rightarrow> ledger" where
  "count_vote tx v actor w l =
    (let i = Vote_TxID v;
         total = (case Weights l i of None \<Rightarrow> w | Some old \<Rightarrow> old + w)
     in l\<lparr>Weights := (if Vote_Vote v then (Weights l)(i \<mapsto> total) else Weights l),
          Voters := (Voters l)(i := (Voters l i)(actor := True)),
          Statuses := (Statuses l)(i := Statuses l i \<or>
            (Vote_Vote v \<and> tx = i \<and> Weights l i \<noteq> None \<and> total > w))\<rparr>)"

text \<open>Whether the transaction succeeds, and the ledger after it.\<close>

fun ledger_step ::
  "('k, 'g, 'sk) bls_lib \<Rightarrow> 'm warp_lib \<Rightarrow> ('bf, 'k) rules \<Rightarrow> action \<Rightarrow> i64 \<Rightarrow> address \<Rightarrow> ID \<Rightarrow> ledger \<Rightarrow>
    bool \<times> ledger" where
  "ledger_step L W r (ActionTransfer t) ts actor tx l =
    (if transfer_fits (Accounts l) actor (Transfer_To t) (Transfer_Value t)
     then (True, l\<lparr>Accounts := move (Accounts l) actor (Transfer_To t) (Transfer_Value t)\<rparr>)
     else (False, l))"
| "ledger_step L W r (ActionRegister g) ts actor tx l = (True, l)"
| "ledger_step L W r (ActionRegisterImage g) ts actor tx l =
    (let i = RegisterImage_ImageID g; h = ucast (RegisterImage_ValType g)
     in (True, l\<lparr>Images := (Images l)(i := (Images l i)(h \<mapsto> string_bytes (RegisterImage_RootHash g)))\<rparr>))"
| "ledger_step L W r (ActionSP1 a) ts actor tx l = (True, set_deadline tx (SP1_TimeOutBlocks a) ts l)"
| "ledger_step L W r (ActionRiscZero a) ts actor tx l = (True, set_deadline tx (RiscZero_TimeOutBlocks a) ts l)"
| "ledger_step L W r (ActionMiden a) ts actor tx l = (True, set_deadline tx (Miden_TimeOutBlocks a) ts l)"
| "ledger_step L W r (ActionJolt a) ts actor tx l = (True, set_deadline tx (Jolt_TimeOutBlocks a) ts l)"
| "ledger_step L W r (ActionPLONKY2 a) ts actor tx l = (True, set_deadline tx (PLONKY2_TimeOutBlocks a) ts l)"
| "ledger_step L W r (ActionValidatorVote v) ts actor tx l =
    (case judge_vote L W r v ts actor l of
       Rejected \<Rightarrow> (False, l) | Ignored \<Rightarrow> (True, l) | Counted w \<Rightarrow> (True, count_vote tx v actor w l))"

definition ledger_tx ::
  "('k, 'g, 'sk) bls_lib \<Rightarrow> 'm warp_lib \<Rightarrow> ('bf, 'k) transaction \<Rightarrow> ledger \<Rightarrow> bool \<times> ledger" where
  "ledger_tx L W t = ledger_step L W (Tx_rules t) (Tx_action t) (Tx_time t) (Tx_actor t) (Tx_id t)"

definition ledger_run ::
  "('k, 'g, 'sk) bls_lib \<Rightarrow> 'm warp_lib \<Rightarrow> ('bf, 'k) transaction list \<Rightarrow> ledger \<Rightarrow> ledger" where
  "ledger_run L W ts l = foldl (\<lambda>l t. snd (ledger_tx L W t l)) l ts"

lemma ledger_run_simps [simp]:
  "ledger_run L W [] l = l"
  "ledger_run L W (t # ts) l = ledger_run L W ts (snd (ledger_tx L W t l))"
  by (simp_all add: ledger_run_def)

text \<open>
  An image whose hash fills the ten chunks its key announces may be refused by the state;
  the wire format allows it.
\<close>

fun image_fits :: "action \<Rightarrow> bool" where
  "image_fits (ActionRegisterImage g) \<longleftrightarrow> length (RegisterImage_RootHash g) < 640"
| "image_fits a \<longleftrightarrow> True"

section \<open>The simulation\<close>

lemma judge_vote_ledger_of:
  "judge_vote L W r v ts actor (ledger_of m) = vote_outcome L W r v ts actor m"
  by (simp add: judge_vote_def vote_outcome_def linorder_not_less [symmetric] split: option.split sum.split list.split)

lemma ledger_of_accounts:
  assumes "\<And>k. (\<And>a. k \<noteq> BalanceKey a) \<Longrightarrow> m' k = m k"
  shows "ledger_of m' = (ledger_of m)\<lparr>Accounts := account m'\<rparr>"
  using assms by (simp add: ledger_of_def deadline_def weight_of_def has_voted_def status_set_def fun_eq_iff)

lemma ledger_of_window:
  "ledger_of (m(TimeOutKey tx \<mapsto> AppendUint64 (ts + clamp_timeout t * 1000))) = set_deadline tx t ts (ledger_of m)"
  by (simp add: ledger_of_def set_deadline_def account_def fun_eq_iff)

lemma ledger_of_image:
  "ledger_of (m(HashKey i h \<mapsto> d)) =
    (ledger_of m)\<lparr>Images := (Images (ledger_of m))(i := (Images (ledger_of m) i)(h \<mapsto> d))\<rparr>"
  by (auto simp: ledger_of_def account_def deadline_def weight_of_def has_voted_def status_set_def fun_eq_iff)

lemma ledger_of_cast_vote:
  assumes "covers scope (ValidatorVote_StateKeys v actor tx)"
  shows "ledger_of (cast_vote scope v actor w m) = count_vote tx v actor w (ledger_of m)"
proof -
  let ?m = "cast_vote scope v actor w m"
  have "account ?m = account m"
    by (rule account_frame) (rule cast_vote_frame)
  moreover have "?m (HashKey i h) = m (HashKey i h)" for i h
    by (simp add: cast_vote_def add_weight_def split: option.split)
  moreover have "status_set ?m i \<longleftrightarrow> Statuses (count_vote tx v actor w (ledger_of m)) i" for i
    by (auto simp: cast_vote_def add_weight_def count_vote_def Let_def covers_status [OF assms] ValidatorVote_StateKeys_def
        split: option.split)
  ultimately show ?thesis
    by (auto simp: ledger_of_def count_vote_def Let_def fun_eq_iff)
qed

text \<open>
  \<open>simulates\<close>: an execution returns and, its changes kept when it succeeds and discarded when
  it fails, leaves a well-formed state and agrees with the outcome \<open>spec\<close> of the ledger.
\<close>

definition simulates :: "('s \<Rightarrow> (bytes \<rightharpoonup> bytes)) \<Rightarrow> (exec_result \<times> 's) go \<Rightarrow> 's \<Rightarrow> bool \<times> ledger \<Rightarrow> bool" where
  "simulates kv run s spec \<longleftrightarrow> (\<exists>res s'. run = Some (res, s') \<and> success res = fst spec \<and>
    (let s'' = (if success res then s' else s) in wf_state (kv s'') \<and> ledger_of (kv s'') = snd spec))"

lemma Transfer_simulates:
  assumes "state_view M kv scope" "Transfer_StateKeys t actor tx \<subseteq> scope" "checked_math A" "wf_state (kv s)"
  shows "simulates kv (Transfer_Execute A M t s ts actor tx) s
    (ledger_step L W r (ActionTransfer t) ts actor tx (ledger_of (kv s)))"
proof -
  have "wf_balances (kv s)"
    using assms(4) by (simp add: wf_state_def)
  from Transfer_eval [OF assms(1,3) this assms(2)]
  obtain res s' where run: "Transfer_Execute A M t s ts actor tx = Some (res, s')" and spec:
    "success res \<longleftrightarrow> transfer_fits (account (kv s)) actor (Transfer_To t) (Transfer_Value t)"
    "success res \<longrightarrow> account (kv s') = move (account (kv s)) actor (Transfer_To t) (Transfer_Value t)"
    by blast
  have "wf_state (kv s')"
    using state_view.Transfer_returns [OF assms(1,4), of A t ts actor tx] run by auto
  moreover have "ledger_of (kv s') = (ledger_of (kv s))\<lparr>Accounts := account (kv s')\<rparr>"
    by (rule ledger_of_accounts, rule state_view.Transfer_footprint [OF assms(1) run])
      (auto simp: Transfer_StateKeys_def)
  ultimately show ?thesis
    using run spec assms(4) by (auto simp: simulates_def Let_def)
qed

lemma RegisterImage_simulates:
  assumes "state_view M kv scope" "RegisterImage_StateKeys g actor tx \<subseteq> scope" "wf_state (kv s)"
    and "image_fits (ActionRegisterImage g)"
  shows "simulates kv (RegisterImage_Execute M g s ts actor tx) s
    (ledger_step L W r (ActionRegisterImage g) ts actor tx (ledger_of (kv s)))"
proof -
  let ?k = "HashKey (RegisterImage_ImageID g) (ucast (RegisterImage_ValType g))"
  obtain s' where "Insert M s ?k (string_bytes (RegisterImage_RootHash g)) = (None, s')"
    "kv s' = (kv s)(?k \<mapsto> string_bytes (RegisterImage_RootHash g))"
    by (rule state_view.insert_declared [OF assms(1), of ?k "string_bytes (RegisterImage_RootHash g)" s])
      (use assms(2,4) in \<open>simp_all add: RegisterImage_StateKeys_def\<close>)
  then show ?thesis
    using assms(3) by (simp add: simulates_def RegisterImage_Execute_def StoreHashKeyType_def Let_def
        ledger_of_image wf_state_upd)
qed

lemma Vote_simulates:
  assumes "state_view M kv scope" "covers scope (ValidatorVote_StateKeys v actor tx)" "checked_math A" "wf_state (kv s)"
  shows "simulates kv (ValidatorVote_Execute A L W r M v s ts actor tx) s
    (ledger_step L W r (ActionValidatorVote v) ts actor tx (ledger_of (kv s)))"
proof -
  have keys: "vote_keys v actor \<subseteq> scope"
    using covers_subset [OF assms(2)] by (auto simp: vote_keys_def ValidatorVote_StateKeys_def)
  have wf: "wf_verify (kv s)" "wf_balances (kv s)"
    using assms(4) by (simp_all add: wf_state_def)
  obtain res s' where run: "ValidatorVote_Execute A L W r M v s ts actor tx = Some (res, s')" "wf_verify (kv s')"
    and spec: "case vote_outcome L W r v ts actor (kv s) of Rejected \<Rightarrow> \<not> success res | Ignored \<Rightarrow> success res \<and> s' = s
     | Counted w \<Rightarrow> success res \<and> kv s' = cast_vote scope v actor w (kv s)"
    using state_view.ValidatorVote_eval [OF assms(1,3) wf(1) keys, of L W r ts tx] by blast
  have "wf_balances (kv s')" if "kv s' = cast_vote scope v actor w (kv s)" for scope w
    unfolding that using wf(2) by (subst wf_balances_frame [where m = "kv s"]) (rule cast_vote_frame)
  with run spec assms(4) show ?thesis
    by (auto simp: simulates_def Let_def judge_vote_ledger_of ledger_of_cast_vote [OF assms(2)] wf_state_def split: vote_outcome.splits)
qed

text \<open>The five submissions at once, through the contract they share.\<close>

lemma submission_simulates:
  assumes "state_view M kv scope" "Action_StateKeys a actor tx \<subseteq> scope" "wf_state (kv s)" "action_timeout a = Some t"
  shows "simulates kv (Action_Execute A L W r M a s ts actor tx) s (True, set_deadline tx t ts (ledger_of (kv s)))"
proof -
  have "TimeOutKey tx \<in> scope"
    using assms(2,4) by (cases a) (auto simp: submission_defs)
  then obtain res s' where "Action_Execute A L W r M a s ts actor tx = Some (res, s')" "success res"
    "kv s' = (kv s)(TimeOutKey tx \<mapsto> AppendUint64 (ts + clamp_timeout t * 1000))"
    using submission_runs [where a = a and t = t, OF assms(1) _ assms(4)] by blast
  then show ?thesis
    using assms(3) by (simp add: simulates_def ledger_of_window wf_state_upd)
qed

lemma Action_simulates:
  assumes "state_view M kv scope" "covers scope (Action_StateKeys a actor tx)" "checked_math A" "wf_state (kv s)" "image_fits a"
  shows "simulates kv (Action_Execute A L W r M a s ts actor tx) s
    (ledger_step L W r a ts actor tx (ledger_of (kv s)))"
proof (cases "action_timeout a")
  case (Some t)
  with submission_simulates [where M = M, OF assms(1) covers_subset [OF assms(2)] assms(4) Some] show ?thesis
    by (cases a) simp_all
next
  case None
  then show ?thesis
  proof (cases a)
    case (ActionTransfer t)
    then show ?thesis
      using Transfer_simulates [OF assms(1) _ assms(3,4)] covers_subset [OF assms(2)] by simp
  next
    case (ActionRegister g)
    then show ?thesis
      using assms(4) by (simp add: simulates_def Register_Execute_def)
  next
    case (ActionRegisterImage g)
    then show ?thesis
      using RegisterImage_simulates [OF assms(1) _ assms(4)] covers_subset [OF assms(2)] assms(5) by simp
  next
    case (ActionValidatorVote v)
    then show ?thesis
      using Vote_simulates [OF assms(1) _ assms(3,4)] assms(2) by simp
  qed simp_all
qed

lemma transaction_simulates:
  assumes "\<And>keys. state_view (M keys) kv keys" "checked_math A" "wf_state (kv s)" "image_fits (Tx_action t)"
  shows "\<exists>res s'. run_transaction A L W M t s = Some (res, s') \<and> wf_state (kv s') \<and>
    (success res, ledger_of (kv s')) = ledger_tx L W t (ledger_of (kv s))"
  using Action_simulates [where a = "Tx_action t", OF assms(1) covers_refl assms(2-4), where L = L and W = W and r = "Tx_rules t" and ts = "Tx_time t" and actor = "Tx_actor t" and tx = "Tx_id t"]
  by (auto simp: simulates_def Let_def run_transaction_def ledger_tx_def prod_eq_iff)

lemma chain_simulates:
  assumes "\<And>keys. state_view (M keys) kv keys" "checked_math A"
    and "\<forall>t \<in> set ts. image_fits (Tx_action t)" "wf_state (kv s)"
  shows "\<exists>s'. run_chain A L W M ts s = Some s' \<and> wf_state (kv s') \<and>
    ledger_of (kv s') = ledger_run L W ts (ledger_of (kv s))"
  using assms(3,4)
proof (induction ts arbitrary: s)
  case Nil
  then show ?case by simp
next
  case (Cons t ts)
  obtain res s1 where s1: "run_transaction A L W M t s = Some (res, s1)" "wf_state (kv s1)"
    "(success res, ledger_of (kv s1)) = ledger_tx L W t (ledger_of (kv s))"
    using transaction_simulates [OF assms(1,2) Cons.prems(2)] Cons.prems(1) by (metis list.set_intros(1))
  from s1(3) have "snd (ledger_tx L W t (ledger_of (kv s))) = ledger_of (kv s1)"
    by (simp add: prod_eq_iff)
  with Cons.IH [of s1] Cons.prems(1) s1(1,2) show ?case by simp
qed

text \<open>The ledger of a genesis: the allocated accounts and nothing else.\<close>

definition genesis_ledger :: "bech32 \<Rightarrow> custom_allocation option list \<Rightarrow> ledger" where
  "genesis_ledger parse allocs = \<lparr>Accounts = allocated parse allocs Map.empty, Deadlines = Map.empty,
    Weights = Map.empty, Voters = (\<lambda>_ _. False), Statuses = (\<lambda>_. False), Images = (\<lambda>_ _. None)\<rparr>"

lemma genesis_loads_ledger:
  assumes "state_view (M scope) kv scope" "checked_math A"
    and "\<And>al a. Some al \<in> set (CustomAllocation g) \<Longrightarrow> parse HRP (CustomAllocation_Address al) = Inr a \<Longrightarrow>
      BalanceKey a \<in> scope"
    and "kv s0 = Map.empty" "Load A B parse (M scope) g s0 = Some (None, s)"
  shows "wf_state (kv s)" "ledger_of (kv s) = genesis_ledger parse (CustomAllocation g)"
proof -
  have bv: "balance_view (M scope) kv scope A"
    using assms(1,2) by (simp add: balance_view_def)
  have load: "Load_allocations A parse (M scope) 0 (CustomAllocation g) s0 = Some (None, s)"
    using assms(5) by (simp add: Load_def split: option.splits)
  have "wf_balances (kv s0)"
    by (simp add: assms(4) wf_balances_def)
  note eval = balance_view.Load_allocations_eval [OF bv assms(3) this load]
  then show "wf_state (kv s)"
    by (simp add: wf_state_def wf_verify_def assms(4))
  have "account (Map.empty :: bytes \<rightharpoonup> bytes) = Map.empty"
    by (simp add: account_def fun_eq_iff)
  with eval show "ledger_of (kv s) = genesis_ledger parse (CustomAllocation g)"
    by (simp add: ledger_of_def genesis_ledger_def assms(4) deadline_def weight_of_def has_voted_def
        status_set_def fun_eq_iff)
qed

section \<open>The claim\<close>

text \<open>
  C1: the chain refines the ledger. From a genesis that loads into an empty state, any sequence
  of transactions runs without a panic and leaves the ledger that \<open>ledger_run\<close> computes from
  the allocations; the next transaction does not panic either, succeeds exactly when
  \<open>ledger_tx\<close> says so, and leaves the ledger it says. The state is any that gives every
  transaction a view of the keys it declares, and the registered hashes fit the chunks their
  key announces.
\<close>

theorem chain_refines_ledger:
  assumes "\<And>keys. state_view (M keys) kv keys" "checked_math A"
    and "\<And>al a. Some al \<in> set (CustomAllocation g) \<Longrightarrow> parse HRP (CustomAllocation_Address al) = Inr a \<Longrightarrow>
      BalanceKey a \<in> scope"
    and "kv s0 = Map.empty" "Load A B parse (M scope) g s0 = Some (None, s)"
    and "\<forall>t \<in> set (ts @ [t]). image_fits (Tx_action t)"
  shows "\<exists>s1 res s2. run_chain A L W M ts s = Some s1 \<and> run_transaction A L W M t s1 = Some (res, s2) \<and>
    ledger_of (kv s1) = ledger_run L W ts (genesis_ledger parse (CustomAllocation g)) \<and>
    (success res, ledger_of (kv s2)) = ledger_tx L W t (ledger_of (kv s1))"
proof -
  have start: "wf_state (kv s)" "ledger_of (kv s) = genesis_ledger parse (CustomAllocation g)"
    by (rule genesis_loads_ledger [where M = M and kv = kv and scope = scope, OF assms(1,2) _ assms(4,5)],
        erule (1) assms(3))+
  obtain s1 where s1: "run_chain A L W M ts s = Some s1" "wf_state (kv s1)"
    "ledger_of (kv s1) = ledger_run L W ts (genesis_ledger parse (CustomAllocation g))"
    using chain_simulates [where L = L and W = W and ts = ts, OF assms(1,2) _ start(1)] assms(6) unfolding start(2) by auto
  with transaction_simulates [where L = L and W = W and t = t, OF assms(1,2) s1(2)] assms(6) show ?thesis by auto
qed

text \<open>
  The example: Alice (account 1, 70 tokens) pays Bob (account 2, 30 tokens) 40 tokens, Bob
  submits a proof in transaction 8, and Alice votes for it with the key of the validator of
  weight 10; then Bob votes with the same key and counts once more.
\<close>

definition ref_tx :: "action \<Rightarrow> address \<Rightarrow> ID \<Rightarrow> (nat, nat \<times> 384 word) transaction" where
  "ref_tx a actor tx = \<lparr>Tx_action = a, Tx_actor = actor, Tx_id = tx, Tx_time = 50, Tx_rules = ref_rules 0\<rparr>"

definition ref_history :: "(nat, nat \<times> 384 word) transaction list" where
  "ref_history =
    [ref_tx (ActionTransfer \<lparr>Transfer_To = 2, Transfer_Value = 40\<rparr>) 1 7,
     ref_tx (ActionSP1 \<lparr>SP1_ImageID = 1, SP1_ProofValType = 2, SP1_TimeOutBlocks = 100\<rparr>) 2 8,
     ref_tx (ActionValidatorVote (ref_vote 8 True)) 1 9]"

lemma ref_vote_sel [simp]: "Vote_TxID (ref_vote i b) = i" "Vote_Vote (ref_vote i b) = b"
  by (simp_all add: ref_vote_def)

lemma ref_judge:
  assumes "Deadlines l i = Some d" "sint ts \<le> sint d"
  shows "judge_vote ref_bls ref_warp (ref_rules 0) (ref_vote i b) ts a l =
    (if Voters l i a then Rejected else Counted 10)"
proof -
  have "ucast (5 :: 384 word) = (5 :: 768 word)"
    by simp
  then show ?thesis
    using assms by (simp add: judge_vote_def ref_bls_def ref_warp_def ref_vote_def ref_rules_def
        Genesis_Rules_def signed_vote_def)
qed

lemma ref_history_ledger:
  defines "l \<equiv> ledger_run ref_bls ref_warp ref_history (genesis_ledger ref_bech32 two_allocations)"
  shows "Accounts l 1 = Some 30 \<and> Accounts l 2 = Some 70 \<and> Deadlines l 8 = Some 100050 \<and>
    Weights l 8 = Some 10 \<and> Voters l 8 = (\<lambda>a. a = 1) \<and> \<not> Statuses l 8"
  by (simp add: l_def ref_history_def ref_tx_def ledger_tx_def genesis_ledger_def two_allocations_facts
      transfer_fits_def move_def set_deadline_def clamp_timeout_def ref_judge
      count_vote_def Let_def fun_eq_iff)

theorem chain_refines_ledger_witness:
  "\<exists>s s1 res s2. Load ref_math ref_merkledb ref_bech32 (mem_view {BalanceKey 1, BalanceKey 2})
      ((Default ref_merkledb)\<lparr>CustomAllocation := two_allocations\<rparr>) Map.empty = Some (None, s) \<and>
    run_chain ref_math ref_bls ref_warp mem_view ref_history s = Some s1 \<and>
    run_transaction ref_math ref_bls ref_warp mem_view (ref_tx (ActionValidatorVote (ref_vote 8 True)) 2 10) s1 =
      Some (res, s2) \<and>
    success res \<and> account s2 2 = Some 70 \<and> deadline s2 8 = Some 100050 \<and> weight_of s2 8 = Some 20 \<and>
    \<not> status_set s2 8"
proof -
  let ?g = "(Default ref_merkledb)\<lparr>CustomAllocation := two_allocations\<rparr>"
  let ?t = "ref_tx (ActionValidatorVote (ref_vote 8 True)) 2 10"
  obtain s where s: "Load ref_math ref_merkledb ref_bech32 (mem_view {BalanceKey 1, BalanceKey 2}) ?g Map.empty = Some (None, s)"
    by (rule two_allocations_load)
  have fits: "\<forall>t \<in> set (ref_history @ [?t]). image_fits (Tx_action t)"
    by (simp add: ref_history_def ref_tx_def)
  obtain s1 res s2 where run: "run_chain ref_math ref_bls ref_warp mem_view ref_history s = Some s1"
    "run_transaction ref_math ref_bls ref_warp mem_view ?t s1 = Some (res, s2)"
    and l: "ledger_of s1 = ledger_run ref_bls ref_warp ref_history (genesis_ledger ref_bech32 two_allocations)"
    "(success res, ledger_of s2) = ledger_tx ref_bls ref_warp ?t (ledger_of s1)"
    using chain_refines_ledger [where kv = "\<lambda>s. s" and L = ref_bls and W = ref_warp,
        OF mem_view.state_view_axioms ref_math.checked_math_axioms _ _ s fits] two_allocations_facts(1)
    unfolding two_allocations_facts(6) by blast
  define l1 where "l1 = ledger_of s1"
  have l1: "Accounts l1 2 = Some 70" "Deadlines l1 8 = Some 100050" "Weights l1 8 = Some 10"
    "Voters l1 8 = (\<lambda>a. a = 1)" "\<not> Statuses l1 8"
    using ref_history_ledger unfolding l1_def l(1) by simp_all
  have "(success res, ledger_of s2) = (True, count_vote 10 (ref_vote 8 True) 2 10 l1)"
    using l(2) l1 unfolding l1_def [symmetric] by (simp add: ledger_tx_def ref_tx_def ref_judge)
  then have "success res" "ledger_of s2 = count_vote 10 (ref_vote 8 True) 2 10 l1"
    by simp_all
  moreover from this(2) have "account s2 2 = Some 70" "deadline s2 8 = Some 100050"
    "weight_of s2 8 = Some 20" "\<not> status_set s2 8"
    using l1 by (simp_all add: ledger_of_sel(1-3,5) [of s2, symmetric] count_vote_def Let_def del: ledger_of_sel)
  ultimately show ?thesis
    using s run by blast
qed

end
