(* ===== verification/Paid_Chain.thy ===== *)
theory Paid_Chain
  imports Ledger
begin

text \<open>
  Transactions that pay: the fee is deducted before the action and the part that was not used
  is refunded after it, all through one view of the state. The abstract ledger is extended by
  the fees; the chain is shown to compute it, and every token that leaves an account is shown
  to be a fee, or a refund that was dropped because its account is gone.
\<close>

section \<open>Paid transactions\<close>

text \<open>The account that pays is the actor, as \<open>Sponsor\<close> of the signature schemes says.\<close>

record ('bf, 'k) paid =
  Paid_tx :: "('bf, 'k) transaction"
  Paid_fee :: u64
  Paid_unused :: u64

definition paid_keys :: "('bf, 'k) paid \<Rightarrow> state_keys" where
  "paid_keys p = (let t = Paid_tx p in
    Action_StateKeys (Tx_action t) (Tx_actor t) (Tx_id t) \<union> SponsorStateKeys (Tx_actor t))"

text \<open>
  \<^const>\<open>None\<close> for a transaction that is not executed because its sponsor cannot pay; a
  transaction whose fee cannot be moved after all leaves the state as it was.
\<close>

definition run_paid ::
  "math64 \<Rightarrow> ('k, 'g, 'sk) bls_lib \<Rightarrow> 'm warp_lib \<Rightarrow> (bytes set \<Rightarrow> 's mutable) \<Rightarrow> ('bf, 'k) paid \<Rightarrow> 's \<Rightarrow>
    (bool option \<times> 's) go" where
  "run_paid A L W M p s =
    (let t = Paid_tx p; actor = Tx_actor t; mu = M (paid_keys p)
     in do { check \<leftarrow> CanDeduct mu s actor (Paid_fee p);
          if check \<noteq> None then Some (None, s)
          else do {
            (err, s1) \<leftarrow> Deduct A mu s actor (Paid_fee p);
            if err \<noteq> None then Some (None, s)
            else do {
              (res, s2) \<leftarrow> Action_Execute A L W (Tx_rules t) mu (Tx_action t) s1 (Tx_time t) actor (Tx_id t);
              (err, s3) \<leftarrow> Refund A mu (if success res then s2 else s1) actor (Paid_unused p);
              if err \<noteq> None then Some (None, s) else Some (Some (success res), s3) } } })"

fun run_paid_chain ::
  "math64 \<Rightarrow> ('k, 'g, 'sk) bls_lib \<Rightarrow> 'm warp_lib \<Rightarrow> (bytes set \<Rightarrow> 's mutable) \<Rightarrow> ('bf, 'k) paid list \<Rightarrow> 's \<Rightarrow>
    (bool option list \<times> 's) go" where
  "run_paid_chain A L W M [] s = Some ([], s)"
| "run_paid_chain A L W M (p # ps) s =
    do { (ok, s) \<leftarrow> run_paid A L W M p s;
         (oks, s) \<leftarrow> run_paid_chain A L W M ps s;
         Some (ok # oks, s) }"

section \<open>The ledger with fees\<close>

definition debit :: "(address \<rightharpoonup> u64) \<Rightarrow> address \<Rightarrow> u64 \<Rightarrow> (address \<rightharpoonup> u64)" where
  "debit acc a v = acc(a := if v = amount_of (acc a) then None else Some (amount_of (acc a) - v))"

definition refund :: "(address \<rightharpoonup> u64) \<Rightarrow> address \<Rightarrow> u64 \<Rightarrow> (address \<rightharpoonup> u64)" where
  "refund acc a v = (case acc a of None \<Rightarrow> acc | Some x \<Rightarrow> acc(a \<mapsto> x + v))"

definition can_pay :: "('bf, 'k) paid \<Rightarrow> ledger \<Rightarrow> bool" where
  "can_pay p l \<longleftrightarrow> Paid_fee p \<le> amount_of (Accounts l (Tx_actor (Paid_tx p)))"

text \<open>The outcome of the action and the ledger, after the fee and before the refund.\<close>

definition charged ::
  "('k, 'g, 'sk) bls_lib \<Rightarrow> 'm warp_lib \<Rightarrow> ('bf, 'k) paid \<Rightarrow> ledger \<Rightarrow> bool \<times> ledger" where
  "charged L W p l = ledger_tx L W (Paid_tx p)
    (l\<lparr>Accounts := debit (Accounts l) (Tx_actor (Paid_tx p)) (Paid_fee p)\<rparr>)"

definition ledger_paid ::
  "('k, 'g, 'sk) bls_lib \<Rightarrow> 'm warp_lib \<Rightarrow> ('bf, 'k) paid \<Rightarrow> ledger \<Rightarrow> bool option \<times> ledger" where
  "ledger_paid L W p l =
    (if can_pay p l then
       (let (ok, l') = charged L W p l
        in (Some ok, l'\<lparr>Accounts := refund (Accounts l') (Tx_actor (Paid_tx p)) (Paid_unused p)\<rparr>))
     else (None, l))"

fun ledger_paid_run ::
  "('k, 'g, 'sk) bls_lib \<Rightarrow> 'm warp_lib \<Rightarrow> ('bf, 'k) paid list \<Rightarrow> ledger \<Rightarrow> bool option list \<times> ledger" where
  "ledger_paid_run L W [] l = ([], l)"
| "ledger_paid_run L W (p # ps) l =
    (let (ok, l) = ledger_paid L W p l; (oks, l) = ledger_paid_run L W ps l in (ok # oks, l))"

text \<open>What a transaction costs: its fee less the refund, all of it when the account is gone.\<close>

definition paid_cost :: "('k, 'g, 'sk) bls_lib \<Rightarrow> 'm warp_lib \<Rightarrow> ('bf, 'k) paid \<Rightarrow> ledger \<Rightarrow> nat" where
  "paid_cost L W p l =
    (if \<not> can_pay p l then 0
     else if Accounts (snd (charged L W p l)) (Tx_actor (Paid_tx p)) = None then unat (Paid_fee p)
     else unat (Paid_fee p) - unat (Paid_unused p))"

fun paid_costs :: "('k, 'g, 'sk) bls_lib \<Rightarrow> 'm warp_lib \<Rightarrow> ('bf, 'k) paid list \<Rightarrow> ledger \<Rightarrow> nat" where
  "paid_costs L W [] l = 0"
| "paid_costs L W (p # ps) l = paid_cost L W p l + paid_costs L W ps (snd (ledger_paid L W p l))"

section \<open>The actor gains nothing\<close>

lemma debit_amount: "v \<le> amount_of (acc a) \<Longrightarrow> amount_of (debit acc a v a) = amount_of (acc a) - v"
  by (simp add: debit_def)

lemma move_actor:
  assumes "transfer_fits acc a b v"
  shows "amount_of (move acc a b v a) \<le> amount_of (acc a)"
proof (cases "a = b")
  case True
  then show ?thesis by (simp add: move_def)
next
  case False
  then show ?thesis
    using assms by (auto simp: move_def transfer_fits_def word_le_nat_alt unat_sub)
qed

lemma Accounts_set_deadline [simp]: "Accounts (set_deadline tx t ts l) = Accounts l"
  by (simp add: set_deadline_def)

lemma Accounts_count_vote [simp]: "Accounts (count_vote tx v actor w l) = Accounts l"
  by (simp add: count_vote_def Let_def)

lemma ledger_step_accounts:
  obtains "Accounts (snd (ledger_step L W r a ts actor tx l)) = Accounts l"
  | t where "a = ActionTransfer t" "transfer_fits (Accounts l) actor (Transfer_To t) (Transfer_Value t)"
    "Accounts (snd (ledger_step L W r a ts actor tx l)) = move (Accounts l) actor (Transfer_To t) (Transfer_Value t)"
proof (cases a)
  case (ActionTransfer t)
  with that show ?thesis
    by (cases "transfer_fits (Accounts l) actor (Transfer_To t) (Transfer_Value t)") simp_all
qed (use that(1) in \<open>auto simp: Let_def split: vote_outcome.split\<close>)

lemma ledger_step_actor:
  "amount_of (Accounts (snd (ledger_step L W r a ts actor tx l)) actor) \<le> amount_of (Accounts l actor)"
  by (rule ledger_step_accounts [of L W r a ts actor tx l]) (simp_all add: move_actor)

lemma charged_actor:
  assumes "can_pay p l" "Paid_unused p \<le> Paid_fee p"
  shows "unat (amount_of (Accounts (snd (charged L W p l)) (Tx_actor (Paid_tx p)))) + unat (Paid_unused p) < 2 ^ 64"
proof -
  let ?a = "Tx_actor (Paid_tx p)"
  let ?b = "amount_of (Accounts l ?a)"
  have "amount_of (Accounts (snd (charged L W p l)) ?a) \<le> ?b - Paid_fee p"
    using ledger_step_actor [of L W "Tx_rules (Paid_tx p)" "Tx_action (Paid_tx p)" "Tx_time (Paid_tx p)" ?a
        "Tx_id (Paid_tx p)" "l\<lparr>Accounts := debit (Accounts l) ?a (Paid_fee p)\<rparr>"] assms(1)
    by (simp add: charged_def ledger_tx_def can_pay_def debit_amount)
  moreover have "unat (Paid_fee p) \<le> unat ?b" "unat (Paid_unused p) \<le> unat (Paid_fee p)"
    using assms by (simp_all add: can_pay_def word_le_nat_alt)
  ultimately show ?thesis
    using unat_u64_less [of ?b] assms(1) by (simp add: can_pay_def word_le_nat_alt unat_sub)
qed

section \<open>The chain computes the ledger\<close>

text \<open>The three operations on fees, through a view that has the balance of the sponsor.\<close>

lemma CanDeduct_eval:
  assumes "state_view M kv scope" "checked_math A" "BalanceKey a \<in> scope" "wf_state (kv s)"
  shows "CanDeduct M s a fee = Some (if fee \<le> amount_of (account (kv s) a) then None else Some ErrInvalidBalance)"
proof -
  have "wf_balances (kv s)" using assms(4) by (simp add: wf_state_def)
  then show ?thesis
    using assms(3) balance_store.get_amount [OF storage_balances [OF assms(1,2)], of s a]
    by (simp add: CanDeduct_def linorder_not_less [symmetric])
qed

lemma Deduct_eval:
  assumes "state_view M kv scope" "checked_math A" "BalanceKey a \<in> scope" "wf_state (kv s)"
    and "fee \<le> amount_of (account (kv s) a)"
  obtains s' where "Deduct A M s a fee = Some (None, s')" "wf_state (kv s')"
    "ledger_of (kv s') = (ledger_of (kv s))\<lparr>Accounts := debit (account (kv s)) a fee\<rparr>"
proof -
  have wf: "wf_balances (kv s)" using assms(4) by (simp add: wf_state_def)
  obtain s' where s': "SubBalance A M s a fee = Some (None, s')" "account (kv s') = debit (account (kv s)) a fee"
    using balance_store.sub_cases [OF storage_balances [OF assms(1,2)] wf, of a fee] assms(3,5)
    by (auto simp: debit_def)
  have "ledger_of (kv s') = (ledger_of (kv s))\<lparr>Accounts := account (kv s')\<rparr>"
    by (rule ledger_of_accounts, rule state_view.SubBalance_frame [OF assms(1) s'(1)]) auto
  then show thesis
    using that s' state_view.SubBalance_wf [OF assms(1) s'(1) assms(4)] by (simp add: Deduct_def)
qed

lemma Refund_eval:
  assumes "state_view M kv scope" "checked_math A" "BalanceKey a \<in> scope" "wf_state (kv s)"
    and "unat (amount_of (account (kv s) a)) + unat v < 2 ^ 64"
  obtains s' where "Refund A M s a v = Some (None, s')" "wf_state (kv s')"
    "ledger_of (kv s') = (ledger_of (kv s))\<lparr>Accounts := refund (account (kv s)) a v\<rparr>"
proof -
  have wf: "wf_balances (kv s)" using assms(4) by (simp add: wf_state_def)
  note store = storage_balances [OF assms(1,2)]
  have a: "a \<in> {a. BalanceKey a \<in> scope}" using assms(3) by simp
  obtain s' where s': "AddBalance A M s a v False = Some (None, s')" "account (kv s') = refund (account (kv s)) a v"
  proof (cases "account (kv s) a")
    case None
    with balance_store.add_absent [OF store wf a None, of v] that show thesis
      by (simp add: refund_def)
  next
    case (Some x)
    with balance_store.add_fits [OF store wf a, of False v] assms(5) that show thesis
      by (auto simp: refund_def)
  qed
  have "ledger_of (kv s') = (ledger_of (kv s))\<lparr>Accounts := account (kv s')\<rparr>"
    by (rule ledger_of_accounts, rule state_view.AddBalance_frame [OF assms(1) s'(1)]) auto
  then show thesis
    using that s' state_view.AddBalance_wf [OF assms(1) s'(1) assms(4)] by (simp add: Refund_def)
qed

lemma paid_simulates:
  assumes "\<And>keys. state_view (M keys) kv keys" "checked_math A" "wf_state (kv s)"
    and "image_fits (Tx_action (Paid_tx p))" "Paid_unused p \<le> Paid_fee p"
  shows "\<exists>ok s'. run_paid A L W M p s = Some (ok, s') \<and> wf_state (kv s') \<and>
    (ok, ledger_of (kv s')) = ledger_paid L W p (ledger_of (kv s))"
proof -
  define t where "t = Paid_tx p"
  define mu where "mu = M (paid_keys p)"
  have view: "state_view mu kv (paid_keys p)" using assms(1) by (simp add: mu_def)
  have key: "BalanceKey (Tx_actor t) \<in> paid_keys p"
    by (simp add: paid_keys_def t_def Let_def SponsorStateKeys_def)
  have cov: "covers (paid_keys p) (Action_StateKeys (Tx_action t) (Tx_actor t) (Tx_id t))"
    by (simp add: paid_keys_def t_def Let_def)
  note can = CanDeduct_eval [OF view assms(2) key assms(3), of "Paid_fee p"]
  show ?thesis
  proof (cases "can_pay p (ledger_of (kv s))")
    case False
    then show ?thesis
      using can assms(3) by (simp add: run_paid_def mu_def t_def Let_def ledger_paid_def can_pay_def)
  next
    case True
    then have fee: "Paid_fee p \<le> amount_of (account (kv s) (Tx_actor t))"
      by (simp add: can_pay_def t_def)
    obtain s1 where s1: "Deduct A mu s (Tx_actor t) (Paid_fee p) = Some (None, s1)" "wf_state (kv s1)"
      "ledger_of (kv s1) = (ledger_of (kv s))\<lparr>Accounts := debit (account (kv s)) (Tx_actor t) (Paid_fee p)\<rparr>"
      by (rule Deduct_eval [OF view assms(2) key assms(3) fee])
    have "simulates kv (Action_Execute A L W (Tx_rules t) mu (Tx_action t) s1 (Tx_time t) (Tx_actor t) (Tx_id t)) s1
        (charged L W p (ledger_of (kv s)))"
      using Action_simulates [OF view cov assms(2) s1(2), of L W "Tx_rules t" "Tx_time t"] assms(4) s1(3)
      by (simp add: charged_def ledger_tx_def t_def)
    then obtain res s2 where s2: "Action_Execute A L W (Tx_rules t) mu (Tx_action t) s1 (Tx_time t) (Tx_actor t) (Tx_id t) =
        Some (res, s2)" "success res = fst (charged L W p (ledger_of (kv s)))"
      and after: "wf_state (kv (if success res then s2 else s1))"
        "ledger_of (kv (if success res then s2 else s1)) = snd (charged L W p (ledger_of (kv s)))"
      by (auto simp: simulates_def Let_def)
    define s2' where "s2' = (if success res then s2 else s1)"
    note after = after [folded s2'_def]
    have acc: "account (kv s2') = Accounts (snd (charged L W p (ledger_of (kv s))))"
      unfolding after(2) [symmetric] by simp
    then have fits: "unat (amount_of (account (kv s2') (Tx_actor t))) + unat (Paid_unused p) < 2 ^ 64"
      using charged_actor [OF True assms(5), of L W] by (simp add: t_def)
    obtain s3 where s3: "Refund A mu s2' (Tx_actor t) (Paid_unused p) = Some (None, s3)" "wf_state (kv s3)"
      "ledger_of (kv s3) = (ledger_of (kv s2'))\<lparr>Accounts := refund (account (kv s2')) (Tx_actor t) (Paid_unused p)\<rparr>"
      by (rule Refund_eval [OF view assms(2) key after(1) fits])
    have "run_paid A L W M p s = Some (Some (success res), s3)"
      using can fee s1(1) s2(1) s3(1) by (simp add: run_paid_def mu_def t_def s2'_def Let_def)
    moreover have "(Some (success res), ledger_of (kv s3)) = ledger_paid L W p (ledger_of (kv s))"
      using True by (simp add: ledger_paid_def case_prod_unfold Let_def s2(2) s3(3) after(2) acc t_def)
    ultimately show ?thesis using s3(2) by blast
  qed
qed

lemma paid_chain_simulates:
  assumes "\<And>keys. state_view (M keys) kv keys" "checked_math A"
    and "\<forall>p \<in> set ps. image_fits (Tx_action (Paid_tx p)) \<and> Paid_unused p \<le> Paid_fee p" "wf_state (kv s)"
  shows "\<exists>oks s'. run_paid_chain A L W M ps s = Some (oks, s') \<and> wf_state (kv s') \<and>
    (oks, ledger_of (kv s')) = ledger_paid_run L W ps (ledger_of (kv s))"
  using assms(3,4)
proof (induction ps arbitrary: s)
  case (Cons p ps)
  obtain ok s1 where s1: "run_paid A L W M p s = Some (ok, s1)" "wf_state (kv s1)"
    "(ok, ledger_of (kv s1)) = ledger_paid L W p (ledger_of (kv s))"
    using paid_simulates [OF assms(1,2) Cons.prems(2)] Cons.prems(1) by (metis list.set_intros(1))
  obtain oks s2 where "run_paid_chain A L W M ps s1 = Some (oks, s2)" "wf_state (kv s2)"
    "(oks, ledger_of (kv s2)) = ledger_paid_run L W ps (ledger_of (kv s1))"
    using Cons.IH [of s1] Cons.prems(1) s1(2) by auto
  with s1 show ?case
    by (simp flip: s1(3)) (metis case_prod_conv)
qed simp

section \<open>Every token is accounted for\<close>

lemma debit_total:
  assumes "finite S" "a \<in> S" "v \<le> amount_of (acc a)"
  shows "total_on S (debit acc a v) + unat v = total_on S acc"
proof -
  have "unat (amount_of (debit acc a v a)) + unat v = unat (amount_of (acc a))"
    using assms(3) by (simp add: debit_amount word_le_nat_alt unat_sub)
  moreover have "debit acc a v = acc(a := debit acc a v a)"
    by (simp add: debit_def)
  ultimately show ?thesis
    using total_on_upd [OF assms(1,2), of acc "debit acc a v a"] by simp
qed

lemma refund_total:
  assumes "finite S" "a \<in> S" "unat (amount_of (acc a)) + unat v < 2 ^ 64"
  shows "total_on S (refund acc a v) = total_on S acc + (if acc a = None then 0 else unat v)"
proof (cases "acc a")
  case None
  then show ?thesis by (simp add: refund_def)
next
  case (Some x)
  then have "unat (x + v) = unat x + unat v"
    using assms(3) by (simp add: unat_word_ariths)
  with Some total_on_upd [OF assms(1,2), of acc "Some (x + v)"] show ?thesis
    by (simp add: refund_def)
qed

lemma ledger_tx_total:
  assumes "finite S" "participants (Tx_action t) (Tx_actor t) \<subseteq> S"
  shows "total_on S (Accounts (snd (ledger_tx L W t l))) = total_on S (Accounts l)"
proof (cases rule: ledger_step_accounts [of L W "Tx_rules t" "Tx_action t" "Tx_time t" "Tx_actor t" "Tx_id t" l])
  case 1
  then show ?thesis by (simp add: ledger_tx_def)
next
  case (2 u)
  then show ?thesis
    using assms move_total [OF assms(1), of "Tx_actor t" "Transfer_To u" "Accounts l" "Transfer_Value u"]
    by (simp add: ledger_tx_def)
qed

lemma ledger_paid_total:
  assumes "finite S" "participants (Tx_action (Paid_tx p)) (Tx_actor (Paid_tx p)) \<subseteq> S" "Tx_actor (Paid_tx p) \<in> S"
    and "Paid_unused p \<le> Paid_fee p"
  shows "total_on S (Accounts (snd (ledger_paid L W p l))) + paid_cost L W p l = total_on S (Accounts l)"
proof (cases "can_pay p l")
  case True
  let ?a = "Tx_actor (Paid_tx p)" and ?l = "snd (charged L W p l)"
  have "total_on S (Accounts ?l) = total_on S (debit (Accounts l) ?a (Paid_fee p))"
    using ledger_tx_total [OF assms(1,2), of L W "l\<lparr>Accounts := debit (Accounts l) ?a (Paid_fee p)\<rparr>"]
    by (simp add: charged_def)
  then have "total_on S (Accounts ?l) + unat (Paid_fee p) = total_on S (Accounts l)"
    using debit_total [OF assms(1,3), of "Paid_fee p" "Accounts l"] True by (simp add: can_pay_def)
  moreover have "total_on S (refund (Accounts ?l) ?a (Paid_unused p)) =
      total_on S (Accounts ?l) + (if Accounts ?l ?a = None then 0 else unat (Paid_unused p))"
    by (rule refund_total [OF assms(1,3)], rule charged_actor [OF True assms(4)])
  moreover have "unat (Paid_unused p) \<le> unat (Paid_fee p)"
    using assms(4) by (simp add: word_le_nat_alt)
  ultimately show ?thesis
    using True by (simp add: ledger_paid_def paid_cost_def case_prod_unfold Let_def)
qed (simp add: ledger_paid_def paid_cost_def)

lemma ledger_paid_run_total:
  assumes "finite S" "\<forall>p \<in> set ps. participants (Tx_action (Paid_tx p)) (Tx_actor (Paid_tx p)) \<subseteq> S \<and>
      Tx_actor (Paid_tx p) \<in> S \<and> Paid_unused p \<le> Paid_fee p"
  shows "total_on S (Accounts (snd (ledger_paid_run L W ps l))) + paid_costs L W ps l = total_on S (Accounts l)"
  using assms(2)
proof (induction ps arbitrary: l)
  case (Cons p ps)
  have "total_on S (Accounts (snd (ledger_paid L W p l))) + paid_cost L W p l = total_on S (Accounts l)"
    by (rule ledger_paid_total [OF assms(1)]) (use Cons.prems in simp_all)
  moreover have "total_on S (Accounts (snd (ledger_paid_run L W ps (snd (ledger_paid L W p l))))) +
      paid_costs L W ps (snd (ledger_paid L W p l)) = total_on S (Accounts (snd (ledger_paid L W p l)))"
    by (rule Cons.IH) (use Cons.prems in simp)
  ultimately show ?case
    by (simp add: case_prod_unfold Let_def)
qed simp

lemma paid_chain_accounted:
  assumes "\<And>keys. state_view (M keys) kv keys" "checked_math A" "wf_state (kv s)" "finite S"
    and "\<forall>p \<in> set ps. image_fits (Tx_action (Paid_tx p)) \<and> Paid_unused p \<le> Paid_fee p \<and> Tx_actor (Paid_tx p) \<in> S \<and>
      participants (Tx_action (Paid_tx p)) (Tx_actor (Paid_tx p)) \<subseteq> S"
  shows "\<exists>oks s'. run_paid_chain A L W M ps s = Some (oks, s') \<and> wf_state (kv s') \<and>
    total_on S (account (kv s')) + paid_costs L W ps (ledger_of (kv s)) = total_on S (account (kv s))"
proof -
  obtain oks s' where s': "run_paid_chain A L W M ps s = Some (oks, s')" "wf_state (kv s')"
    "(oks, ledger_of (kv s')) = ledger_paid_run L W ps (ledger_of (kv s))"
    using paid_chain_simulates [where L = L and W = W and ps = ps, OF assms(1,2) _ assms(3)] assms(5) by blast
  from s'(3) have "ledger_of (kv s') = snd (ledger_paid_run L W ps (ledger_of (kv s)))"
    by (simp add: prod_eq_iff)
  then have "account (kv s') = Accounts (snd (ledger_paid_run L W ps (ledger_of (kv s))))"
    by (metis ledger_of_sel(1))
  with s'(1,2) ledger_paid_run_total [OF assms(4), of ps L W "ledger_of (kv s)"] assms(5) show ?thesis
    by auto
qed

section \<open>What a paid transaction keeps\<close>

lemma Refund_cases:
  assumes "state_view M kv scope" "checked_math A" "BalanceKey a \<in> scope" "wf_state (kv s)"
  obtains s' where "Refund A M s a v = Some (None, s')" "wf_state (kv s')"
      "ledger_of (kv s') = (ledger_of (kv s))\<lparr>Accounts := refund (account (kv s)) a v\<rparr>"
      "unat (amount_of (account (kv s) a)) + unat v < 2 ^ 64"
    | e where "Refund A M s a v = Some (Some e, s)"
proof (cases "unat (amount_of (account (kv s) a)) + unat v < 2 ^ 64")
  case True
  then show thesis
    by (rule Refund_eval [OF assms]) (rule that(1) [OF _ _ _ True])
next
  case False
  have wf: "wf_balances (kv s)" using assms(4) by (simp add: wf_state_def)
  have "account (kv s) a \<noteq> None"
    using False unat_u64_less [of v] by (cases "account (kv s) a") auto
  with balance_store.add_cases [OF storage_balances [OF assms(1,2)] wf, of a False v] assms(3) False
  obtain e where "AddBalance A M s a v False = Some (Some e, s)"
    by auto
  then show thesis
    by (intro that(2)) (simp add: Refund_def)
qed

text \<open>
  A paid transaction that keeps the shape of the state and the statuses, moves no token into
  being, and takes at most its fee out.
\<close>

definition paid_keeps :: "address set \<Rightarrow> nat \<Rightarrow> (bytes \<rightharpoonup> bytes) \<Rightarrow> (bytes \<rightharpoonup> bytes) \<Rightarrow> bool" where
  "paid_keeps S fee m m' \<longleftrightarrow> wf_state m' \<and> status_set m' = status_set m \<and>
    total_on S (account m') \<le> total_on S (account m) \<and> total_on S (account m) \<le> total_on S (account m') + fee"

lemma paid_keeps_refl: "wf_state m \<Longrightarrow> paid_keeps S fee m m"
  by (simp add: paid_keeps_def)

lemma paid_keeps_trans: "paid_keeps S x m m' \<Longrightarrow> paid_keeps S y m' m'' \<Longrightarrow> paid_keeps S (x + y) m m''"
  by (simp add: paid_keeps_def)

definition takes_part :: "address set \<Rightarrow> ('bf, 'k) paid \<Rightarrow> bool" where
  "takes_part S p \<longleftrightarrow> Tx_actor (Paid_tx p) \<in> S \<and> participants (Tx_action (Paid_tx p)) (Tx_actor (Paid_tx p)) \<subseteq> S \<and>
    \<not> names_itself (Tx_action (Paid_tx p)) (Tx_id (Paid_tx p)) \<and> Paid_unused p \<le> Paid_fee p"

lemma run_paid_keeps:
  assumes "\<And>keys. state_view (M keys) kv keys" "checked_math A" "wf_state (kv s)" "finite S" "takes_part S p"
  shows "\<exists>ok s'. run_paid A L W M p s = Some (ok, s') \<and>
    paid_keeps S (if ok = None then 0 else unat (Paid_fee p)) (kv s) (kv s')"
proof -
  define t where "t = Paid_tx p"
  define mu where "mu = M (paid_keys p)"
  have view: "state_view mu kv (paid_keys p)" using assms(1) by (simp add: mu_def)
  have key: "BalanceKey (Tx_actor t) \<in> paid_keys p"
    by (simp add: paid_keys_def t_def Let_def SponsorStateKeys_def)
  have cov: "covers (paid_keys p) (Action_StateKeys (Tx_action t) (Tx_actor t) (Tx_id t))"
    by (simp add: paid_keys_def t_def Let_def)
  note part = assms(5) [unfolded takes_part_def, folded t_def]
  note can = CanDeduct_eval [OF view assms(2) key assms(3), of "Paid_fee p"]
  show ?thesis
  proof (cases "Paid_fee p \<le> amount_of (account (kv s) (Tx_actor t))")
    case False
    then show ?thesis
      using can assms(3) by (simp add: run_paid_def mu_def t_def Let_def paid_keeps_refl)
  next
    case True
    obtain s1 where s1: "Deduct A mu s (Tx_actor t) (Paid_fee p) = Some (None, s1)" "wf_state (kv s1)"
      "ledger_of (kv s1) = (ledger_of (kv s))\<lparr>Accounts := debit (account (kv s)) (Tx_actor t) (Paid_fee p)\<rparr>"
      by (rule Deduct_eval [OF view assms(2) key assms(3) True])
    obtain res s2 where s2: "Action_Execute A L W (Tx_rules t) mu (Tx_action t) s1 (Tx_time t) (Tx_actor t) (Tx_id t) =
        Some (res, s2)" "success res \<longrightarrow> keeps S (kv s1) (kv s2)"
      using Action_keeps [OF view cov assms(2) s1(2) assms(4), where L = L and W = W and r = "Tx_rules t"
          and ts = "Tx_time t"] part by auto
    define s2' where "s2' = (if success res then s2 else s1)"
    have mid: "keeps S (kv s1) (kv s2')"
      using s2(2) s1(2) by (simp add: s2'_def keeps_refl)
    have total1: "total_on S (account (kv s1)) + unat (Paid_fee p) = total_on S (account (kv s))"
      using debit_total [where acc = "account (kv s)", OF assms(4) _ True] part arg_cong [OF s1(3), of Accounts] by simp
    have status1: "status_set (kv s1) = status_set (kv s)"
      using arg_cong [OF s1(3), of Statuses] by simp
    have wf2: "wf_state (kv s2')" using mid by (simp add: keeps_def)
    show ?thesis
    proof (cases rule: Refund_cases [OF view assms(2) key wf2, of "Paid_unused p"])
      case (1 s3)
      have "total_on S (account (kv s3)) = total_on S (account (kv s2')) +
          (if account (kv s2') (Tx_actor t) = None then 0 else unat (Paid_unused p))"
        using refund_total [where acc = "account (kv s2')", OF assms(4) _ 1(4)] part arg_cong [OF 1(3), of Accounts] by simp
      moreover have "unat (Paid_unused p) \<le> unat (Paid_fee p)"
        using part by (simp add: word_le_nat_alt)
      moreover have "total_on S (account (kv s2')) = total_on S (account (kv s1))"
        using mid by (simp add: keeps_def)
      moreover have "status_set (kv s3) = status_set (kv s)"
        using arg_cong [OF 1(3), of Statuses] keeps_status [OF mid] status1 by simp
      ultimately have "paid_keeps S (unat (Paid_fee p)) (kv s) (kv s3)"
        using 1(2) total1 by (simp add: paid_keeps_def)
      moreover have "run_paid A L W M p s = Some (Some (success res), s3)"
        using can True s1(1) s2(1) 1(1) by (simp add: run_paid_def mu_def t_def s2'_def Let_def)
      ultimately show ?thesis by auto
    next
      case (2 e)
      then have "run_paid A L W M p s = Some (None, s)"
        using can True s1(1) s2(1) by (simp add: run_paid_def mu_def t_def s2'_def Let_def)
      with assms(3) show ?thesis by (simp add: paid_keeps_refl)
    qed
  qed
qed

text \<open>The fees of the transactions that were executed.\<close>

fun fees_taken :: "bool option list \<Rightarrow> ('bf, 'k) paid list \<Rightarrow> nat" where
  "fees_taken (ok # oks) (p # ps) = (if ok = None then 0 else unat (Paid_fee p)) + fees_taken oks ps"
| "fees_taken oks ps = 0"

lemma run_paid_chain_keeps:
  assumes "\<And>keys. state_view (M keys) kv keys" "checked_math A" "finite S" "\<forall>p \<in> set ps. takes_part S p" "wf_state (kv s)"
  shows "\<exists>oks s'. run_paid_chain A L W M ps s = Some (oks, s') \<and> length oks = length ps \<and>
    paid_keeps S (fees_taken oks ps) (kv s) (kv s')"
  using assms(4,5)
proof (induction ps arbitrary: s)
  case (Cons p ps)
  obtain ok s1 where s1: "run_paid A L W M p s = Some (ok, s1)"
    "paid_keeps S (if ok = None then 0 else unat (Paid_fee p)) (kv s) (kv s1)"
    using run_paid_keeps [OF assms(1,2) Cons.prems(2) assms(3), of p L W] Cons.prems(1) by auto
  obtain oks s2 where "run_paid_chain A L W M ps s1 = Some (oks, s2)" "length oks = length ps"
    "paid_keeps S (fees_taken oks ps) (kv s1) (kv s2)"
    using Cons.IH [of s1] Cons.prems(1) s1(2) by (auto simp: paid_keeps_def)
  with s1 paid_keeps_trans [OF s1(2)] show ?case by auto
qed (simp add: paid_keeps_refl)

section \<open>An example\<close>

lemma one_account_wf_state [simp]: "wf_state (one_account a v)"
  by (simp add: wf_state_def) (simp add: one_account_def wf_verify_def)

text \<open>
  Alice (70 tokens) pays Bob (30 tokens) 40, for a fee of 10 of which 4 are not used; Bob pays
  Alice the 60 he has left beside his fee, so that his refund is dropped; an account without
  tokens cannot pay.
\<close>

definition ref_paid :: "action \<Rightarrow> address \<Rightarrow> ID \<Rightarrow> (nat, nat \<times> 384 word) paid" where
  "ref_paid a actor tx = \<lparr>Paid_tx = ref_tx a actor tx, Paid_fee = 10, Paid_unused = 4\<rparr>"

definition ref_payments :: "(nat, nat \<times> 384 word) paid list" where
  "ref_payments =
    [ref_paid (ActionTransfer \<lparr>Transfer_To = 2, Transfer_Value = 40\<rparr>) 1 7,
     ref_paid (ActionTransfer \<lparr>Transfer_To = 1, Transfer_Value = 60\<rparr>) 2 8,
     ref_paid (ActionTransfer \<lparr>Transfer_To = 1, Transfer_Value = 1\<rparr>) 3 9]"

lemmas paid_defs = ref_payments_def ref_paid_def ref_tx_def ledger_paid_def paid_cost_def can_pay_def charged_def
  ledger_tx_def debit_def refund_def move_def transfer_fits_def Let_def

lemma ref_payments_ledger:
  assumes "Accounts l = [1 \<mapsto> 70, 2 \<mapsto> 30]"
  shows "fst (ledger_paid_run ref_bls ref_warp ref_payments l) = [Some True, Some True, None]"
    "Accounts (snd (ledger_paid_run ref_bls ref_warp ref_payments l)) = [1 \<mapsto> 84]"
    "paid_costs ref_bls ref_warp ref_payments l = 16"
  by (simp_all add: paid_defs assms fun_eq_iff)

section \<open>The claims\<close>

text \<open>
  C2: the chain with fees refines the ledger with fees. From a genesis that loads, any sequence
  of transactions that pay runs without a panic. The ledger says of each whether it is executed
  and whether it succeeds: it is executed when its sponsor has the maximal fee, its action sees
  the balances after the deduction, and the unused part comes back unless the account is gone.
\<close>

theorem paid_chain_refines_ledger:
  assumes "\<And>keys. state_view (M keys) kv keys" "checked_math A"
    and "\<And>al a. Some al \<in> set (CustomAllocation g) \<Longrightarrow> parse HRP (CustomAllocation_Address al) = Inr a \<Longrightarrow>
      BalanceKey a \<in> scope"
    and "kv s0 = Map.empty" "Load A B parse (M scope) g s0 = Some (None, s)"
    and "\<forall>p \<in> set ps. image_fits (Tx_action (Paid_tx p)) \<and> Paid_unused p \<le> Paid_fee p"
  shows "\<exists>oks s'. run_paid_chain A L W M ps s = Some (oks, s') \<and>
    (oks, ledger_of (kv s')) = ledger_paid_run L W ps (genesis_ledger parse (CustomAllocation g))"
proof -
  have "wf_state (kv s)" "ledger_of (kv s) = genesis_ledger parse (CustomAllocation g)"
    by (rule genesis_loads_ledger [where M = M and kv = kv and scope = scope, OF assms(1,2) _ assms(4,5)],
        erule (1) assms(3))+
  with paid_chain_simulates [where L = L and W = W, OF assms(1,2,6)] show ?thesis by metis
qed

theorem paid_chain_refines_ledger_witness:
  "\<exists>s s'. Load ref_math ref_merkledb ref_bech32 (mem_view {BalanceKey 1, BalanceKey 2})
      ((Default ref_merkledb)\<lparr>CustomAllocation := two_allocations\<rparr>) Map.empty = Some (None, s) \<and>
    run_paid_chain ref_math ref_bls ref_warp mem_view ref_payments s = Some ([Some True, Some True, None], s') \<and>
    account s' = [1 \<mapsto> 84]"
proof -
  let ?g = "(Default ref_merkledb)\<lparr>CustomAllocation := two_allocations\<rparr>"
  let ?l = "genesis_ledger ref_bech32 two_allocations"
  obtain s where s: "Load ref_math ref_merkledb ref_bech32 (mem_view {BalanceKey 1, BalanceKey 2}) ?g Map.empty = Some (None, s)"
    by (rule two_allocations_load)
  have fits: "\<forall>p \<in> set ref_payments. image_fits (Tx_action (Paid_tx p)) \<and> Paid_unused p \<le> Paid_fee p"
    by (simp add: ref_payments_def ref_paid_def ref_tx_def)
  have "Accounts ?l = [1 \<mapsto> 70, 2 \<mapsto> 30]"
    by (simp add: genesis_ledger_def two_allocations_facts)
  note ledger = ref_payments_ledger [OF this]
  obtain oks s' where run: "run_paid_chain ref_math ref_bls ref_warp mem_view ref_payments s = Some (oks, s')"
    "(oks, ledger_of s') = ledger_paid_run ref_bls ref_warp ref_payments ?l"
    using paid_chain_refines_ledger [where kv = "\<lambda>s. s" and L = ref_bls and W = ref_warp,
        OF mem_view.state_view_axioms ref_math.checked_math_axioms _ _ s fits] two_allocations_facts(1)
    unfolding two_allocations_facts(6) by blast
  from run(2) ledger(1,2) have "oks = [Some True, Some True, None]" "Accounts (ledger_of s') = [1 \<mapsto> 84]"
    by (simp_all add: prod_eq_iff del: ledger_of_sel)
  with s run(1) show ?thesis by auto
qed

text \<open>
  C3: every token is accounted for. Over any sequence of transactions that pay, the balances
  and the costs of the transactions add up to the balances at the start; a transaction costs
  its fee less the refund, and the whole fee when it has emptied the account of its sponsor.
\<close>

theorem fees_accounted:
  assumes "\<And>keys. state_view (M keys) kv keys" "checked_math A" "wf_state (kv s)" "finite S"
    and "\<forall>p \<in> set ps. image_fits (Tx_action (Paid_tx p)) \<and> Paid_unused p \<le> Paid_fee p \<and> Tx_actor (Paid_tx p) \<in> S \<and>
      participants (Tx_action (Paid_tx p)) (Tx_actor (Paid_tx p)) \<subseteq> S"
  shows "\<exists>oks s'. run_paid_chain A L W M ps s = Some (oks, s') \<and>
    total_on S (account (kv s')) + paid_costs L W ps (ledger_of (kv s)) = total_on S (account (kv s))"
  using paid_chain_accounted [OF assms, where L = L and W = W] by blast

text \<open>The example costs 6 and 10 of 100 tokens; 84 are left.\<close>

theorem fees_accounted_witness:
  "\<exists>s oks s'. account s = [1 \<mapsto> 70, 2 \<mapsto> 30] \<and>
    run_paid_chain ref_math ref_bls ref_warp mem_view ref_payments s = Some (oks, s') \<and>
    total_on {1, 2, 3} (account s') + 16 = 100"
proof -
  let ?s = "[BalanceKey 1 \<mapsto> be_bytes 8 (70 :: u64), BalanceKey 2 \<mapsto> be_bytes 8 (30 :: u64)]"
  have none: "account Map.empty = Map.empty"
    by (simp add: account_def fun_eq_iff)
  have acc: "account ?s = [1 \<mapsto> 70, 2 \<mapsto> 30]"
    by (simp add: none)
  have wf: "wf_state ?s"
    by (auto simp: wf_state_def wf_verify_def wf_balances_def)
  have fits: "\<forall>p \<in> set ref_payments. image_fits (Tx_action (Paid_tx p)) \<and> Paid_unused p \<le> Paid_fee p \<and>
      Tx_actor (Paid_tx p) \<in> {1, 2, 3} \<and> participants (Tx_action (Paid_tx p)) (Tx_actor (Paid_tx p)) \<subseteq> {1, 2, 3}"
    by (simp add: ref_payments_def ref_paid_def ref_tx_def)
  have "finite {1, 2, 3 :: address}" by simp
  from fees_accounted [where kv = "\<lambda>s. s" and L = ref_bls and W = ref_warp,
      OF mem_view.state_view_axioms ref_math.checked_math_axioms wf this fits]
  obtain oks s' where run: "run_paid_chain ref_math ref_bls ref_warp mem_view ref_payments ?s = Some (oks, s')"
    "total_on {1, 2, 3} (account s') + paid_costs ref_bls ref_warp ref_payments (ledger_of ?s) =
      total_on {1, 2, 3} (account ?s)" by blast
  have "paid_costs ref_bls ref_warp ref_payments (ledger_of ?s) = 16"
    by (rule ref_payments_ledger(3)) (simp add: none)
  moreover have "total_on {1, 2, 3} (account ?s) = 100"
    unfolding acc by (simp add: total_on_def)
  ultimately have "total_on {1, 2, 3} (account s') + 16 = 100"
    using run(2) by (simp only:)
  with acc run(1) show ?thesis by blast
qed

text \<open>
  C8: where the tokens are. From a genesis that loads into an empty state without allocating
  twice to an address, and after any sequence of transactions that pay, the balances of all
  who take part and what the transactions have cost add up to exactly the sum of the
  allocations. No balance can then overflow: a transfer that is executed in that state fails
  only when it moves nothing or more than the balance of its sender.
\<close>

theorem supply_from_genesis:
  assumes "\<And>keys. state_view (M keys) kv keys" "checked_math A" "kv s0 = Map.empty"
    and "\<And>al a. Some al \<in> set (CustomAllocation g) \<Longrightarrow> parse HRP (CustomAllocation_Address al) = Inr a \<Longrightarrow>
      BalanceKey a \<in> scope"
    and "Load A B parse (M scope) g s0 = Some (None, s)" "distinct (parsed_addresses parse (CustomAllocation g))"
    and "finite S" "set (parsed_addresses parse (CustomAllocation g)) \<subseteq> S"
    and "\<forall>p \<in> set ps. image_fits (Tx_action (Paid_tx p)) \<and> Paid_unused p \<le> Paid_fee p \<and> Tx_actor (Paid_tx p) \<in> S \<and>
      participants (Tx_action (Paid_tx p)) (Tx_actor (Paid_tx p)) \<subseteq> S"
  shows "\<exists>oks s'. run_paid_chain A L W M ps s = Some (oks, s') \<and>
    total_on S (account (kv s')) + paid_costs L W ps (genesis_ledger parse (CustomAllocation g)) =
      allocation_sum (CustomAllocation g) \<and>
    (\<forall>t actor tx ts. actor \<in> S \<and> Transfer_To t \<in> S \<longrightarrow>
      (\<exists>r s''. Transfer_Execute A (M (Transfer_StateKeys t actor tx)) t s' ts actor tx = Some (r, s'') \<and>
        (success r \<longleftrightarrow> Transfer_Value t \<noteq> 0 \<and> Transfer_Value t \<le> amount_of (account (kv s') actor))))"
proof -
  have wf: "wf_state (kv s)"
    by (rule genesis_facts(1) [OF assms(1,2) _ assms(3,5,7,8)], rule assms(4))
  have total: "total_on S (account (kv s)) = allocation_sum (CustomAllocation g)"
    by (rule genesis_facts(2) [OF assms(1,2) _ assms(3,5,7,8,6)], rule assms(4))
  have small: "allocation_sum (CustomAllocation g) < 2 ^ 64"
    by (rule genesis_facts(4) [OF assms(1,2) _ assms(3,5,7,8)], rule assms(4))
  have l: "ledger_of (kv s) = genesis_ledger parse (CustomAllocation g)"
    by (rule genesis_loads_ledger [where M = M and kv = kv and scope = scope, OF assms(1,2) _ assms(3,5)],
        erule (1) assms(4))
  obtain oks s' where s': "run_paid_chain A L W M ps s = Some (oks, s')" "wf_state (kv s')"
    "total_on S (account (kv s')) + paid_costs L W ps (ledger_of (kv s)) = total_on S (account (kv s))"
    using paid_chain_accounted [OF assms(1,2) wf assms(7,9), where L = L and W = W] by blast
  have "\<exists>r s''. Transfer_Execute A (M (Transfer_StateKeys t actor tx)) t s' ts actor tx = Some (r, s'') \<and>
        (success r \<longleftrightarrow> Transfer_Value t \<noteq> 0 \<and> Transfer_Value t \<le> amount_of (account (kv s') actor))"
    if "actor \<in> S" "Transfer_To t \<in> S" for t actor tx ts
  proof -
    have "wf_balances (kv s')" using s'(2) by (simp add: wf_state_def)
    moreover have "total_on S (account (kv s')) < 2 ^ 64"
      using s'(3) total small by simp
    ultimately show ?thesis
      using Transfer_eval [OF assms(1,2) _ subset_refl, where t = t and actor = actor and ts = ts and tx = tx and s = s']
        transfer_fits_if_supply_fits [OF assms(7) that, of "account (kv s')" "Transfer_Value t"]
      by (fastforce simp: transfer_fits_def)
  qed
  with s'(1,3) total l show ?thesis by (simp del: ledger_of_sel)
qed

theorem supply_from_genesis_witness:
  "\<exists>s oks s'. Load ref_math ref_merkledb ref_bech32 (mem_view {BalanceKey 1, BalanceKey 2})
      ((Default ref_merkledb)\<lparr>CustomAllocation := two_allocations\<rparr>) Map.empty = Some (None, s) \<and>
    run_paid_chain ref_math ref_bls ref_warp mem_view ref_payments s = Some (oks, s') \<and>
    total_on {1, 2, 3} (account s') + 16 = 100"
proof -
  let ?g = "(Default ref_merkledb)\<lparr>CustomAllocation := two_allocations\<rparr>"
  obtain s where s: "Load ref_math ref_merkledb ref_bech32 (mem_view {BalanceKey 1, BalanceKey 2}) ?g Map.empty = Some (None, s)"
    by (rule two_allocations_load)
  have fits: "\<forall>p \<in> set ref_payments. image_fits (Tx_action (Paid_tx p)) \<and> Paid_unused p \<le> Paid_fee p \<and>
      Tx_actor (Paid_tx p) \<in> {1, 2, 3} \<and> participants (Tx_action (Paid_tx p)) (Tx_actor (Paid_tx p)) \<subseteq> {1, 2, 3}"
    by (simp add: ref_payments_def ref_paid_def ref_tx_def)
  have "Accounts (genesis_ledger ref_bech32 two_allocations) = [1 \<mapsto> 70, 2 \<mapsto> 30]"
    by (simp add: genesis_ledger_def two_allocations_facts)
  note ref_payments_ledger(3) [OF this]
  then show ?thesis
    using supply_from_genesis [where kv = "\<lambda>s. s" and L = ref_bls and W = ref_warp and S = "{1, 2, 3}",
        OF mem_view.state_view_axioms ref_math.checked_math_axioms _ _ s _ _ _ fits] two_allocations_facts(1) s
    by (fastforce simp: two_allocations_facts(2-))
qed

text \<open>
  C9: any sequence of transactions of the registered actions that pay, by any actors, at any
  times and under any rules, whether or not what they register fits its chunks, is executed
  without a panic. It keeps the state well formed and sets no verification status; it makes no
  token (over any finite set of accounts that contains those who pay and are paid), and takes
  out at most the fees of the transactions that were executed.
\<close>

theorem chain_safety:
  assumes "\<And>keys. state_view (M keys) kv keys" "checked_math A" "finite S" "\<forall>p \<in> set ps. takes_part S p" "wf_state (kv s)"
  shows "\<exists>oks s'. run_paid_chain A L W M ps s = Some (oks, s') \<and> length oks = length ps \<and>
    wf_state (kv s') \<and> status_set (kv s') = status_set (kv s) \<and>
    total_on S (account (kv s')) \<le> total_on S (account (kv s)) \<and>
    total_on S (account (kv s)) \<le> total_on S (account (kv s')) + fees_taken oks ps"
  using run_paid_chain_keeps [OF assms, where L = L and W = W] unfolding paid_keeps_def .

text \<open>The payments of the example; the fees of the two that are executed are 10 each.\<close>

theorem chain_safety_witness:
  "\<exists>oks s'. run_paid_chain ref_math ref_bls ref_warp mem_view ref_payments (one_account 1 100) = Some (oks, s') \<and>
    length oks = 3 \<and> total_on {1, 2, 3} (account s') \<le> 100 \<and>
    100 \<le> total_on {1, 2, 3} (account s') + fees_taken oks ref_payments"
proof -
  have "\<forall>p \<in> set ref_payments. takes_part {1, 2, 3} p"
    by (simp add: ref_payments_def ref_paid_def ref_tx_def takes_part_def)
  moreover have "total_on {1, 2, 3} (account (one_account 1 100)) = 100" "length ref_payments = 3"
    by (simp_all add: total_on_def ref_payments_def)
  ultimately show ?thesis
    using chain_safety [OF mem_view.state_view_axioms ref_math.checked_math_axioms, of "{1, 2, 3}"
        ref_payments "one_account 1 100" ref_bls ref_warp] one_account_wf_state [of 1 100] by auto
qed

end
