(* ===== verification/Vote_Counting.thy ===== *)
theory Vote_Counting
  imports Paid_Chain
begin

text \<open>
  The votes that count, over a whole sequence of transactions of any kind: \<open>counted_votes\<close>
  lists them, and the weights of the ledger are the sums over that list. With a parser of keys
  that returns new references, as Go's does, none counts: that is the claim. If the keys were
  compared by their bytes, whoever sees a vote could submit it again (\<open>vote_replays_count\<close>).
\<close>

section \<open>The counted votes of a sequence\<close>

definition counted_vote_of ::
  "('k, 'g, 'sk) bls_lib \<Rightarrow> 'm warp_lib \<Rightarrow> ('bf, 'k) transaction \<Rightarrow> ledger \<Rightarrow>
    (validator_vote \<times> address \<times> u64) list" where
  "counted_vote_of L W t l = (case Tx_action t of
     ActionValidatorVote v \<Rightarrow> (case judge_vote L W (Tx_rules t) v (Tx_time t) (Tx_actor t) l of
       Counted w \<Rightarrow> [(v, Tx_actor t, w)] | _ \<Rightarrow> [])
   | _ \<Rightarrow> [])"

fun counted_votes ::
  "('k, 'g, 'sk) bls_lib \<Rightarrow> 'm warp_lib \<Rightarrow> ('bf, 'k) transaction list \<Rightarrow> ledger \<Rightarrow>
    (validator_vote \<times> address \<times> u64) list" where
  "counted_votes L W [] l = []"
| "counted_votes L W (t # ts) l = counted_vote_of L W t l @ counted_votes L W ts (snd (ledger_tx L W t l))"

definition yes_votes :: "ID \<Rightarrow> (validator_vote \<times> address \<times> u64) list \<Rightarrow> (validator_vote \<times> address \<times> u64) list" where
  "yes_votes i cs = filter (\<lambda>(v, a, w). Vote_TxID v = i \<and> Vote_Vote v) cs"

definition weight_sum :: "(validator_vote \<times> address \<times> u64) list \<Rightarrow> u64" where
  "weight_sum cs = sum_list (map (\<lambda>(v, a, w). w) cs)"

definition add_votes :: "(validator_vote \<times> address \<times> u64) list \<Rightarrow> u64 option \<Rightarrow> u64 option" where
  "add_votes cs old = (if cs = [] then old else Some (amount_of old + weight_sum cs))"

lemma add_votes_append: "add_votes (cs @ ds) old = add_votes ds (add_votes cs old)"
  by (simp add: add_votes_def weight_sum_def amount_of_def add.assoc)

lemma yes_votes_append [simp]: "yes_votes i (cs @ ds) = yes_votes i cs @ yes_votes i ds"
  by (simp add: yes_votes_def)

text \<open>What a transaction does to the weights and the voters, of whatever action it is.\<close>

lemma ledger_tx_votes:
  shows "Weights (snd (ledger_tx L W t l)) i = add_votes (yes_votes i (counted_vote_of L W t l)) (Weights l i)"
    and "Voters (snd (ledger_tx L W t l)) i a \<longleftrightarrow>
      Voters l i a \<or> (\<exists>v w. (v, a, w) \<in> set (counted_vote_of L W t l) \<and> Vote_TxID v = i)"
proof -
  consider (vote) v where "Tx_action t = ActionValidatorVote v" | (other) "\<And>v. Tx_action t \<noteq> ActionValidatorVote v"
    by blast
  then have "Weights (snd (ledger_tx L W t l)) i = add_votes (yes_votes i (counted_vote_of L W t l)) (Weights l i) \<and>
    (Voters (snd (ledger_tx L W t l)) i a \<longleftrightarrow>
      Voters l i a \<or> (\<exists>v w. (v, a, w) \<in> set (counted_vote_of L W t l) \<and> Vote_TxID v = i))"
  proof cases
    case vote
    then show ?thesis
      by (auto simp: ledger_tx_def counted_vote_of_def yes_votes_def add_votes_def weight_sum_def count_vote_def
          Let_def amount_of_def split: vote_outcome.split option.split)
  next
    case other
    then have "counted_vote_of L W t l = []"
      by (simp add: counted_vote_of_def split: action.split)
    moreover have "Weights (snd (ledger_tx L W t l)) = Weights l" "Voters (snd (ledger_tx L W t l)) = Voters l"
      using other by (cases "Tx_action t"; simp add: ledger_tx_def set_deadline_def Let_def)+
    ultimately show ?thesis
      by (simp add: yes_votes_def add_votes_def)
  qed
  then show "Weights (snd (ledger_tx L W t l)) i = add_votes (yes_votes i (counted_vote_of L W t l)) (Weights l i)"
    "Voters (snd (ledger_tx L W t l)) i a \<longleftrightarrow>
      Voters l i a \<or> (\<exists>v w. (v, a, w) \<in> set (counted_vote_of L W t l) \<and> Vote_TxID v = i)"
    by blast+
qed

lemma judge_vote_counted:
  assumes "judge_vote L W r v ts actor l = Counted w"
  obtains d pk sig vdr where "Deadlines l (Vote_TxID v) = Some d" "sint ts \<le> sint d"
    "Bls_PublicKeyFromBytes L (Vote_PublicKey v) = Inr pk" "Bls_SignatureFromBytes L (Vote_Signature v) = Inr sig"
    "Vote_PublicKey v \<in> snd (Rules_f r ())" "matching pk (fst (Rules_f r ())) = [vdr]" "w = Validator_Weight vdr"
    "signed_vote L W r v pk sig" "\<not> Voters l (Vote_TxID v) actor"
  using assms by (auto simp: judge_vote_def split: option.splits sum.splits list.splits if_splits)

lemma counted_vote_ofD:
  assumes "(v, a, w) \<in> set (counted_vote_of L W t l)"
  shows "Tx_action t = ActionValidatorVote v" "Tx_actor t = a"
    "judge_vote L W (Tx_rules t) v (Tx_time t) a l = Counted w" "\<not> Voters l (Vote_TxID v) a"
proof -
  show 1: "Tx_action t = ActionValidatorVote v" "Tx_actor t = a"
    "judge_vote L W (Tx_rules t) v (Tx_time t) a l = Counted w"
    using assms by (auto simp: counted_vote_of_def split: action.splits vote_outcome.splits)
  show "\<not> Voters l (Vote_TxID v) a"
    using judge_vote_counted [OF 1(3)] by metis
qed

lemma length_counted_vote_of: "length (counted_vote_of L W t l) \<le> 1"
  by (simp add: counted_vote_of_def split: action.split vote_outcome.split)

text \<open>The sums: every weight is what was there before with the yes votes that counted.\<close>

lemma weights_are_sums:
  "Weights (ledger_run L W ts l) i = add_votes (yes_votes i (counted_votes L W ts l)) (Weights l i)"
proof (induction ts arbitrary: l)
  case (Cons t ts)
  then show ?case by (simp add: add_votes_append ledger_tx_votes(1))
qed (simp add: add_votes_def yes_votes_def)

text \<open>At most one vote of an actor counts for a transaction.\<close>

definition voter_of :: "validator_vote \<times> address \<times> u64 \<Rightarrow> ID \<times> address" where
  "voter_of = (\<lambda>(v, a, w). (Vote_TxID v, a))"

lemma counted_votes_distinct:
  "distinct (map voter_of (counted_votes L W ts l)) \<and>
    (\<forall>(i, a) \<in> set (map voter_of (counted_votes L W ts l)). \<not> Voters l i a)"
proof (induction ts arbitrary: l)
  case (Cons t ts)
  let ?l = "snd (ledger_tx L W t l)" and ?c = "counted_vote_of L W t l"
  have here: "Voters ?l i a" "\<not> Voters l i a" if "(i, a) \<in> set (map voter_of ?c)" for i a
  proof -
    from that obtain v w where v: "(v, a, w) \<in> set ?c" "i = Vote_TxID v"
      by (auto simp: voter_of_def)
    from v(1) show "\<not> Voters l i a"
      unfolding v(2) by (rule counted_vote_ofD(4))
    from v show "Voters ?l i a"
      unfolding ledger_tx_votes(2) by blast
  qed
  moreover have "distinct (map voter_of ?c)"
    using length_counted_vote_of [of L W t l] by (cases ?c) auto
  moreover have "Voters l i a \<Longrightarrow> Voters ?l i a" for i a
    unfolding ledger_tx_votes(2) by blast
  ultimately show ?case
    using Cons.IH [of ?l] by fastforce
qed simp

lemma counted_votes_from:
  assumes "(v, a, w) \<in> set (counted_votes L W ts l)"
  shows "\<exists>t \<in> set ts. Tx_action t = ActionValidatorVote v \<and> Tx_actor t = a \<and>
    (\<exists>pk vdr. Bls_PublicKeyFromBytes L (Vote_PublicKey v) = Inr pk \<and>
      matching pk (fst (Rules_f (Tx_rules t) ())) = [vdr] \<and> w = Validator_Weight vdr)"
  using assms
proof (induction ts arbitrary: l)
  case (Cons t ts)
  show ?case
  proof (cases "(v, a, w) \<in> set (counted_vote_of L W t l)")
    case True
    note t = counted_vote_ofD [OF this]
    show ?thesis
      by (rule judge_vote_counted [OF t(3)]) (use t(1,2) in auto)
  next
    case False
    with Cons show ?thesis by fastforce
  qed
qed simp

section \<open>New references\<close>

text \<open>
  The vote of a transaction carries a key whose parsed reference is not one of the validator
  list: with a parser that allocates, as \<open>bls.PublicKeyFromBytes\<close> does, every vote.
\<close>

definition fresh_key :: "('k, 'g, 'sk) bls_lib \<Rightarrow> ('bf, 'k) transaction \<Rightarrow> bool" where
  "fresh_key L t \<longleftrightarrow> (\<forall>v pk. Tx_action t = ActionValidatorVote v \<longrightarrow>
    Bls_PublicKeyFromBytes L (Vote_PublicKey v) = Inr pk \<longrightarrow>
    pk \<notin> Validator_PublicKey ` set (fst (Rules_f (Tx_rules t) ())))"

lemma fresh_key_counts_nothing:
  assumes "fresh_key L t"
  shows "counted_vote_of L W t l = []"
proof (rule ccontr)
  assume "counted_vote_of L W t l \<noteq> []"
  then obtain v a w where "(v, a, w) \<in> set (counted_vote_of L W t l)"
    by (metis list.set_intros(1) neq_Nil_conv prod_cases3)
  note t = counted_vote_ofD [OF this]
  obtain pk vdr where pk: "Bls_PublicKeyFromBytes L (Vote_PublicKey v) = Inr pk"
    and "matching pk (fst (Rules_f (Tx_rules t) ())) = [vdr]"
    by (rule judge_vote_counted [OF t(3)])
  then have "vdr \<in> set (matching pk (fst (Rules_f (Tx_rules t) ())))" by simp
  then have "pk \<in> Validator_PublicKey ` set (fst (Rules_f (Tx_rules t) ()))"
    by auto
  with assms t(1) pk show False by (simp add: fresh_key_def)
qed

lemma uncounted_status:
  assumes "counted_vote_of L W t l = []"
  shows "Statuses (snd (ledger_tx L W t l)) = Statuses l"
  using assms
  by (cases "Tx_action t")
    (auto simp: counted_vote_of_def ledger_tx_def set_deadline_def Let_def split: vote_outcome.splits)

text \<open>No vote has counted.\<close>

definition no_votes :: "ledger \<Rightarrow> bool" where
  "no_votes l \<longleftrightarrow> (\<forall>i. Weights l i = None \<and> \<not> Statuses l i \<and> (\<forall>a. \<not> Voters l i a))"

lemma ledger_paid_no_votes:
  assumes "fresh_key L (Paid_tx p)" "no_votes l"
  shows "no_votes (snd (ledger_paid L W p l))"
proof -
  let ?l = "l\<lparr>Accounts := debit (Accounts l) (Tx_actor (Paid_tx p)) (Paid_fee p)\<rparr>"
  have "no_votes (snd (ledger_tx L W (Paid_tx p) ?l))"
    using assms(2) ledger_tx_votes [of L W "Paid_tx p" ?l] uncounted_status [where W = W and l = ?l, OF fresh_key_counts_nothing [OF assms(1)]]
    by (simp add: no_votes_def fresh_key_counts_nothing [OF assms(1)] add_votes_def yes_votes_def)
  then show ?thesis
    using assms(2) by (simp add: ledger_paid_def charged_def no_votes_def case_prod_unfold Let_def)
qed

lemma ledger_paid_run_no_votes:
  assumes "\<forall>p \<in> set ps. fresh_key L (Paid_tx p)" "no_votes l"
  shows "no_votes (snd (ledger_paid_run L W ps l))"
  using assms
proof (induction ps arbitrary: l)
  case (Cons p ps)
  then show ?case
    using ledger_paid_no_votes [of L p l W] by (simp add: case_prod_unfold Let_def)
qed simp

text \<open>
  C7: on the chain as it is, no vote ever counts. From a genesis that loads into an empty
  state, and after any sequence of transactions that pay their fees, with any votes whose keys
  are parsed into references that the validator list does not have, no verification has a
  weight and no account has voted, whatever was signed and however often.
\<close>

theorem no_vote_counts:
  assumes "\<And>keys. state_view (M keys) kv keys" "checked_math A"
    and "\<And>al a. Some al \<in> set (CustomAllocation g) \<Longrightarrow> parse HRP (CustomAllocation_Address al) = Inr a \<Longrightarrow>
      BalanceKey a \<in> scope"
    and "kv s0 = Map.empty" "Load A B parse (M scope) g s0 = Some (None, s)"
    and "\<forall>p \<in> set ps. image_fits (Tx_action (Paid_tx p)) \<and> Paid_unused p \<le> Paid_fee p \<and> fresh_key L (Paid_tx p)"
  shows "\<exists>oks s'. run_paid_chain A L W M ps s = Some (oks, s') \<and>
    (\<forall>i. weight_of (kv s') i = None \<and> \<not> status_set (kv s') i \<and> (\<forall>a. \<not> has_voted (kv s') i a))"
proof -
  have start: "wf_state (kv s)" "ledger_of (kv s) = genesis_ledger parse (CustomAllocation g)"
    by (rule genesis_loads_ledger [where M = M and kv = kv and scope = scope, OF assms(1,2) _ assms(4,5)],
        erule (1) assms(3))+
  obtain oks s' where s': "run_paid_chain A L W M ps s = Some (oks, s')" "wf_state (kv s')"
    "(oks, ledger_of (kv s')) = ledger_paid_run L W ps (ledger_of (kv s))"
    using paid_chain_simulates [where L = L and W = W and ps = ps, OF assms(1,2) _ start(1)] assms(6) by blast
  have "no_votes (ledger_of (kv s))"
    unfolding start(2) by (simp add: no_votes_def genesis_ledger_def)
  then have "no_votes (ledger_of (kv s'))"
    using ledger_paid_run_no_votes [of ps L "ledger_of (kv s)" W] assms(6) s'(3)
    by (simp add: prod_eq_iff del: ledger_of_sel)
  with s'(1) show ?thesis by (auto simp: no_votes_def)
qed

text \<open>
  Bob submits a proof, and the vote of the only validator, well signed, is executed for Alice;
  the validator list has a reference of its own.
\<close>

definition ref_fresh_history :: "(nat, nat \<times> 384 word) paid list" where
  "ref_fresh_history =
    [ref_paid (ActionSP1 \<lparr>SP1_ImageID = 1, SP1_ProofValType = 2, SP1_TimeOutBlocks = 100\<rparr>) 2 8,
     (ref_paid (ActionValidatorVote (ref_vote 8 True)) 1 9)
       \<lparr>Paid_tx := (ref_tx (ActionValidatorVote (ref_vote 8 True)) 1 9)\<lparr>Tx_rules := ref_rules 1\<rparr>\<rparr>]"

theorem no_vote_counts_witness:
  "\<exists>s oks s'. Load ref_math ref_merkledb ref_bech32 (mem_view {BalanceKey 1, BalanceKey 2})
      ((Default ref_merkledb)\<lparr>CustomAllocation := two_allocations\<rparr>) Map.empty = Some (None, s) \<and>
    run_paid_chain ref_math ref_bls ref_warp mem_view ref_fresh_history s = Some (oks, s') \<and>
    weight_of s' 8 = None \<and> \<not> has_voted s' 8 1"
proof -
  let ?g = "(Default ref_merkledb)\<lparr>CustomAllocation := two_allocations\<rparr>"
  obtain s where s: "Load ref_math ref_merkledb ref_bech32 (mem_view {BalanceKey 1, BalanceKey 2}) ?g Map.empty = Some (None, s)"
    by (rule two_allocations_load)
  have fresh: "\<forall>p \<in> set ref_fresh_history. image_fits (Tx_action (Paid_tx p)) \<and> Paid_unused p \<le> Paid_fee p \<and>
      fresh_key ref_bls (Paid_tx p)"
    by (auto simp: ref_fresh_history_def ref_paid_def ref_tx_def fresh_key_def ref_rules_def Genesis_Rules_def
        ref_bls_def split: if_splits)
  obtain oks s' where "run_paid_chain ref_math ref_bls ref_warp mem_view ref_fresh_history s = Some (oks, s')"
    "\<forall>i. weight_of s' i = None \<and> \<not> status_set s' i \<and> (\<forall>a. \<not> has_voted s' i a)"
    using no_vote_counts [where kv = "\<lambda>s. s" and L = ref_bls and W = ref_warp,
        OF mem_view.state_view_axioms ref_math.checked_math_axioms _ _ s fresh] two_allocations_facts(1)
    unfolding two_allocations_facts(6) by blast
  with s show ?thesis by blast
qed

section \<open>Replaying a vote\<close>

text \<open>
  The judgement of a vote looks at its actor only to see whether it has voted: nothing ties the
  signature of the validator to the account that submits it.
\<close>

lemma judge_vote_actor:
  assumes "judge_vote L W r v ts a l = Counted w" "Deadlines l' (Vote_TxID v) = Deadlines l (Vote_TxID v)"
    and "\<not> Voters l' (Vote_TxID v) b"
  shows "judge_vote L W r v ts b l' = Counted w"
  by (rule judge_vote_counted [OF assms(1)]) (use assms(2,3) in \<open>simp add: judge_vote_def\<close>)

definition replay :: "('bf, 'k) transaction \<Rightarrow> (address \<times> ID) list \<Rightarrow> ('bf, 'k) transaction list" where
  "replay t bs = map (\<lambda>(b, i). t\<lparr>Tx_actor := b, Tx_id := i\<rparr>) bs"

lemma replay_simps [simp]:
  "replay t [] = []" "replay t ((b, i) # bs) = t\<lparr>Tx_actor := b, Tx_id := i\<rparr> # replay t bs"
  by (simp_all add: replay_def)

lemma replay_weight:
  assumes "Tx_action t = ActionValidatorVote v" "Vote_Vote v"
    and "judge_vote L W (Tx_rules t) v (Tx_time t) (Tx_actor t) l0 = Counted w"
    and "Deadlines l (Vote_TxID v) = Deadlines l0 (Vote_TxID v)"
    and "distinct (map fst bs)" "\<forall>b \<in> fst ` set bs. \<not> Voters l (Vote_TxID v) b"
  shows "amount_of (Weights (ledger_run L W (replay t bs) l) (Vote_TxID v)) =
    amount_of (Weights l (Vote_TxID v)) + of_nat (length bs) * w"
  using assms(4-)
proof (induction bs arbitrary: l)
  case (Cons x bs)
  obtain b i where x: "x = (b, i)" by (rule prod.exhaust)
  let ?t = "t\<lparr>Tx_actor := b, Tx_id := i\<rparr>"
  let ?l = "snd (ledger_tx L W ?t l)"
  have "judge_vote L W (Tx_rules t) v (Tx_time t) b l = Counted w"
    by (rule judge_vote_actor [OF assms(3)]) (use Cons.prems x in simp_all)
  then have l: "?l = count_vote i v b w l"
    by (simp add: ledger_tx_def assms(1))
  have "amount_of (Weights (ledger_run L W (replay t bs) ?l) (Vote_TxID v)) =
      amount_of (Weights ?l (Vote_TxID v)) + of_nat (length bs) * w"
    by (rule Cons.IH) (use Cons.prems x l in \<open>auto simp: count_vote_def Let_def\<close>)
  moreover have "amount_of (Weights ?l (Vote_TxID v)) = amount_of (Weights l (Vote_TxID v)) + w"
    using l assms(2) by (simp add: count_vote_def Let_def amount_of_def split: option.split)
  ultimately show ?case
    by (simp add: x algebra_simps)
qed simp

text \<open>
  A chain whose parser finds the reference of the validator list, which amounts to comparing
  keys by their bytes, would take a vote again: a yes that counts with weight \<open>w\<close>, taken from
  the transaction \<open>t\<close> of anybody and submitted again by any accounts that have not voted, each
  in a transaction of its own, counts for every one of them. The signature of the validator is
  the one of \<open>t\<close>, for no account in particular.
\<close>

theorem vote_replays_count:
  assumes "\<And>keys. state_view (M keys) kv keys" "checked_math A" "wf_state (kv s)"
    and "Tx_action t = ActionValidatorVote v" "Vote_Vote v"
    and "vote_outcome L W (Tx_rules t) v (Tx_time t) (Tx_actor t) (kv s) = Counted w"
    and "distinct (map fst bs)" "\<forall>b \<in> fst ` set bs. \<not> has_voted (kv s) (Vote_TxID v) b"
  shows "\<exists>s'. run_chain A L W M (replay t bs) s = Some s' \<and>
    amount_of (weight_of (kv s') (Vote_TxID v)) =
      amount_of (weight_of (kv s) (Vote_TxID v)) + of_nat (length bs) * w"
proof -
  have "\<forall>t \<in> set (replay t bs). image_fits (Tx_action t)"
    using assms(4) by (auto simp: replay_def)
  from chain_simulates [where L = L and W = W, OF assms(1,2) this assms(3)]
  obtain s' where s': "run_chain A L W M (replay t bs) s = Some s'"
    "ledger_of (kv s') = ledger_run L W (replay t bs) (ledger_of (kv s))"
    by blast
  have "judge_vote L W (Tx_rules t) v (Tx_time t) (Tx_actor t) (ledger_of (kv s)) = Counted w"
    using assms(6) by (simp add: judge_vote_ledger_of)
  from replay_weight [where l = "ledger_of (kv s)", OF assms(4,5) this refl assms(7)] assms(8)
  have "amount_of (Weights (ledger_of (kv s')) (Vote_TxID v)) =
      amount_of (weight_of (kv s) (Vote_TxID v)) + of_nat (length bs) * w"
    by (simp add: s'(2))
  with s'(1) show ?thesis by simp
qed

text \<open>The vote of the only validator, of weight 10, submitted from three accounts.\<close>

theorem vote_replays_count_witness:
  "\<exists>s'. run_chain ref_math ref_bls ref_warp mem_view
      (replay (ref_tx (ActionValidatorVote (ref_vote 7 True)) 3 9) [(3, 9), (4, 10), (5, 11)]) open_window = Some s' \<and>
    amount_of (weight_of s' 7) = 30"
proof -
  let ?t = "ref_tx (ActionValidatorVote (ref_vote 7 True)) 3 9"
  have wf: "wf_state open_window"
    by (simp add: wf_state_def) (simp add: wf_balances_def open_window_def)
  have t: "Tx_action ?t = ActionValidatorVote (ref_vote 7 True)" "Vote_Vote (ref_vote 7 True)"
    by (simp_all add: ref_tx_def)
  have "vote_outcome ref_bls ref_warp (Tx_rules ?t) (ref_vote 7 True) (Tx_time ?t) (Tx_actor ?t) open_window = Counted 10"
    using ref_vote_outcome [of open_window 7 50 0 True 3] by (simp add: ref_tx_def)
  from vote_replays_count [where kv = "\<lambda>s. s", OF mem_view.state_view_axioms ref_math.checked_math_axioms wf t this,
      of "[(3, 9), (4, 10), (5, 11)]"]
  show ?thesis by (simp add: amount_of_def)
qed

end
