(* ===== verification/Network.thy ===== *)
theory Network
  imports Node Vote_Counting
begin

text \<open>
  The whole system: one chain and any number of nodes. A block of transactions is executed by
  the chain and accepted by every node; requests reach the listeners of the nodes in between,
  in any order. The votes in blocks are those that nodes have submitted. This theory defines
  the step relation and proves what every reachable state has; the claims are in
  \<open>Network_Claims\<close>.
\<close>

section \<open>Blocks\<close>

text \<open>The results of the transactions of a block are the outcomes of their executions.\<close>

fun run_block ::
  "math64 \<Rightarrow> ('k, 'g, 'sk) bls_lib \<Rightarrow> 'm warp_lib \<Rightarrow> (bytes set \<Rightarrow> 's mutable) \<Rightarrow> ('bf, 'k) transaction list \<Rightarrow>
    's \<Rightarrow> (bool list \<times> 's) go" where
  "run_block A L W M [] s = Some ([], s)"
| "run_block A L W M (t # ts) s =
    do { (res, s) \<leftarrow> run_transaction A L W M t s;
         (oks, s) \<leftarrow> run_block A L W M ts s;
         Some (success res # oks, s) }"

lemma run_block_append:
  "run_block A L W M (ts @ us) s =
    do { (oks, s) \<leftarrow> run_block A L W M ts s; (oks', s) \<leftarrow> run_block A L W M us s; Some (oks @ oks', s) }"
proof (induction ts arbitrary: s)
  case (Cons t ts)
  then show ?case
    by (cases "run_transaction A L W M t s") (auto split: prod.split simp: bind_assoc case_prod_unfold)
qed (cases "run_block A L W M us s"; auto)

fun ledger_verdicts ::
  "('k, 'g, 'sk) bls_lib \<Rightarrow> 'm warp_lib \<Rightarrow> ('bf, 'k) transaction list \<Rightarrow> ledger \<Rightarrow> bool list" where
  "ledger_verdicts L W [] l = []"
| "ledger_verdicts L W (t # ts) l =
    fst (ledger_tx L W t l) # ledger_verdicts L W ts (snd (ledger_tx L W t l))"

lemma length_ledger_verdicts [simp]: "length (ledger_verdicts L W ts l) = length ts"
  by (induction ts arbitrary: l) simp_all

lemma ledger_verdicts_append:
  "ledger_verdicts L W (ts @ us) l = ledger_verdicts L W ts l @ ledger_verdicts L W us (ledger_run L W ts l)"
  by (induction ts arbitrary: l) simp_all

lemma ledger_run_append: "ledger_run L W (ts @ us) l = ledger_run L W us (ledger_run L W ts l)"
  by (simp add: ledger_run_def)

lemma run_block_simulates:
  assumes "\<And>keys. state_view (M keys) kv keys" "checked_math A"
    and "\<forall>t \<in> set ts. image_fits (Tx_action t)" "wf_state (kv s)"
  shows "\<exists>s'. run_block A L W M ts s = Some (ledger_verdicts L W ts (ledger_of (kv s)), s') \<and> wf_state (kv s') \<and>
    ledger_of (kv s') = ledger_run L W ts (ledger_of (kv s))"
  using assms(3,4)
proof (induction ts arbitrary: s)
  case (Cons t ts)
  obtain res s1 where s1: "run_transaction A L W M t s = Some (res, s1)" "wf_state (kv s1)"
    "(success res, ledger_of (kv s1)) = ledger_tx L W t (ledger_of (kv s))"
    using transaction_simulates [OF assms(1,2) Cons.prems(2)] Cons.prems(1) by (metis list.set_intros(1))
  from s1(3) have "fst (ledger_tx L W t (ledger_of (kv s))) = success res"
    "snd (ledger_tx L W t (ledger_of (kv s))) = ledger_of (kv s1)"
    by (simp_all add: prod_eq_iff)
  with Cons.IH [of s1] Cons.prems(1) s1(1,2) show ?case by auto
qed simp

section \<open>The step relation\<close>

text \<open>
  The environment: each node has its own; \<open>NX_action\<close> and \<open>NX_actor\<close> read a signed transaction,
  \<open>NX_subs\<close> lists what a VM was given. The state: the chain, the nodes, and, as a record of the
  past, the transactions that were executed and the requests that were served, with the node.
\<close>

record ('r, 'b, 'd, 'w, 'g, 'sk2, 'm, 'bf, 'k, 'sk, 'x, 'v, 's) net_env =
  NX_node :: "nat \<Rightarrow> ('r, 'b, 'd, 'w, 'g, 'sk2, 'm, 'bf, 'k, 'sk, 'x, 'v) node_env"
  NX_math :: math64
  NX_bls :: "('k, 'g, 'sk2) bls_lib"
  NX_warp :: "'m warp_lib"
  NX_view :: "bytes set \<Rightarrow> 's mutable"
  NX_action :: "'x \<Rightarrow> action"
  NX_actor :: "'x \<Rightarrow> address"
  NX_subs :: "'v \<Rightarrow> 'x list"

record ('f, 'bf, 'k, 'sk, 'd, 'w, 'v, 's) network =
  Net_chain :: 's
  Net_nodes :: "('f, 'bf, 'k, 'sk, 'd, 'w, 'v) node list"
  Net_txs :: "('bf, 'k) transaction list"
  Net_log :: "(nat \<times> node_event) list"

fun is_vote :: "action \<Rightarrow> bool" where
  "is_vote (ActionValidatorVote v) = True"
| "is_vote a = False"

definition block_of :: "i64 \<Rightarrow> ('bf, 'k) transaction list \<Rightarrow> tx_result list \<Rightarrow> block" where
  "block_of time ts rs = \<lparr>Block_Txs = map (\<lambda>t. \<lparr>BlockTx_ID = Tx_id t, BlockTx_Action = Tx_action t\<rparr>) ts,
    Block_Results = rs, Block_Timestamp = time\<rparr>"

text \<open>A vote in a block is one that a node has submitted.\<close>

definition submitted ::
  "('r, 'b, 'd, 'w, 'g, 'sk2, 'm, 'bf, 'k, 'sk, 'x, 'v, 's) net_env \<Rightarrow> ('f, 'bf, 'k, 'sk, 'd, 'w, 'v, 's) network \<Rightarrow>
    ('bf, 'k) transaction \<Rightarrow> bool" where
  "submitted X S t \<longleftrightarrow> (\<exists>n \<in> set (Net_nodes S). \<exists>x \<in> set (NX_subs X (Node_vm n)).
    Tx_action t = NX_action X x \<and> Tx_actor t = NX_actor X x)"

definition valid_block ::
  "('r, 'b, 'd, 'w, 'g, 'sk2, 'm, 'bf, 'k, 'sk, 'x, 'v, 's) net_env \<Rightarrow> ('f, 'bf, 'k, 'sk, 'd, 'w, 'v, 's) network \<Rightarrow>
    i64 \<Rightarrow> ('bf, 'k) transaction list \<Rightarrow> bool" where
  "valid_block X S time ts \<longleftrightarrow> (\<forall>t \<in> set ts. Tx_time t = time \<and> image_fits (Tx_action t) \<and>
    (is_vote (Tx_action t) \<longrightarrow> submitted X S t))"

inductive net_step ::
  "('r, 'b, 'd, 'w, 'g, 'sk2, 'm, 'bf, 'k, 'sk, 'x, 'v, 's) net_env \<Rightarrow>
    ('f, 'bf, 'k, 'sk, 'd, 'w, 'v, 's) network \<Rightarrow> ('f, 'bf, 'k, 'sk, 'd, 'w, 'v, 's) network \<Rightarrow> bool"
  for X where
  request: "net_step X S (S\<lparr>Net_nodes := (Net_nodes S)[k := n], Net_log := Net_log S @ [(k, e)]\<rparr>)"
  if "k < length (Net_nodes S)" "\<not> is_block e" "node_step (NX_node X k) e (Net_nodes S ! k) = Some n"
| accept: "net_step X S (S\<lparr>Net_chain := s, Net_nodes := ns, Net_txs := Net_txs S @ ts\<rparr>)"
  if "valid_block X S time ts"
    "run_block (NX_math X) (NX_bls X) (NX_warp X) (NX_view X) ts (Net_chain S) = Some (oks, s)"
    "map Result_Success rs = oks" "\<forall>r \<in> set rs. length (Result_Consumed r) = 5" "length ns = length (Net_nodes S)"
    "\<And>k. k < length ns \<Longrightarrow> node_step (NX_node X k) (BlockAccepted (block_of time ts rs)) (Net_nodes S ! k) = Some (ns ! k)"

inductive_cases net_stepE: "net_step X S S'"

abbreviation reachable ::
  "('r, 'b, 'd, 'w, 'g, 'sk2, 'm, 'bf, 'k, 'sk, 'x, 'v, 's) net_env \<Rightarrow>
    ('f, 'bf, 'k, 'sk, 'd, 'w, 'v, 's) network \<Rightarrow> ('f, 'bf, 'k, 'sk, 'd, 'w, 'v, 's) network \<Rightarrow> bool" where
  "reachable X \<equiv> rtranclp (net_step X)"

definition events_of :: "nat \<Rightarrow> (nat \<times> node_event) list \<Rightarrow> node_event list" where
  "events_of k log = map snd (filter (\<lambda>(j, e). j = k) log)"

lemma events_of_simps [simp]:
  "events_of k [] = []" "events_of k (log @ [(j, e)]) = events_of k log @ (if j = k then [e] else [])"
  by (simp_all add: events_of_def)

lemma node_vote_append [intro]:
  "node_vote L E t es x \<Longrightarrow> node_vote L E t (es @ fs) x" "node_vote L E t fs x \<Longrightarrow> node_vote L E t (es @ fs) x"
  by (auto elim: node_vote_mono)

text \<open>A start: nothing executed, nothing served, nothing submitted.\<close>

definition net_start ::
  "('r, 'b, 'd, 'w, 'g, 'sk2, 'm, 'bf, 'k, 'sk, 'x, 'v, 's) net_env \<Rightarrow>
    ('f, 'bf, 'k, 'sk, 'd, 'w, 'v, 's) network \<Rightarrow> bool" where
  "net_start X S \<longleftrightarrow> Net_txs S = [] \<and> Net_log S = [] \<and> (\<forall>n \<in> set (Net_nodes S). NX_subs X (Node_vm n) = [])"

section \<open>The contract of the environment\<close>

text \<open>
  What is asked of the packages: the view of the state, the checked arithmetic, one BLS
  library for all; a VM keeps what it is given; a signed transaction carries its action and
  the address of the factory that signed it.
\<close>

locale net_contract =
  fixes X :: "('r, 'b, 'd, 'w, 'g, 'sk2, 'm, 'bf, 'k, 'sk, 'x, 'v, 's) net_env"
    and kv :: "'s \<Rightarrow> (bytes \<rightharpoonup> bytes)" and signer_of :: "'sk ed25519_factory \<Rightarrow> address"
  assumes view: "state_view (NX_view X keys) kv keys"
    and math: "checked_math (NX_math X)"
    and vm: "vm_view (NE_trustless (NX_node X k)) (NE_applied (NX_node X k)) (NX_subs X)"
    and one_bls: "NE_bls (NX_node X k) = NX_bls X"
    and signed: "SignTx (NE_trustless (NX_node X k)) ts chain fee a f = Inr x \<Longrightarrow>
      NX_action X x = a \<and> NX_actor X x = signer_of f"
begin

section \<open>The invariants\<close>

text \<open>
  The nodes keep their keys, and every vote they submitted stands for a request that was
  served; the chain is where its transactions lead; a vote among them is one of a node.
\<close>

definition nodes_inv :: "('f, 'bf, 'k, 'sk, 'd, 'w, 'v, 's) network \<Rightarrow> ('f, 'bf, 'k, 'sk, 'd, 'w, 'v, 's) network \<Rightarrow> bool" where
  "nodes_inv S0 S \<longleftrightarrow> length (Net_nodes S) = length (Net_nodes S0) \<and>
    (\<forall>k < length (Net_nodes S).
      same_keys (Ctl_trustless (Node_ctl (Net_nodes S0 ! k))) (Ctl_trustless (Node_ctl (Net_nodes S ! k))) \<and>
      (\<forall>x \<in> set (NX_subs X (Node_vm (Net_nodes S ! k))). node_vote (NX_bls X) (NE_trustless (NX_node X k))
        (Ctl_trustless (Node_ctl (Net_nodes S0 ! k))) (events_of k (Net_log S)) x))"

definition chain_inv :: "('f, 'bf, 'k, 'sk, 'd, 'w, 'v, 's) network \<Rightarrow> ('f, 'bf, 'k, 'sk, 'd, 'w, 'v, 's) network \<Rightarrow> bool" where
  "chain_inv S0 S \<longleftrightarrow> wf_state (kv (Net_chain S)) \<and>
    ledger_of (kv (Net_chain S)) = ledger_run (NX_bls X) (NX_warp X) (Net_txs S) (ledger_of (kv (Net_chain S0))) \<and>
    (\<forall>t \<in> set (Net_txs S). is_vote (Tx_action t) \<longrightarrow> (\<exists>k < length (Net_nodes S0). \<exists>x.
      node_vote (NX_bls X) (NE_trustless (NX_node X k)) (Ctl_trustless (Node_ctl (Net_nodes S0 ! k)))
        (events_of k (Net_log S)) x \<and>
      Tx_action t = NX_action X x \<and> Tx_actor t = NX_actor X x))"

lemma same_keys_trans: "same_keys t t' \<Longrightarrow> same_keys t' t'' \<Longrightarrow> same_keys t t''"
  by (simp add: same_keys_def)

lemma node_step_keeps:
  assumes "node_step (NX_node X k) e n = Some n'"
  obtains xs where "same_keys (Ctl_trustless (Node_ctl n)) (Ctl_trustless (Node_ctl n'))"
    "NX_subs X (Node_vm n') = NX_subs X (Node_vm n) @ xs"
    "\<forall>x \<in> set xs. node_vote (NX_bls X) (NE_trustless (NX_node X k)) (Ctl_trustless (Node_ctl n)) [e] x"
  using node_step_submits [OF vm assms] that by (auto simp: one_bls)

lemma no_vote_of_block: "\<not> node_vote L E t [BlockAccepted blk] x"
  by (simp add: node_vote_def)

lemma nodes_inv_start: "net_start X S \<Longrightarrow> nodes_inv S S"
  by (auto simp: nodes_inv_def net_start_def same_keys_def)

lemma nodes_inv_step:
  assumes "net_step X S S'" "nodes_inv S0 S"
  shows "nodes_inv S0 S'"
  using assms(1)
proof cases
  case (request k e n)
  obtain xs where n: "same_keys (Ctl_trustless (Node_ctl (Net_nodes S ! k))) (Ctl_trustless (Node_ctl n))"
    "NX_subs X (Node_vm n) = NX_subs X (Node_vm (Net_nodes S ! k)) @ xs"
    "\<forall>x \<in> set xs. node_vote (NX_bls X) (NE_trustless (NX_node X k)) (Ctl_trustless (Node_ctl (Net_nodes S ! k))) [e] x"
    by (rule node_step_keeps [OF request(4)])
  have keys: "same_keys (Ctl_trustless (Node_ctl (Net_nodes S0 ! k))) (Ctl_trustless (Node_ctl (Net_nodes S ! k)))"
    using assms(2) request(2) by (simp add: nodes_inv_def)
  show ?thesis
    using assms(2) request(1,2) n same_keys_trans [OF keys n(1)]
    by (auto simp: nodes_inv_def nth_list_update node_vote_same_keys [OF keys])
next
  case (accept time ts oks s rs ns)
  have "same_keys (Ctl_trustless (Node_ctl (Net_nodes S ! k))) (Ctl_trustless (Node_ctl (ns ! k))) \<and>
      NX_subs X (Node_vm (ns ! k)) = NX_subs X (Node_vm (Net_nodes S ! k))" if "k < length ns" for k
    by (rule node_step_keeps [OF accept(7) [OF that]])
      (use no_vote_of_block in \<open>metis append_Nil2 last_in_set\<close>)
  then show ?thesis
    using assms(2) accept(1,6) by (auto simp: nodes_inv_def same_keys_def)
qed

lemma chain_inv_start: "net_start X S \<Longrightarrow> wf_state (kv (Net_chain S)) \<Longrightarrow> chain_inv S S"
  by (simp add: chain_inv_def net_start_def)

lemma chain_inv_step:
  assumes "net_step X S S'" "nodes_inv S0 S" "chain_inv S0 S"
  shows "chain_inv S0 S'"
  using assms(1)
proof cases
  case (request k e n)
  then show ?thesis
    using assms(3) unfolding chain_inv_def by (fastforce split: if_split)
next
  case (accept time ts oks s rs ns)
  have "\<forall>t \<in> set ts. image_fits (Tx_action t)"
    using accept(2) by (simp add: valid_block_def)
  from run_block_simulates [where L = "NX_bls X" and W = "NX_warp X", OF view math this, of "Net_chain S"] accept(3) assms(3)
  have "wf_state (kv s)" "ledger_of (kv s) = ledger_run (NX_bls X) (NX_warp X) ts (ledger_of (kv (Net_chain S)))"
    by (auto simp: chain_inv_def)
  moreover have "\<exists>k < length (Net_nodes S0). \<exists>x.
      node_vote (NX_bls X) (NE_trustless (NX_node X k)) (Ctl_trustless (Node_ctl (Net_nodes S0 ! k)))
        (events_of k (Net_log S)) x \<and>
      Tx_action t = NX_action X x \<and> Tx_actor t = NX_actor X x" if "t \<in> set ts" "is_vote (Tx_action t)" for t
  proof -
    from that accept(2) obtain n x where n: "n \<in> set (Net_nodes S)" "x \<in> set (NX_subs X (Node_vm n))"
      and x: "Tx_action t = NX_action X x" "Tx_actor t = NX_actor X x"
      by (auto simp: valid_block_def submitted_def)
    then obtain k where k: "k < length (Net_nodes S)" "x \<in> set (NX_subs X (Node_vm (Net_nodes S ! k)))"
      unfolding in_set_conv_nth [of n] by blast
    have "k < length (Net_nodes S0) \<and> node_vote (NX_bls X) (NE_trustless (NX_node X k))
        (Ctl_trustless (Node_ctl (Net_nodes S0 ! k))) (events_of k (Net_log S)) x"
      using assms(2) k by (simp add: nodes_inv_def)
    with x show ?thesis by blast
  qed
  ultimately show ?thesis
    using assms(3) accept(1) by (auto simp: chain_inv_def ledger_run_append)
qed

lemma reachable_inv:
  assumes "reachable X S0 S" "net_start X S0" "wf_state (kv (Net_chain S0))"
  shows "nodes_inv S0 S \<and> chain_inv S0 S"
  using assms(1)
proof (induction rule: rtranclp_induct)
  case base
  then show ?case
    using assms(2,3) by (simp add: nodes_inv_start chain_inv_start)
next
  case (step S S')
  then show ?case
    using nodes_inv_step chain_inv_step by blast
qed

end

end
