(* ===== verification/Network_Claims.thy ===== *)
theory Network_Claims
  imports Network
begin

text \<open>
  What holds of the whole system, of the model of \<open>Network\<close>: where the weights of a
  verification come from, that no part of the system can be stuck, and that the clients of
  any node learn the verdicts of the abstract ledger.
\<close>

section \<open>Where the weights come from\<close>

text \<open>
  A node was told yes for \<open>i\<close>: a result that says so was posted to its listener (one whose
  identifier does not parse counts for the zero identifier). \<open>key_weight\<close> is the weight of the
  validator that is found for a key.
\<close>

definition told_yes ::
  "('bf, 'k, 'm, 'sk, 'x, 'v) trustless_env \<Rightarrow> node_event list \<Rightarrow> ID \<Rightarrow> bool" where
  "told_yes E es i \<longleftrightarrow> (\<exists>body now1 now2 req. RequestArrived ''/submit-result'' ''POST'' body now1 now2 \<in> set es \<and>
    DecodeSubmitResult E body = Inr req \<and> SubmitResult_IsValid req \<and>
    i = (case IDFromString E (SubmitResult_TxID req) of Inl _ \<Rightarrow> 0 | Inr i \<Rightarrow> i))"

definition key_weight :: "('k, 'g, 'sk) bls_lib \<Rightarrow> 'k validator list \<Rightarrow> 'k \<Rightarrow> u64" where
  "key_weight L vals k = (case Bls_PublicKeyFromBytes L (Bls_PublicKeyToBytes L k) of
     Inl _ \<Rightarrow> 0
   | Inr pk \<Rightarrow> (case matching pk vals of [vdr] \<Rightarrow> Validator_Weight vdr | _ \<Rightarrow> 0))"

lemma node_vote_yes:
  assumes "node_vote L E t es x" "\<And>ts chain fee a f. SignTx E ts chain fee a f = Inr x \<Longrightarrow> act = a \<and> who = signer f"
    and "act = ActionValidatorVote v" "Vote_Vote v"
  shows "told_yes E es (Vote_TxID v)" "Vote_PublicKey v = Bls_PublicKeyToBytes L (Trustless_publicKey t)"
    "who = signer (Trustless_authFactory t)"
proof -
  obtain u body now1 now2 ts chain fee where u: "RequestArrived ''/submit-result'' ''POST'' body now1 now2 \<in> set es"
    "vote_for L E (Trustless_publicKey t) body u"
    "SignTx E ts chain fee (ActionValidatorVote u) (Trustless_authFactory t) = Inr x"
    using assms(1) unfolding node_vote_def by blast
  from assms(2) [OF u(3)] assms(3) have "u = v" "who = signer (Trustless_authFactory t)"
    by simp_all
  with u assms(4) show "told_yes E es (Vote_TxID v)" "Vote_PublicKey v = Bls_PublicKeyToBytes L (Trustless_publicKey t)"
    "who = signer (Trustless_authFactory t)"
    unfolding told_yes_def vote_for_def by auto
qed

text \<open>
  From a list of entries with different owners to a set: each entry has a source of the same
  owner and weight, so the entries are the sources of some set.
\<close>

lemma sources_of_entries:
  assumes "distinct (map owner xs)"
    and "\<And>x. x \<in> set xs \<Longrightarrow> \<exists>k. P k \<and> owner' k = owner x \<and> (weight' k :: u64) = weight x"
  shows "\<exists>K. finite K \<and> K \<subseteq> {k. P k} \<and> owner' ` K = owner ` set xs \<and> (K = {} \<longleftrightarrow> xs = []) \<and>
    sum weight' K = sum_list (map weight xs)"
  using assms
proof (induction xs)
  case (Cons x xs)
  then obtain K where K: "finite K" "K \<subseteq> {k. P k}" "owner' ` K = owner ` set xs" "K = {} \<longleftrightarrow> xs = []"
    "sum weight' K = sum_list (map weight xs)"
    by auto
  obtain k where k: "P k" "owner' k = owner x" "weight' k = weight x"
    using Cons.prems(2) [of x] by auto
  have "owner' k \<notin> owner' ` K"
    using k(2) Cons.prems(1) unfolding K(3) by simp
  then have "k \<notin> K" by blast
  with K k show ?case
    by (intro exI [of _ "insert k K"]) auto
qed auto

context net_contract
begin

lemma yes_vote_source:
  assumes inv: "chain_inv S0 S" and vals: "\<forall>t \<in> set (Net_txs S). fst (Rules_f (Tx_rules t) ()) = vals"
    and c: "(v, a, w) \<in> set (yes_votes i (counted_votes (NX_bls X) (NX_warp X) (Net_txs S) l))"
  shows "\<exists>k. k < length (Net_nodes S0) \<and> told_yes (NE_trustless (NX_node X k)) (events_of k (Net_log S)) i \<and>
    signer_of (Trustless_authFactory (Ctl_trustless (Node_ctl (Net_nodes S0 ! k)))) = a \<and>
    key_weight (NX_bls X) vals (Trustless_publicKey (Ctl_trustless (Node_ctl (Net_nodes S0 ! k)))) = w"
proof -
  have v: "(v, a, w) \<in> set (counted_votes (NX_bls X) (NX_warp X) (Net_txs S) l)" "Vote_TxID v = i" "Vote_Vote v"
    using c by (auto simp: yes_votes_def)
  obtain t pk vdr where t: "t \<in> set (Net_txs S)" "Tx_action t = ActionValidatorVote v" "Tx_actor t = a"
    and pk: "Bls_PublicKeyFromBytes (NX_bls X) (Vote_PublicKey v) = Inr pk"
      "matching pk (fst (Rules_f (Tx_rules t) ())) = [vdr]" "w = Validator_Weight vdr"
    using counted_votes_from [OF v(1)] by blast
  obtain k x where k: "k < length (Net_nodes S0)" and nv: "node_vote (NX_bls X) (NE_trustless (NX_node X k))
        (Ctl_trustless (Node_ctl (Net_nodes S0 ! k))) (events_of k (Net_log S)) x"
    and x: "Tx_action t = NX_action X x" "Tx_actor t = NX_actor X x"
    using inv t(1,2) unfolding chain_inv_def by fastforce
  note yes = node_vote_yes [OF nv, where act = "NX_action X x" and who = "NX_actor X x" and signer = signer_of,
      OF signed _ v(3)]
  have "told_yes (NE_trustless (NX_node X k)) (events_of k (Net_log S)) i"
    using yes(1) x t v(2) by simp
  moreover have "signer_of (Trustless_authFactory (Ctl_trustless (Node_ctl (Net_nodes S0 ! k)))) = a"
    using yes(3) x t by simp
  moreover have "key_weight (NX_bls X) vals (Trustless_publicKey (Ctl_trustless (Node_ctl (Net_nodes S0 ! k)))) = w"
    using yes(2) x t pk vals by (simp add: key_weight_def)
  ultimately show ?thesis
    using k by blast
qed

lemma weight_from_nodes:
  assumes "chain_inv S0 S" "\<forall>t \<in> set (Net_txs S). fst (Rules_f (Tx_rules t) ()) = vals"
    and "weight_of (kv (Net_chain S0)) i = None"
  shows "\<exists>K. K \<subseteq> {k. k < length (Net_nodes S0) \<and> told_yes (NE_trustless (NX_node X k)) (events_of k (Net_log S)) i} \<and>
    weight_of (kv (Net_chain S)) i = (if K = {} then None else Some (\<Sum>k \<in> K.
      key_weight (NX_bls X) vals (Trustless_publicKey (Ctl_trustless (Node_ctl (Net_nodes S0 ! k))))))"
proof -
  let ?cs = "counted_votes (NX_bls X) (NX_warp X) (Net_txs S) (ledger_of (kv (Net_chain S0)))"
  let ?ys = "yes_votes i ?cs"
  have "distinct (map voter_of ?ys)"
    using counted_votes_distinct [of "NX_bls X" "NX_warp X" "Net_txs S" "ledger_of (kv (Net_chain S0))"]
    unfolding yes_votes_def by (blast intro: distinct_map_filter)
  moreover have "map voter_of ?ys = map (Pair i) (map (\<lambda>(v, a, w). a) ?ys)"
    by (auto simp: yes_votes_def voter_of_def)
  ultimately have "distinct (map (\<lambda>(v, a, w). a) ?ys)"
    using distinct_map [of "Pair i" "map (\<lambda>(v, a, w). a) ?ys"] by (simp only:)
  moreover have "\<exists>k. (k < length (Net_nodes S0) \<and> told_yes (NE_trustless (NX_node X k)) (events_of k (Net_log S)) i) \<and>
      signer_of (Trustless_authFactory (Ctl_trustless (Node_ctl (Net_nodes S0 ! k)))) = (case x of (v, a, w) \<Rightarrow> a) \<and>
      key_weight (NX_bls X) vals (Trustless_publicKey (Ctl_trustless (Node_ctl (Net_nodes S0 ! k)))) =
        (case x of (v, a, w) \<Rightarrow> w)" if "x \<in> set ?ys" for x
  proof -
    obtain v a w where x: "x = (v, a, w)" by (rule prod_cases3)
    show ?thesis
      using yes_vote_source [OF assms(1,2) that [unfolded x]] by (simp add: x)
  qed
  ultimately obtain K where
    K: "K \<subseteq> {k. k < length (Net_nodes S0) \<and> told_yes (NE_trustless (NX_node X k)) (events_of k (Net_log S)) i}"
    "K = {} \<longleftrightarrow> ?ys = []" "(\<Sum>k \<in> K. key_weight (NX_bls X) vals
      (Trustless_publicKey (Ctl_trustless (Node_ctl (Net_nodes S0 ! k))))) = weight_sum ?ys"
    unfolding weight_sum_def by (rule sources_of_entries [THEN exE]) blast+
  have "weight_of (kv (Net_chain S)) i = add_votes ?ys (weight_of (kv (Net_chain S0)) i)"
    using assms(1) weights_are_sums [of "NX_bls X" "NX_warp X" "Net_txs S" "ledger_of (kv (Net_chain S0))" i]
    by (simp add: chain_inv_def flip: ledger_of_sel(3))
  with K assms(3) show ?thesis
    by (intro exI [of _ K]) (simp add: add_votes_def amount_of_def)
qed

end

section \<open>The records of a node\<close>

definition recorded ::
  "fees_lib \<Rightarrow> ('b, 'd) meta_db \<Rightarrow> ('f, 'bf, 'k, 'sk, 'd) controller \<Rightarrow> ID \<Rightarrow> i64 \<Rightarrow> bool \<Rightarrow> bool" where
  "recorded F D c i time ok \<longleftrightarrow>
    (\<exists>un fee. Controller_GetTransaction F D c i = Some (True, time, ok, un, fee, None))"

text \<open>A database whose writes do not fail, which is what a node needs to go on.\<close>

locale reliable_node = accepting F D pending content
  for F and D :: "('b, 'd) meta_db" and pending content +
  assumes put_ok: "fst (Batch_Put D b k v) = None" and write_ok: "fst (Batch_Write D b d) = None"
begin

lemma loop_no_error:
  assumes "Accepted_loop H J X F D time results i txs c wb w = Some (err, c', wb', w')"
  shows "err = None"
  using assms
proof (induction txs arbitrary: i c wb w)
  case (Cons tx txs)
  obtain t1 w1 where a: "accept_action H J X (BlockTx_ID tx) (Ctl_fileDB c) (Client (Ctl_config c))
      (BlockTx_Action tx) (Ctl_trustless c) w = (t1, w1)"
    by (rule prod.exhaust)
  obtain r where r: "index results i = Some r"
    using Cons.prems by (auto simp: bind_eq_Some_conv)
  obtain e wb1 where put: "(if Config_GetStoreTransactions (Ctl_config c)
      then StoreTransaction F (Batch_Put D) wb (BlockTx_ID tx) time (Result_Success r) (Result_Consumed r) (Result_Fee r)
      else (None, wb)) = (e, wb1)"
    by (rule prod.exhaust)
  have "e = None"
    using put put_ok by (auto simp: StoreTransaction_eq split: if_splits) (metis fst_conv)+
  then show ?case
    using Cons.prems a r put by (auto simp: Let_def dest: Cons.IH)
qed simp

lemma Accepted_no_error:
  assumes "Controller_Accepted H J X F D blk c w = Some (err, c', w')"
  shows "err = None"
  using assms write_ok
  by (auto simp: Controller_Accepted_def bind_eq_Some_conv Let_def split: prod.splits if_splits dest: loop_no_error)
     (metis fst_conv option.discI)

lemma Accepted_config:
  assumes "Controller_Accepted H J X F D blk c w = Some (err, c', w')"
  shows "Ctl_config c' = Ctl_config c"
  using Accepted_effects [OF assms] by auto

text \<open>The records that a node has after a block: those it had, and those of the block.\<close>

lemma block_recorded:
  assumes "Controller_Accepted H J X F D (block_of time ts rs) c w = Some (err, c', w')"
    and "StoreTransactions (Ctl_config c)" "distinct (map Tx_id ts)"
    and "\<forall>r \<in> set rs. length (Result_Consumed r) = 5"
  shows "\<forall>j < length ts. recorded F D c' (Tx_id (ts ! j)) time (map Result_Success rs ! j)"
    and "i \<notin> Tx_id ` set ts \<Longrightarrow> recorded F D c' i t0 ok = recorded F D c i t0 ok"
proof -
  have run: "Controller_Accepted H J X F D (block_of time ts rs) c w = Some (None, c', w')"
    using assms(1) Accepted_no_error [OF assms(1)] by simp
  have ids: "map BlockTx_ID (Block_Txs (block_of time ts rs)) = map Tx_id ts"
    by (simp add: block_of_def)
  have len: "length ts \<le> length rs"
    using Accepted_effects [OF run] by (auto simp: block_of_def)
  note rec = records_of_block [OF fees_spec_axioms meta_db_spec_axioms run assms(2)]
  have "(\<forall>j < length ts. Controller_GetTransaction F D c' (Tx_id (ts ! j)) =
      Some (True, time, Result_Success (rs ! j), Result_Consumed (rs ! j), Result_Fee (rs ! j), None)) \<and>
    (\<forall>j. j \<notin> Tx_id ` set ts \<longrightarrow> Controller_GetTransaction F D c' j = Controller_GetTransaction F D c j)"
    using rec assms(3,4) unfolding ids by (simp add: block_of_def image_image)
  then show "\<forall>j < length ts. recorded F D c' (Tx_id (ts ! j)) time (map Result_Success rs ! j)"
    "i \<notin> Tx_id ` set ts \<Longrightarrow> recorded F D c' i t0 ok = recorded F D c i t0 ok"
    using len by (auto simp: recorded_def)
qed

end

interpretation ref_reliable: reliable_node ref_fees ref_db "\<lambda>b. b" "\<lambda>d. d"
  by unfold_locales (simp_all add: ref_db_def)

text \<open>The verdicts of the ledger on what was executed, and that a node has a record of each.\<close>

definition verdicts ::
  "('r, 'b, 'd, 'w, 'g, 'sk2, 'm, 'bf, 'k, 'sk, 'x, 'v, 's) net_env \<Rightarrow> ('s \<Rightarrow> (bytes \<rightharpoonup> bytes)) \<Rightarrow>
    ('f, 'bf, 'k, 'sk, 'd, 'w, 'v, 's) network \<Rightarrow> ('f, 'bf, 'k, 'sk, 'd, 'w, 'v, 's) network \<Rightarrow> bool list" where
  "verdicts X kv S0 S = ledger_verdicts (NX_bls X) (NX_warp X) (Net_txs S) (ledger_of (kv (Net_chain S0)))"

definition node_records ::
  "('r, 'b, 'd, 'w, 'g, 'sk2, 'm, 'bf, 'k, 'sk, 'x, 'v, 's) net_env \<Rightarrow> ('s \<Rightarrow> (bytes \<rightharpoonup> bytes)) \<Rightarrow> nat \<Rightarrow>
    ('f, 'bf, 'k, 'sk, 'd, 'w, 'v, 's) network \<Rightarrow> ('f, 'bf, 'k, 'sk, 'd, 'w, 'v, 's) network \<Rightarrow> bool" where
  "node_records X kv k S0 S \<longleftrightarrow> StoreTransactions (Ctl_config (Node_ctl (Net_nodes S ! k))) \<and>
    (\<forall>j < length (Net_txs S). recorded (NE_fees (NX_node X k)) (NE_db (NX_node X k)) (Node_ctl (Net_nodes S ! k))
      (Tx_id (Net_txs S ! j)) (Tx_time (Net_txs S ! j)) (verdicts X kv S0 S ! j))"

context net_contract
begin

lemma node_records_step:
  assumes "net_step X S S'" "k < length (Net_nodes S)" "chain_inv S0 S" "distinct (map Tx_id (Net_txs S'))"
    and node: "reliable_node (NE_fees (NX_node X k)) (NE_db (NX_node X k)) pending content"
    and "node_records X kv k S0 S"
  shows "node_records X kv k S0 S'"
  using assms(1)
proof cases
  case (request j e n)
  have "Ctl_config (Node_ctl n) = Ctl_config (Node_ctl (Net_nodes S ! j)) \<and>
      Ctl_metaDB (Node_ctl n) = Ctl_metaDB (Node_ctl (Net_nodes S ! j))"
    using request(3,4) by (cases e) (auto simp: bind_eq_Some_conv)
  then show ?thesis
    using assms(6) request(1,2)
    by (simp add: node_records_def verdicts_def recorded_def Controller_GetTransaction_def nth_list_update)
next
  case (accept time ts oks s rs ns)
  have k: "k < length ns" using accept(6) assms(2) by simp
  have "\<forall>t \<in> set ts. image_fits (Tx_action t)" and time: "\<forall>t \<in> set ts. Tx_time t = time"
    using accept(2) by (simp_all add: valid_block_def)
  from run_block_simulates [where L = "NX_bls X" and W = "NX_warp X", OF view math this(1), of "Net_chain S"] accept(3) assms(3)
  have oks: "map Result_Success rs = ledger_verdicts (NX_bls X) (NX_warp X) ts
      (ledger_run (NX_bls X) (NX_warp X) (Net_txs S) (ledger_of (kv (Net_chain S0))))"
    by (auto simp: chain_inv_def accept(4))
  obtain err c w where run: "Controller_Accepted (NE_http (NX_node X k)) (NE_json (NX_node X k)) (NE_text (NX_node X k))
      (NE_fees (NX_node X k)) (NE_db (NX_node X k)) (block_of time ts rs) (Node_ctl (Net_nodes S ! k)) (Node_net (Net_nodes S ! k)) =
      Some (err, c, w)" and ns: "Node_ctl (ns ! k) = c"
    using accept(7) [OF k] by (auto simp: bind_eq_Some_conv dest!: sym [of _ "ns ! k"])
  have store: "StoreTransactions (Ctl_config (Node_ctl (Net_nodes S ! k)))"
    using assms(6) by (simp add: node_records_def)
  have ids: "distinct (map Tx_id ts)" "Tx_id ` set (Net_txs S) \<inter> Tx_id ` set ts = {}"
    using assms(4) accept(1) by auto
  note rec = reliable_node.block_recorded [OF node run store ids(1) accept(5)]
  have verd: "verdicts X kv S0 S' = verdicts X kv S0 S @ map Result_Success rs"
    by (simp add: verdicts_def accept(1) ledger_verdicts_append oks)
  have txs: "Net_txs S' = Net_txs S @ ts" and len: "length (verdicts X kv S0 S) = length (Net_txs S)"
    by (simp_all add: accept(1) verdicts_def)
  have "recorded (NE_fees (NX_node X k)) (NE_db (NX_node X k)) c
      (Tx_id (Net_txs S' ! j)) (Tx_time (Net_txs S' ! j)) (verdicts X kv S0 S' ! j)" if "j < length (Net_txs S')" for j
  proof (cases "j < length (Net_txs S)")
    case True
    then have "Tx_id (Net_txs S ! j) \<notin> Tx_id ` set ts"
      using ids(2) nth_mem [OF True] by blast
    with True assms(6) rec(2) show ?thesis
      by (simp add: node_records_def verd txs len nth_append)
  next
    case False
    then have j: "j - length (Net_txs S) < length ts"
      using that txs by auto
    with rec(1) False time show ?thesis
      by (simp add: verd txs len nth_append)
  qed
  then show ?thesis
    using reliable_node.Accepted_config [OF node run] store by (simp add: node_records_def accept(1) ns)
qed

lemma reachable_records:
  assumes "reachable X S0 S" "net_start X S0" "wf_state (kv (Net_chain S0))" "k < length (Net_nodes S0)"
    and "reliable_node (NE_fees (NX_node X k)) (NE_db (NX_node X k)) pending content"
    and "StoreTransactions (Ctl_config (Node_ctl (Net_nodes S0 ! k)))" "distinct (map Tx_id (Net_txs S))"
  shows "node_records X kv k S0 S"
  using assms(1,7)
proof (induction rule: rtranclp_induct)
  case base
  then show ?case
    using assms(2,6) by (simp add: node_records_def net_start_def)
next
  case (step S S')
  have inv: "nodes_inv S0 S" "chain_inv S0 S"
    using reachable_inv [OF step.hyps(1) assms(2,3)] by simp_all
  then have k: "k < length (Net_nodes S)"
    using assms(4) by (simp add: nodes_inv_def)
  have "distinct (map Tx_id (Net_txs S))"
    using step.hyps(2) step.prems by cases simp_all
  from step.IH [OF this] show ?case
    by (rule node_records_step [OF step.hyps(2) k inv(2) step.prems assms(5)])
qed

end

section \<open>Nothing gets stuck\<close>

context accepting
begin

lemma Accepted_returns:
  assumes "length (Block_Txs blk) \<le> length (Block_Results blk)"
  shows "\<exists>err c' w'. Controller_Accepted H J X F D blk c w = Some (err, c', w')"
proof -
  have "\<exists>r. Accepted_loop H J X F D (Block_Timestamp blk) (Block_Results blk) 0 (Block_Txs blk) c
      (NewBatch_db D (Ctl_metaDB c)) w = Some r"
    by (rule loop_returns) (simp add: assms)
  then obtain e c1 wb w1 where "Accepted_loop H J X F D (Block_Timestamp blk) (Block_Results blk) 0 (Block_Txs blk) c
      (NewBatch_db D (Ctl_metaDB c)) w = Some (e, c1, wb, w1)"
    by (auto simp only: split_paired_Ex)
  then show ?thesis
    by (cases e; cases "Batch_Write D wb (Ctl_metaDB c1)") (simp_all add: Controller_Accepted_def)
qed

end

context net_contract
begin

lemma block_step_exists:
  assumes nodes: "\<And>k. k < length (Net_nodes S) \<Longrightarrow> reliable_node (NE_fees (NX_node X k))
      (NE_db (NX_node X k)) (pending k) (content k)"
    and "valid_block X S time ts" "wf_state (kv (Net_chain S))"
  shows "\<exists>oks s. run_block (NX_math X) (NX_bls X) (NX_warp X) (NX_view X) ts (Net_chain S) = Some (oks, s) \<and>
    length oks = length ts \<and>
    (\<forall>rs :: tx_result list. map Result_Success rs = oks \<and> (\<forall>r \<in> set rs. length (Result_Consumed r) = 5) \<longrightarrow>
      (\<exists>ns. length ns = length (Net_nodes S) \<and>
        net_step X S (S\<lparr>Net_chain := s, Net_nodes := ns, Net_txs := Net_txs S @ ts\<rparr>) \<and>
        (\<forall>k < length ns. Node_errs (ns ! k) = Node_errs (Net_nodes S ! k))))"
proof -
  have "\<forall>t \<in> set ts. image_fits (Tx_action t)"
    using assms(2) by (simp add: valid_block_def)
  from run_block_simulates [where L = "NX_bls X" and W = "NX_warp X", OF view math this assms(3)] obtain s where
    run: "run_block (NX_math X) (NX_bls X) (NX_warp X) (NX_view X) ts (Net_chain S) =
      Some (ledger_verdicts (NX_bls X) (NX_warp X) ts (ledger_of (kv (Net_chain S))), s)" by blast
  have "\<exists>ns. length ns = length (Net_nodes S) \<and>
      net_step X S (S\<lparr>Net_chain := s, Net_nodes := ns, Net_txs := Net_txs S @ ts\<rparr>) \<and>
      (\<forall>k < length ns. Node_errs (ns ! k) = Node_errs (Net_nodes S ! k))"
    if rs: "map Result_Success rs = ledger_verdicts (NX_bls X) (NX_warp X) ts (ledger_of (kv (Net_chain S)))"
      "\<forall>r \<in> set rs. length (Result_Consumed r) = 5" for rs :: "tx_result list"
  proof -
    define f where "f k = node_step (NX_node X k) (BlockAccepted (block_of time ts rs)) (Net_nodes S ! k)" for k
    have len: "length ts = length rs"
      using arg_cong [OF rs(1), of length] by simp
    have f: "f k = Some (the (f k)) \<and> Node_errs (the (f k)) = Node_errs (Net_nodes S ! k)" if "k < length (Net_nodes S)" for k
    proof -
      have acc: "accepting (NE_fees (NX_node X k)) (NE_db (NX_node X k)) (pending k) (content k)"
        using nodes [OF that] by (simp add: reliable_node_def)
      have fit: "length (Block_Txs (block_of time ts rs)) \<le> length (Block_Results (block_of time ts rs))"
        by (simp add: block_of_def len)
      obtain err c w where run: "Controller_Accepted (NE_http (NX_node X k)) (NE_json (NX_node X k)) (NE_text (NX_node X k))
          (NE_fees (NX_node X k)) (NE_db (NX_node X k)) (block_of time ts rs) (Node_ctl (Net_nodes S ! k))
          (Node_net (Net_nodes S ! k)) = Some (err, c, w)"
        using accepting.Accepted_returns [OF acc fit, of "NE_http (NX_node X k)" "NE_json (NX_node X k)"
            "NE_text (NX_node X k)" "Node_ctl (Net_nodes S ! k)" "Node_net (Net_nodes S ! k)"] by blast
      then have "err = None"
        by (rule reliable_node.Accepted_no_error [OF nodes [OF that]])
      with run show ?thesis
        by (simp add: f_def)
    qed
    have "net_step X S (S\<lparr>Net_chain := s, Net_nodes := map (\<lambda>k. the (f k)) [0..<length (Net_nodes S)],
        Net_txs := Net_txs S @ ts\<rparr>)"
      by (rule net_step.accept [OF assms(2) run rs]) (use f in \<open>simp_all add: f_def\<close>)
    then show ?thesis
      using f by (intro exI [of _ "map (\<lambda>k. the (f k)) [0..<length (Net_nodes S)]"]) simp
  qed
  with run show ?thesis by auto
qed

lemma request_step_exists:
  assumes "k < length (Net_nodes S)" "\<not> is_block e"
    and "responsive (NE_warp (NX_node X k)) (NE_trustless (NX_node X k))"
  shows "\<exists>n. net_step X S (S\<lparr>Net_nodes := (Net_nodes S)[k := n], Net_log := Net_log S @ [(k, e)]\<rparr>)"
proof -
  obtain path verb body n1 n2 where e: "e = RequestArrived path verb body n1 n2"
    using assms(2) by (cases e) auto
  obtain r where "serve (NE_bls (NX_node X k)) (NE_warp (NX_node X k)) (NE_trustless (NX_node X k)) path verb body n1 n2
      (Ctl_trustless (Node_ctl (Net_nodes S ! k))) (Node_vm (Net_nodes S ! k)) = Some r"
    using responsive.serve_returns [OF assms(3)] by blast
  then have "\<exists>n. node_step (NX_node X k) e (Net_nodes S ! k) = Some n"
    by (simp add: e case_prod_unfold)
  then show ?thesis
    using net_step.request [OF assms(1,2)] by blast
qed

end

section \<open>A reference network\<close>

text \<open>
  One node, whose factory has account 3; transaction 1 has an open window until time 100. A
  result for it is posted to the node, and the vote that the node submits is in the next block.
\<close>

definition ref_net_env ::
  "(bytes, (bytes \<times> bytes) list, bytes \<rightharpoonup> bytes, http_request list \<times> bytes list, nat \<times> 768 word, 384 word, bytes, nat,
    nat \<times> 384 word, byte, action, action list, bytes \<rightharpoonup> bytes) net_env" where
  "ref_net_env = \<lparr>NX_node = (\<lambda>k. ref_node_env), NX_math = ref_math, NX_bls = ref_bls, NX_warp = ref_warp,
    NX_view = mem_view, NX_action = (\<lambda>a. a), NX_actor = (\<lambda>a. 3), NX_subs = (\<lambda>v. v)\<rparr>"

interpretation ref_net: net_contract ref_net_env "\<lambda>s. s" "\<lambda>f. 3"
proof (rule net_contract.intro)
  show "vm_view (NE_trustless (NX_node ref_net_env k)) (NE_applied (NX_node ref_net_env k)) (NX_subs ref_net_env)" for k
    using ref_vm.vm_view_axioms by (simp add: ref_net_env_def ref_node_env_def)
qed (auto simp: ref_net_env_def ref_node_env_def ref_env_def intro: mem_view.state_view_axioms ref_math.checked_math_axioms)

definition ref_window :: "bytes \<rightharpoonup> bytes" where "ref_window = [TimeOutKey 1 \<mapsto> AppendUint64 100]"

definition ref_net ::
  "(nat, nat, nat \<times> 384 word, byte, bytes \<rightharpoonup> bytes, http_request list \<times> bytes list, action list, bytes \<rightharpoonup> bytes) network" where
  "ref_net = \<lparr>Net_chain = ref_window, Net_nodes = [ref_running], Net_txs = [], Net_log = []\<rparr>"

definition ref_post :: node_event where
  "ref_post = RequestArrived ''/submit-result'' ''POST'' [1, 65] 0 0"

lemma ref_window_facts [simp]:
  "wf_state ref_window" "deadline ref_window = [1 \<mapsto> 100]" "weight_of ref_window i = None" "\<not> has_voted ref_window i a"
proof -
  show "wf_state ref_window"
    by (simp add: wf_state_def) (auto simp: ref_window_def wf_balances_def wf_verify_def AppendUint64_def)
qed (auto simp: ref_window_def deadline_def weight_of_def has_voted_def fun_eq_iff AppendUint64_def)

lemma ref_net_start: "net_start ref_net_env ref_net"
  by (simp add: net_start_def ref_net_def ref_running_def ref_net_env_def)

interpretation ref_responsive: responsive ref_warp ref_env
  by unfold_locales (auto simp: ref_env_def ref_warp_def ref_signer_def)

lemma ref_net_nodes:
  "reliable_node (NE_fees (NX_node ref_net_env k)) (NE_db (NX_node ref_net_env k)) (\<lambda>b. b) (\<lambda>d. d)"
  "responsive (NE_warp (NX_node ref_net_env k)) (NE_trustless (NX_node ref_net_env k))"
  using ref_reliable.reliable_node_axioms ref_responsive.responsive_axioms by (simp_all add: ref_net_env_def ref_node_env_def)

text \<open>The state after the request, and the block with the vote.\<close>

lemma ref_posted:
  obtains n where "net_step ref_net_env ref_net (ref_net\<lparr>Net_nodes := [n], Net_log := [(0, ref_post)]\<rparr>)"
    "Node_vm n = [ActionValidatorVote (ref_vote 1 True)]"
proof -
  obtain n where n: "node_step ref_node_env ref_post ref_running = Some n"
    "Node_vm n = [ActionValidatorVote (ref_vote 1 True)]"
    by (simp add: ref_post_def ref_node_env_def ref_running_def serve_def ListenResults_def
      submitResult_def ref_env_def ref_warp_def ref_signer_def bytes_string_def GenerateTransaction_def index_def Let_def
      ref_vote_def ref_controller_def ref_trustless_def ref_bls_def ref_rules_def)
  have "net_step ref_net_env ref_net (ref_net\<lparr>Net_nodes := (Net_nodes ref_net)[0 := n],
      Net_log := Net_log ref_net @ [(0, ref_post)]\<rparr>)"
    by (rule net_step.request) (use n in \<open>simp_all add: ref_net_def ref_net_env_def ref_post_def\<close>)
  then show thesis
    by (intro that [OF _ n(2)]) (simp_all add: ref_net_def)
qed

lemma ref_voted:
  obtains S where "reachable ref_net_env ref_net S" "Net_log S = [(0, ref_post)]"
    "Net_txs S = [ref_tx (ActionValidatorVote (ref_vote 1 True)) 3 9]" "weight_of (Net_chain S) 1 = Some 10"
proof -
  let ?ts = "[ref_tx (ActionValidatorVote (ref_vote 1 True)) 3 9]"
  obtain n where step: "net_step ref_net_env ref_net (ref_net\<lparr>Net_nodes := [n], Net_log := [(0, ref_post)]\<rparr>)"
    and n: "Node_vm n = [ActionValidatorVote (ref_vote 1 True)]"
    by (rule ref_posted)
  let ?S = "ref_net\<lparr>Net_nodes := [n], Net_log := [(0, ref_post)]\<rparr>"
  have valid: "valid_block ref_net_env ?S 50 ?ts"
    using n by (simp add: valid_block_def submitted_def ref_tx_def ref_net_env_def)
  have wf: "wf_state (Net_chain ?S)"
    by (simp add: ref_net_def)
  from ref_net.block_step_exists [where pending = "\<lambda>_ b. b" and content = "\<lambda>_ d. d", OF ref_net_nodes(1) valid wf] obtain oks s where
    oks: "length oks = length ?ts" and ex: "\<forall>rs :: tx_result list. map Result_Success rs = oks \<and> (\<forall>r \<in> set rs. length (Result_Consumed r) = 5) \<longrightarrow>
      (\<exists>ns. length ns = length (Net_nodes ?S) \<and> net_step ref_net_env ?S (?S\<lparr>Net_chain := s, Net_nodes := ns, Net_txs := Net_txs ?S @ ?ts\<rparr>))"
    by blast
  have "map Result_Success [\<lparr>Result_Success = hd oks, Result_Consumed = [1, 1, 1, 1, 1], Result_Fee = 5\<rparr>] = oks"
    using oks by (cases oks) auto
  with ex obtain ns where step2: "net_step ref_net_env ?S (?S\<lparr>Net_chain := s, Net_nodes := ns, Net_txs := Net_txs ?S @ ?ts\<rparr>)"
    by fastforce
  let ?T = "?S\<lparr>Net_chain := s, Net_nodes := ns, Net_txs := Net_txs ?S @ ?ts\<rparr>"
  have reach: "reachable ref_net_env ref_net ?T"
    using step step2 by (rule converse_rtranclp_into_rtranclp [OF _ r_into_rtranclp])
  have "wf_state (Net_chain ref_net)"
    by (simp add: ref_net_def)
  from ref_net.reachable_inv [OF reach ref_net_start this]
  have "ledger_of s = ledger_run ref_bls ref_warp ?ts (ledger_of ref_window)"
    by (simp add: ref_net.chain_inv_def) (simp add: ref_net_def ref_net_env_def)
  then have "Weights (ledger_of s) 1 = Some 10"
    by (simp add: ledger_tx_def ref_tx_def ref_judge count_vote_def Let_def)
  then show thesis
    by (intro that [OF reach]) (simp_all add: ref_net_def)
qed

section \<open>The claims\<close>

text \<open>
  C5: where the weight of a verification comes from. In a network whose blocks carry no votes
  but those of its nodes, and whose validators stay the same, the weight of a transaction
  that had none is at every moment the sum, modulo \<open>2 ^ 64\<close>, of the weights of some of the nodes
  that were told yes for it, each counted once: no weight without a result that was posted to
  the node that has it.
\<close>

theorem weight_from_results:
  assumes "net_contract X kv signer_of" "net_start X S0" "wf_state (kv (Net_chain S0))"
    and "weight_of (kv (Net_chain S0)) i = None" "reachable X S0 S"
    and "\<forall>t \<in> set (Net_txs S). fst (Rules_f (Tx_rules t) ()) = vals"
  shows "\<exists>K. K \<subseteq> {k. k < length (Net_nodes S0) \<and> told_yes (NE_trustless (NX_node X k)) (events_of k (Net_log S)) i} \<and>
    weight_of (kv (Net_chain S)) i = (if K = {} then None else Some (\<Sum>k \<in> K.
      key_weight (NX_bls X) vals (Trustless_publicKey (Ctl_trustless (Node_ctl (Net_nodes S0 ! k))))))"
proof -
  have "net_contract.chain_inv X kv S0 S"
    using net_contract.reachable_inv [OF assms(1,5,2,3)] by simp
  from net_contract.weight_from_nodes [OF assms(1) this assms(6,4)] show ?thesis .
qed

text \<open>The node of the example was told yes, and its weight of 10 is there.\<close>

theorem weight_from_results_witness:
  "\<exists>S. reachable ref_net_env ref_net S \<and> weight_of (Net_chain S) 1 = Some 10 \<and>
    told_yes ref_env (events_of 0 (Net_log S)) 1"
proof -
  obtain S where S: "reachable ref_net_env ref_net S" "weight_of (Net_chain S) 1 = Some 10"
    "Net_txs S = [ref_tx (ActionValidatorVote (ref_vote 1 True)) 3 9]"
    by (rule ref_voted)
  have "wf_state (Net_chain ref_net)" "weight_of (Net_chain ref_net) 1 = None"
    by (simp_all add: ref_net_def)
  from weight_from_results [OF ref_net.net_contract_axioms ref_net_start this S(1), of "fst (Rules_f (ref_rules 0) ())"] S(2,3)
  obtain K where "K \<subseteq> {k. k < length (Net_nodes ref_net) \<and>
      told_yes (NE_trustless (NX_node ref_net_env k)) (events_of k (Net_log S)) 1}" "K \<noteq> {}"
    by (auto simp: ref_tx_def split: if_splits)
  then have "told_yes ref_env (events_of 0 (Net_log S)) 1"
    by (auto simp: ref_net_def ref_net_env_def ref_node_env_def)
  with S show ?thesis by blast
qed

text \<open>
  C6: nothing in the system gets stuck. In every state that is reached, a block of any
  transactions, with the votes of the nodes, is executed by the chain and accepted without an
  error by every node whose database does not fail, whatever units and fees its results
  report; and every request is served by every node whose signer returns on a message and
  whose VM answers a submission. No part panics.
\<close>

theorem network_progress:
  assumes "net_contract X kv signer_of" "net_start X S0" "wf_state (kv (Net_chain S0))" "reachable X S0 S"
    and "\<And>k. reliable_node (NE_fees (NX_node X k)) (NE_db (NX_node X k)) (pending k) (content k)"
    and "\<And>k. responsive (NE_warp (NX_node X k)) (NE_trustless (NX_node X k))"
  shows "(\<forall>time ts. valid_block X S time ts \<longrightarrow>
      (\<exists>oks s. run_block (NX_math X) (NX_bls X) (NX_warp X) (NX_view X) ts (Net_chain S) = Some (oks, s) \<and>
        length oks = length ts \<and>
        (\<forall>rs :: tx_result list. map Result_Success rs = oks \<and> (\<forall>r \<in> set rs. length (Result_Consumed r) = 5) \<longrightarrow>
          (\<exists>ns. length ns = length (Net_nodes S) \<and>
            net_step X S (S\<lparr>Net_chain := s, Net_nodes := ns, Net_txs := Net_txs S @ ts\<rparr>) \<and>
            (\<forall>k < length ns. Node_errs (ns ! k) = Node_errs (Net_nodes S ! k)))))) \<and>
    (\<forall>k e. k < length (Net_nodes S) \<and> \<not> is_block e \<longrightarrow>
      (\<exists>n. net_step X S (S\<lparr>Net_nodes := (Net_nodes S)[k := n], Net_log := Net_log S @ [(k, e)]\<rparr>)))"
proof (intro conjI allI impI)
  fix time ts assume valid: "valid_block X S time ts"
  have "wf_state (kv (Net_chain S))"
    using net_contract.reachable_inv [OF assms(1,4,2,3)] by (simp add: net_contract.chain_inv_def [OF assms(1)])
  from net_contract.block_step_exists [OF assms(1,5) valid this]
  show "\<exists>oks s. run_block (NX_math X) (NX_bls X) (NX_warp X) (NX_view X) ts (Net_chain S) = Some (oks, s) \<and>
        length oks = length ts \<and>
        (\<forall>rs :: tx_result list. map Result_Success rs = oks \<and> (\<forall>r \<in> set rs. length (Result_Consumed r) = 5) \<longrightarrow>
          (\<exists>ns. length ns = length (Net_nodes S) \<and>
            net_step X S (S\<lparr>Net_chain := s, Net_nodes := ns, Net_txs := Net_txs S @ ts\<rparr>) \<and>
            (\<forall>k < length ns. Node_errs (ns ! k) = Node_errs (Net_nodes S ! k))))" .
next
  fix k e assume "k < length (Net_nodes S) \<and> \<not> is_block e"
  then show "\<exists>n. net_step X S (S\<lparr>Net_nodes := (Net_nodes S)[k := n], Net_log := Net_log S @ [(k, e)]\<rparr>)"
    using net_contract.request_step_exists [OF assms(1) _ _ assms(6)] by blast
qed

text \<open>From the state in which Bob's node was told yes, a transfer that fails is accepted all the same.\<close>

theorem network_progress_witness:
  "\<exists>S s ns. reachable ref_net_env ref_net S \<and> length ns = 1 \<and>
    net_step ref_net_env S (S\<lparr>Net_chain := s, Net_nodes := ns, Net_txs := Net_txs S @
      [ref_tx (ActionTransfer \<lparr>Transfer_To = 2, Transfer_Value = 40\<rparr>) 1 7]\<rparr>) \<and>
    Node_errs (ns ! 0) = Node_errs (Net_nodes S ! 0)"
proof -
  let ?t = "ref_tx (ActionTransfer \<lparr>Transfer_To = 2, Transfer_Value = 40\<rparr>) 1 7"
  obtain S where S: "reachable ref_net_env ref_net S" by (rule ref_voted)
  have wf: "wf_state (Net_chain ref_net)" by (simp add: ref_net_def)
  have len: "length (Net_nodes S) = 1"
    using ref_net.reachable_inv [OF S ref_net_start wf] by (simp add: ref_net.nodes_inv_def ref_net_def)
  have "valid_block ref_net_env S 50 [?t]"
    by (simp add: valid_block_def ref_tx_def)
  with network_progress [where pending = "\<lambda>_ b. b" and content = "\<lambda>_ d. d",
      OF ref_net.net_contract_axioms ref_net_start wf S ref_net_nodes]
  obtain oks s where oks: "length oks = length [?t]" and ex: "\<forall>rs :: tx_result list. map Result_Success rs = oks \<and>
      (\<forall>r \<in> set rs. length (Result_Consumed r) = 5) \<longrightarrow> (\<exists>ns. length ns = length (Net_nodes S) \<and>
        net_step ref_net_env S (S\<lparr>Net_chain := s, Net_nodes := ns, Net_txs := Net_txs S @ [?t]\<rparr>) \<and>
        (\<forall>k < length ns. Node_errs (ns ! k) = Node_errs (Net_nodes S ! k)))"
    by blast
  define rs where "rs = [\<lparr>Result_Success = hd oks, Result_Consumed = [1, 1, 1, 1, 1], Result_Fee = 5\<rparr>]"
  have "map Result_Success rs = oks \<and> (\<forall>r \<in> set rs. length (Result_Consumed r) = 5)"
    using oks by (cases oks) (auto simp: rs_def)
  with ex obtain ns where "length ns = length (Net_nodes S)"
    "net_step ref_net_env S (S\<lparr>Net_chain := s, Net_nodes := ns, Net_txs := Net_txs S @ [?t]\<rparr>)"
    "\<forall>k < length ns. Node_errs (ns ! k) = Node_errs (Net_nodes S ! k)"
    by blast
  with S len show ?thesis by (metis less_numeral_extra(1))
qed

text \<open>
  C4: from the abstract ledger to the client of any node. In every state that is reached, a
  client that asks a node about a transaction that was executed is told that it is there, its
  time, and, as its outcome, the verdict of the abstract ledger at the place where it was
  executed. The node stores transactions, its database does not fail, and no two transactions
  have the same identifier.
\<close>

theorem clients_learn_verdicts:
  assumes "net_contract X kv signer_of" "net_start X S0" "wf_state (kv (Net_chain S0))" "reachable X S0 S"
    and "k < length (Net_nodes S0)" "StoreTransactions (Ctl_config (Node_ctl (Net_nodes S0 ! k)))"
    and "reliable_node (NE_fees (NX_node X k)) (NE_db (NX_node X k)) pending content"
    and "Net_txs S = pre @ t # post" "distinct (map Tx_id (Net_txs S))"
    and "rpc_transport R C parse"
    and "C w = controller_rpc (NE_fees (NX_node X k)) (NE_db (NX_node X k)) readState (Node_ctl (Net_nodes S ! k))"
    and "Client_Tx R cli (Tx_id t) w = ((found, ok, time, fee, None), w')"
  shows "found \<and> time = Tx_time t \<and>
    ok = fst (ledger_tx (NX_bls X) (NX_warp X) t
      (ledger_run (NX_bls X) (NX_warp X) pre (ledger_of (kv (Net_chain S0)))))"
proof -
  have "node_records X kv k S0 S"
    by (rule net_contract.reachable_records [OF assms(1,4,2,3,5,7,6,9)])
  moreover have "length pre < length (Net_txs S)"
    by (simp add: assms(8))
  ultimately have "recorded (NE_fees (NX_node X k)) (NE_db (NX_node X k)) (Node_ctl (Net_nodes S ! k))
      (Tx_id (Net_txs S ! length pre)) (Tx_time (Net_txs S ! length pre)) (verdicts X kv S0 S ! length pre)"
    unfolding node_records_def by blast
  then have "recorded (NE_fees (NX_node X k)) (NE_db (NX_node X k)) (Node_ctl (Net_nodes S ! k)) (Tx_id t) (Tx_time t)
      (fst (ledger_tx (NX_bls X) (NX_warp X) t (ledger_run (NX_bls X) (NX_warp X) pre (ledger_of (kv (Net_chain S0))))))"
    by (simp add: verdicts_def assms(8) ledger_verdicts_append nth_append)
  then show ?thesis
    using rpc_transport.Tx_reports [OF assms(10,12)]
    by (cases found) (auto simp: recorded_def assms(11) controller_rpc_def)
qed

text \<open>The vote of the example, as a client sees it.\<close>

theorem clients_learn_verdicts_witness:
  "\<exists>S. reachable ref_net_env ref_net S \<and> length (Net_txs S) = 1 \<and>
    (\<forall>found ok time fee w'. Client_Tx ref_requester (NewJSONRPCClient ''uri'' 1 2) 9
        [controller_rpc ref_fees ref_db (\<lambda>ks. ([], [])) (Node_ctl (Net_nodes S ! 0))] = ((found, ok, time, fee, None), w') \<longrightarrow>
      found \<and> ok \<and> time = 50)"
proof -
  obtain S where S: "reachable ref_net_env ref_net S"
    "Net_txs S = [ref_tx (ActionValidatorVote (ref_vote 1 True)) 3 9]"
    by (rule ref_voted)
  have facts: "wf_state (Net_chain ref_net)" "0 < length (Net_nodes ref_net)"
    "StoreTransactions (Ctl_config (Node_ctl (Net_nodes ref_net ! 0)))"
    "reliable_node (NE_fees (NX_node ref_net_env 0)) (NE_db (NX_node ref_net_env 0))
      (\<lambda>b. b) (\<lambda>d. d)"
    using ref_reliable.reliable_node_axioms
    by (simp_all add: ref_net_def ref_running_def ref_controller_def ref_net_env_def ref_node_env_def)
  have txs: "Net_txs S = [] @ ref_tx (ActionValidatorVote (ref_vote 1 True)) 3 9 # []" "distinct (map Tx_id (Net_txs S))"
    by (simp_all add: S(2))
  have "found \<and> ok \<and> time = 50"
    if c: "Client_Tx ref_requester (NewJSONRPCClient ''uri'' 1 2) 9
        [controller_rpc ref_fees ref_db (\<lambda>ks. ([], [])) (Node_ctl (Net_nodes S ! 0))] = ((found, ok, time, fee, None), w')"
    for found ok time fee w'
  proof -
    have c': "Client_Tx ref_requester (NewJSONRPCClient ''uri'' 1 2) (Tx_id (ref_tx (ActionValidatorVote (ref_vote 1 True)) 3 9))
        [controller_rpc ref_fees ref_db (\<lambda>ks. ([], [])) (Node_ctl (Net_nodes S ! 0))] = ((found, ok, time, fee, None), w')"
      using c by (simp add: ref_tx_def)
    from clients_learn_verdicts [OF ref_net.net_contract_axioms ref_net_start facts(1) S(1) facts(2-4) txs
        ref_transport.rpc_transport_axioms _ c', where readState = "\<lambda>ks. ([], [])"]
    show ?thesis
      by (simp add: ref_net_env_def ref_node_env_def ref_net_def ledger_tx_def ref_tx_def ref_judge)
  qed
  with S show ?thesis by auto
qed

end
