(* ===== verification/Cli_Keys.thy ===== *)
theory Cli_Keys
  imports Rpc Auth_Batch
begin

text \<open>
  The keys of the command-line client \<open>cmd/morpheus-cli\<close>: \<open>key.go\<close>, \<open>getFactory\<close> of
  \<open>spam.go\<close> and the default actor of \<open>handler.go\<close>. The generators of private keys, the file
  system and the key store of hypersdk's \<open>cli.Handler\<close> are parameters. The claims: a key the
  client makes, loads or stores signs for the address it is stored under.

  A function that the client runs is an \<open>io\<close>: from a world to an error or a value and the
  world after it. \<^const>\<open>None\<close> is a panic (or, for the loop of \<open>sendAndWait\<close>, not
  returning). \<open>attempt m k\<close> is the \<open>if err != nil { return err }\<close> after a call. What is
  printed is left out.
\<close>

section \<open>Calls\<close>

type_synonym ('a, 'w) io = "'w \<Rightarrow> ((error + 'a) \<times> 'w) go"

definition attempt :: "('a, 'w) io \<Rightarrow> ('a \<Rightarrow> ('b, 'w) io) \<Rightarrow> ('b, 'w) io" where
  "attempt m k w = do { (r, w) \<leftarrow> m w; case r of Inl err \<Rightarrow> Some (Inl err, w) | Inr x \<Rightarrow> k x w }"

definition return_io :: "'a \<Rightarrow> ('a, 'w) io" where "return_io x w = Some (Inr x, w)"

definition fail_io :: "error \<Rightarrow> ('a, 'w) io" where "fail_io err w = Some (Inl err, w)"

text \<open>A call that does not panic, one that does not change the world, and one that is pure.\<close>

definition call :: "('w \<Rightarrow> (error + 'a) \<times> 'w) \<Rightarrow> ('a, 'w) io" where "call f w = Some (f w)"

definition pure :: "error + 'a \<Rightarrow> ('a, 'w) io" where "pure r w = Some (r, w)"

definition pure_go :: "(error + 'a) go \<Rightarrow> ('a, 'w) io" where "pure_go r w = do { r \<leftarrow> r; Some (r, w) }"

lemma attempt_Some [simp]:
  "attempt m k w = Some (r, w') \<longleftrightarrow>
    (\<exists>err. m w = Some (Inl err, w') \<and> r = Inl err) \<or> (\<exists>x w1. m w = Some (Inr x, w1) \<and> k x w1 = Some (r, w'))"
  by (cases "m w"; cases "fst (the (m w))") (auto simp: attempt_def)

lemma io_Some [simp]:
  "return_io x w = Some (r, w') \<longleftrightarrow> r = Inr x \<and> w' = w"
  "fail_io err w = Some (r, w') \<longleftrightarrow> r = Inl err \<and> w' = w"
  "call f w = Some (r, w') \<longleftrightarrow> f w = (r, w')"
  "pure r0 w = Some (r, w') \<longleftrightarrow> r0 = r \<and> w' = w"
  "pure_go g w = Some (r, w') \<longleftrightarrow> g = Some r \<and> w' = w"
  by (auto simp: return_io_def fail_io_def call_def pure_def pure_go_def bind_eq_Some_conv)

section \<open>Errors\<close>

definition ErrInvalidArgs :: error where "ErrInvalidArgs = ErrMessage ''invalid args''"
definition ErrMissingSubcommand :: error where "ErrMissingSubcommand = ErrMessage ''must specify a subcommand''"
definition ErrInvalidAddress :: error where "ErrInvalidAddress = ErrMessage ''invalid address''"
definition ErrInvalidVerificationType :: error where "ErrInvalidVerificationType = ErrMessage ''invalid verify type''"

section \<open>Private keys\<close>

text \<open>
  Private keys of the first two schemes are byte arrays, those of BLS references \<open>'sk\<close>.
\<close>

record private_key =
  PrivateKey_Address :: address
  PrivateKey_Bytes :: bytes

record ('k, 'g, 'sk, 'w) key_lib =
  KL_address :: address_lib
  KL_ed25519 :: "bytes ed25519_lib"
  KL_secp256r1 :: "bytes secp256r1_lib"
  KL_bls :: "('k, 'g, 'sk) bls_lib"
  Ed_PrivateKeyLen :: nat
  Ed_GeneratePrivateKey :: "'w \<Rightarrow> (error + bytes) \<times> 'w"
  Secp_PrivateKeyLen :: nat
  Secp_GeneratePrivateKey :: "'w \<Rightarrow> (error + bytes) \<times> 'w"
  Bls_PrivateKeyLen :: nat
  Bls_GeneratePrivateKey :: "'w \<Rightarrow> (error + 'sk) \<times> 'w"
  Bls_PrivateKeyToBytes :: "'sk \<Rightarrow> bytes"
  Bls_PrivateKeyFromBytes :: "bytes \<Rightarrow> error + 'sk"
  LoadBytes :: "string \<Rightarrow> nat \<Rightarrow> 'w \<Rightarrow> error + bytes"

definition ed25519Key :: string where "ed25519Key = ''ed25519''"
definition secp256r1Key :: string where "secp256r1Key = ''secp256r1''"
definition blsKey :: string where "blsKey = ''bls''"

definition checkKeyType :: "string \<Rightarrow> error option" where
  "checkKeyType k =
    (if k = ed25519Key \<or> k = secp256r1Key \<or> k = blsKey then None
     else Some (ErrWrap ErrInvalidKeyType k))"

text \<open>\<open>addr[0]\<close> of an address.\<close>

definition addr_type :: "address \<Rightarrow> byte" where "addr_type a = addr_bytes a ! 0"

definition getKeyType :: "address \<Rightarrow> error + string" where
  "getKeyType addr =
    (if addr_type addr = ED25519ID then Inr ed25519Key
     else if addr_type addr = SECP256R1ID then Inr secp256r1Key
     else if addr_type addr = BLSID then Inr blsKey
     else Inl ErrInvalidKeyType)"

definition generatePrivateKey :: "('k, 'g, 'sk, 'w) key_lib \<Rightarrow> string \<Rightarrow> (private_key, 'w) io" where
  "generatePrivateKey K k =
    (if k = ed25519Key then
       attempt (call (Ed_GeneratePrivateKey K)) (\<lambda>p.
       return_io \<lparr>PrivateKey_Address = NewED25519Address (KL_address K) (Ed_PublicKey (KL_ed25519 K) p),
         PrivateKey_Bytes = p\<rparr>)
     else if k = secp256r1Key then
       attempt (call (Secp_GeneratePrivateKey K)) (\<lambda>p.
       return_io \<lparr>PrivateKey_Address = NewSECP256R1Address (KL_address K) (Secp_PublicKey (KL_secp256r1 K) p),
         PrivateKey_Bytes = p\<rparr>)
     else if k = blsKey then
       attempt (call (Bls_GeneratePrivateKey K)) (\<lambda>p.
       return_io \<lparr>PrivateKey_Address = NewBLSAddress (KL_address K) (KL_bls K) (Bls_PublicFromPrivateKey (KL_bls K) p),
         PrivateKey_Bytes = Bls_PrivateKeyToBytes K p\<rparr>)
     else fail_io ErrInvalidKeyType)"

definition loadPrivateKey :: "('k, 'g, 'sk, 'w) key_lib \<Rightarrow> string \<Rightarrow> string \<Rightarrow> (private_key, 'w) io" where
  "loadPrivateKey K k path w =
    (if k = ed25519Key then
       attempt (pure (LoadBytes K path (Ed_PrivateKeyLen K) w)) (\<lambda>p.
       attempt (pure_go (map_option Inr (to_array (Ed_PrivateKeyLen K) p))) (\<lambda>pk.
       return_io \<lparr>PrivateKey_Address = NewED25519Address (KL_address K) (Ed_PublicKey (KL_ed25519 K) pk),
         PrivateKey_Bytes = p\<rparr>))
     else if k = secp256r1Key then
       attempt (pure (LoadBytes K path (Secp_PrivateKeyLen K) w)) (\<lambda>p.
       attempt (pure_go (map_option Inr (to_array (Secp_PrivateKeyLen K) p))) (\<lambda>pk.
       return_io \<lparr>PrivateKey_Address = NewSECP256R1Address (KL_address K) (Secp_PublicKey (KL_secp256r1 K) pk),
         PrivateKey_Bytes = p\<rparr>))
     else if k = blsKey then
       attempt (pure (LoadBytes K path (Bls_PrivateKeyLen K) w)) (\<lambda>p.
       attempt (pure (Bls_PrivateKeyFromBytes K p)) (\<lambda>privKey.
       return_io \<lparr>PrivateKey_Address = NewBLSAddress (KL_address K) (KL_bls K)
           (Bls_PublicFromPrivateKey (KL_bls K) privKey),
         PrivateKey_Bytes = p\<rparr>))
     else fail_io ErrInvalidKeyType) w"

section \<open>Factories\<close>

text \<open>The interface \<open>chain.AuthFactory\<close>: the factories of the three schemes.\<close>

datatype 'sk auth_factory =
    FactoryED25519 "bytes ed25519_factory"
  | FactorySECP256R1 "bytes secp256r1_factory"
  | FactoryBLS "'sk bls_factory"

definition getFactory :: "('k, 'g, 'sk, 'w) key_lib \<Rightarrow> private_key \<Rightarrow> (error + 'sk auth_factory) go" where
  "getFactory K priv =
    (if addr_type (PrivateKey_Address priv) = ED25519ID then
       do { p \<leftarrow> to_array (Ed_PrivateKeyLen K) (PrivateKey_Bytes priv);
            Some (Inr (FactoryED25519 (NewED25519Factory p))) }
     else if addr_type (PrivateKey_Address priv) = SECP256R1ID then
       do { p \<leftarrow> to_array (Secp_PrivateKeyLen K) (PrivateKey_Bytes priv);
            Some (Inr (FactorySECP256R1 (NewSECP256R1Factory p))) }
     else if addr_type (PrivateKey_Address priv) = BLSID then
       (case Bls_PrivateKeyFromBytes K (PrivateKey_Bytes priv) of
          Inl err \<Rightarrow> Some (Inl err)
        | Inr p \<Rightarrow> Some (Inr (FactoryBLS (NewBLSFactory p))))
     else Some (Inl ErrInvalidKeyType))"

definition Factory_Sign ::
  "('k, 'g, 'sk, 'w) key_lib \<Rightarrow> 'sk auth_factory \<Rightarrow> bytes \<Rightarrow> error + ('k, 'g) chain_auth" where
  "Factory_Sign K f msg =
    (case f of
       FactoryED25519 d \<Rightarrow> map_sum id AuthED25519 (ED25519Factory_Sign (KL_ed25519 K) d msg)
     | FactorySECP256R1 d \<Rightarrow> map_sum id AuthSECP256R1 (SECP256R1Factory_Sign (KL_secp256r1 K) d msg)
     | FactoryBLS d \<Rightarrow> map_sum id AuthBLS (BLSFactory_Sign (KL_bls K) d msg))"

definition Auth_Verify :: "('k, 'g, 'sk, 'w) key_lib \<Rightarrow> ('k, 'g) chain_auth \<Rightarrow> bytes \<Rightarrow> error option" where
  "Auth_Verify K a msg =
    (case a of
       AuthED25519 d \<Rightarrow> ED25519_Verify (KL_ed25519 K) d msg
     | AuthSECP256R1 d \<Rightarrow> SECP256R1_Verify (KL_secp256r1 K) d msg
     | AuthBLS b \<Rightarrow> BLS_Verify (KL_bls K) b msg)"

definition Auth_Actor :: "('k, 'g, 'sk, 'w) key_lib \<Rightarrow> ('k, 'g) chain_auth \<Rightarrow> address" where
  "Auth_Actor K a =
    (case a of
       AuthED25519 d \<Rightarrow> fst (ED25519_Actor (KL_address K) d)
     | AuthSECP256R1 d \<Rightarrow> fst (SECP256R1_Actor (KL_address K) d)
     | AuthBLS b \<Rightarrow> fst (BLS_Actor (KL_address K) (KL_bls K) b))"

section \<open>The handler\<close>

text \<open>
  hypersdk's \<open>cli.Handler\<close>: the key store, the chain store and the prompts; \<open>MaxInt\<close> and
  \<open>MaxUint16\<close> are hypersdk's constants, and the validator of \<open>PromptAmount\<close> is always \<open>nil\<close>.
\<close>

record 'w cli_handler =
  GetDefaultKey :: "bool \<Rightarrow> 'w \<Rightarrow> (error + address \<times> bytes) \<times> 'w"
  GetDefaultChain :: "bool \<Rightarrow> 'w \<Rightarrow> (error + ID \<times> string list) \<times> 'w"
  StoreKey :: "private_key \<Rightarrow> 'w \<Rightarrow> (error + unit) \<times> 'w"
  StoreDefaultKey :: "address \<Rightarrow> 'w \<Rightarrow> (error + unit) \<times> 'w"
  PromptAddress :: "string \<Rightarrow> 'w \<Rightarrow> (error + address) \<times> 'w"
  PromptAmount :: "string \<Rightarrow> nat \<Rightarrow> u64 \<Rightarrow> 'w \<Rightarrow> (error + u64) \<times> 'w"
  PromptInt :: "string \<Rightarrow> int \<Rightarrow> 'w \<Rightarrow> (error + i64) \<times> 'w"
  PromptString :: "string \<Rightarrow> int \<Rightarrow> int \<Rightarrow> 'w \<Rightarrow> (error + string) \<times> 'w"
  PromptID :: "string \<Rightarrow> 'w \<Rightarrow> (error + ID) \<times> 'w"
  PromptContinue :: "'w \<Rightarrow> (error + bool) \<times> 'w"
  PrintStatus :: "ID \<Rightarrow> bool \<Rightarrow> 'w \<Rightarrow> 'w"
  MaxInt :: int
  MaxUint16 :: int

text \<open>
  hypersdk's clients. The JSON-RPC client of the SDK is the URI it was made for; \<open>'ws\<close> are
  open web sockets, \<open>'x\<close> transactions. \<open>ListenTx\<close> blocks until a result arrives and gives the
  identifier with the result or the error of that transaction.
\<close>

record ('ws, 'x, 'bf, 'sk, 'w) sdk_client =
  Sdk_Network :: "string \<Rightarrow> 'w \<Rightarrow> (error + u32) \<times> 'w"
  Sdk_NewWebSocketClient :: "string \<Rightarrow> 'w \<Rightarrow> (error + 'ws) \<times> 'w"
  Sdk_GenerateTransaction ::
    "string \<Rightarrow> 'bf rpc_parser \<Rightarrow> action option \<Rightarrow> 'sk auth_factory \<Rightarrow> ('x, 'w) io"
  Sdk_RegisterTx :: "'ws \<Rightarrow> 'x \<Rightarrow> 'w \<Rightarrow> (error + unit) \<times> 'w"
  Sdk_ListenTx :: "'ws \<Rightarrow> 'w \<Rightarrow> (error + ID \<times> (error + tx_result)) \<times> 'w"
  Sdk_TxID :: "'x \<Rightarrow> ID"
  Sdk_SubmitChunks :: "string \<Rightarrow> ID \<Rightarrow> u16 \<Rightarrow> u16 \<Rightarrow> bytes \<Rightarrow> 'w \<Rightarrow> 'w"

record ('ws, 'bf, 'sk) default_actor =
  Actor_chainID :: ID
  Actor_priv :: private_key
  Actor_factory :: "'sk auth_factory"
  Actor_jcli :: string
  Actor_bcli :: "'bf rpc_client"
  Actor_ws :: 'ws

text \<open>The switch of \<open>DefaultActor\<close> is that of \<open>getFactory\<close> with another error.\<close>

definition default_factory ::
  "('k, 'g, 'sk, 'w) key_lib \<Rightarrow> address \<Rightarrow> bytes \<Rightarrow> (error + 'sk auth_factory) go" where
  "default_factory K addr priv =
    (if addr_type addr = ED25519ID then
       do { p \<leftarrow> to_array (Ed_PrivateKeyLen K) priv; Some (Inr (FactoryED25519 (NewED25519Factory p))) }
     else if addr_type addr = SECP256R1ID then
       do { p \<leftarrow> to_array (Secp_PrivateKeyLen K) priv; Some (Inr (FactorySECP256R1 (NewSECP256R1Factory p))) }
     else if addr_type addr = BLSID then
       (case Bls_PrivateKeyFromBytes K priv of
          Inl err \<Rightarrow> Some (Inl err)
        | Inr p \<Rightarrow> Some (Inr (FactoryBLS (NewBLSFactory p))))
     else Some (Inl ErrInvalidAddress))"

text \<open>\<open>uris[0]\<close> panics when the chain has no URI.\<close>

definition DefaultActor ::
  "('k, 'g, 'sk, 'w) key_lib \<Rightarrow> 'w cli_handler \<Rightarrow> ('ws, 'x, 'bf, 'sk, 'w) sdk_client \<Rightarrow>
    (('ws, 'bf, 'sk) default_actor, 'w) io" where
  "DefaultActor K H S =
    attempt (call (GetDefaultKey H True)) (\<lambda>(addr, priv).
    attempt (pure_go (default_factory K addr priv)) (\<lambda>factory.
    attempt (call (GetDefaultChain H True)) (\<lambda>(chainID, uris).
    attempt (pure_go (map_option Inr (index uris 0))) (\<lambda>uri.
    attempt (call (Sdk_Network S uri)) (\<lambda>networkID.
    attempt (call (Sdk_NewWebSocketClient S uri)) (\<lambda>ws.
    return_io \<lparr>Actor_chainID = chainID,
      Actor_priv = \<lparr>PrivateKey_Address = addr, PrivateKey_Bytes = priv\<rparr>,
      Actor_factory = factory, Actor_jcli = uri,
      Actor_bcli = NewJSONRPCClient uri networkID chainID, Actor_ws = ws\<rparr>))))))"

section \<open>The commands on keys\<close>

text \<open>A command checks its arguments (\<open>PreRunE\<close>) before it runs (\<open>RunE\<close>).\<close>

definition genKeyCmd_PreRunE :: "string list \<Rightarrow> error option" where
  "genKeyCmd_PreRunE args = (case args of [k] \<Rightarrow> checkKeyType k | _ \<Rightarrow> Some ErrInvalidArgs)"

definition importKeyCmd_PreRunE :: "string list \<Rightarrow> error option" where
  "importKeyCmd_PreRunE args = (case args of [k, path] \<Rightarrow> checkKeyType k | _ \<Rightarrow> Some ErrInvalidArgs)"

definition genKeyCmd ::
  "('k, 'g, 'sk, 'w) key_lib \<Rightarrow> 'w cli_handler \<Rightarrow> string list \<Rightarrow> (unit, 'w) io" where
  "genKeyCmd K H args =
    attempt (pure_go (map_option Inr (index args 0))) (\<lambda>k.
    attempt (generatePrivateKey K k) (\<lambda>priv.
    attempt (call (StoreKey H priv)) (\<lambda>_.
    attempt (call (StoreDefaultKey H (PrivateKey_Address priv))) (\<lambda>_.
    return_io ()))))"

definition importKeyCmd ::
  "('k, 'g, 'sk, 'w) key_lib \<Rightarrow> 'w cli_handler \<Rightarrow> string list \<Rightarrow> (unit, 'w) io" where
  "importKeyCmd K H args =
    attempt (pure_go (map_option Inr (index args 0))) (\<lambda>k.
    attempt (pure_go (map_option Inr (index args 1))) (\<lambda>path.
    attempt (loadPrivateKey K k path) (\<lambda>priv.
    attempt (call (StoreKey H priv)) (\<lambda>_.
    attempt (call (StoreDefaultKey H (PrivateKey_Address priv))) (\<lambda>_.
    return_io ())))))"

section \<open>A key signs for its address\<close>

text \<open>
  What the client relies on: the three schemes, an address that starts with its type, keys of
  the length of their arrays, a file that is read only when it has the expected length, and
  a BLS key that is parsed back from its bytes with the same public key.
\<close>

locale key_spec =
  fixes K :: "('k, 'g, 'sk, 'w) key_lib"
  assumes ed: "ed25519_spec (KL_ed25519 K)" and secp: "secp256r1_spec (KL_secp256r1 K)" and bls: "bls_spec (KL_bls K)"
    and type_of_address: "addr_type (CreateAddress (KL_address K) t i) = t"
    and ed_length: "Ed_GeneratePrivateKey K w = (Inr p, w') \<Longrightarrow> length p = Ed_PrivateKeyLen K"
    and secp_length: "Secp_GeneratePrivateKey K w = (Inr p, w') \<Longrightarrow> length p = Secp_PrivateKeyLen K"
    and loaded_length: "LoadBytes K path n w = Inr b \<Longrightarrow> length b = n"
    and bls_reparse: "\<exists>sk'. Bls_PrivateKeyFromBytes K (Bls_PrivateKeyToBytes K sk) = Inr sk' \<and>
      Bls_PublicKeyToBytes (KL_bls K) (Bls_PublicFromPrivateKey (KL_bls K) sk') =
      Bls_PublicKeyToBytes (KL_bls K) (Bls_PublicFromPrivateKey (KL_bls K) sk)"

definition signs_as :: "('k, 'g, 'sk, 'w) key_lib \<Rightarrow> 'sk auth_factory \<Rightarrow> address \<Rightarrow> bool" where
  "signs_as K f a \<longleftrightarrow> (\<forall>m s. Factory_Sign K f m = Inr s \<longrightarrow> Auth_Verify K s m = None \<and> Auth_Actor K s = a)"

text \<open>A well-made key: its type is \<open>k\<close>, and both switches over its address make its factory.\<close>

definition well_made :: "('k, 'g, 'sk, 'w) key_lib \<Rightarrow> string \<Rightarrow> private_key \<Rightarrow> bool" where
  "well_made K k priv \<longleftrightarrow> checkKeyType k = None \<and> getKeyType (PrivateKey_Address priv) = Inr k \<and>
    (\<exists>f. getFactory K priv = Some (Inr f) \<and>
      default_factory K (PrivateKey_Address priv) (PrivateKey_Bytes priv) = Some (Inr f) \<and>
      signs_as K f (PrivateKey_Address priv))"

lemmas key_names = ed25519Key_def secp256r1Key_def blsKey_def ED25519ID_def SECP256R1ID_def BLSID_def

context key_spec
begin

lemma address_types [simp]:
  "addr_type (NewED25519Address (KL_address K) pk) = ED25519ID"
  "addr_type (NewSECP256R1Address (KL_address K) pk') = SECP256R1ID"
  "addr_type (NewBLSAddress (KL_address K) (KL_bls K) k) = BLSID"
  by (simp_all add: NewED25519Address_def NewSECP256R1Address_def NewBLSAddress_def type_of_address)

lemma ED25519_signs:
  "signs_as K (FactoryED25519 (NewED25519Factory p)) (NewED25519Address (KL_address K) (Ed_PublicKey (KL_ed25519 K) p))"
  using ed25519_spec.Ed_signs [OF ed]
  by (auto simp: signs_as_def Factory_Sign_def ED25519Factory_Sign_def NewED25519Factory_def Auth_Verify_def
      Auth_Actor_def ED25519_Verify_def ED25519_Actor_def ED25519_address_def Let_def)

lemma SECP256R1_signs:
  "signs_as K (FactorySECP256R1 (NewSECP256R1Factory p))
    (NewSECP256R1Address (KL_address K) (Secp_PublicKey (KL_secp256r1 K) p))"
  using secp256r1_spec.Secp_signs [OF secp]
  by (auto simp: signs_as_def Factory_Sign_def SECP256R1Factory_Sign_def NewSECP256R1Factory_def Auth_Verify_def
      Auth_Actor_def SECP256R1_Verify_def SECP256R1_Actor_def SECP256R1_address_def Let_def split: sum.splits)

lemma BLS_signs:
  "signs_as K (FactoryBLS (NewBLSFactory p))
    (NewBLSAddress (KL_address K) (KL_bls K) (Bls_PublicFromPrivateKey (KL_bls K) p))"
  using bls_spec.Bls_signs [OF bls]
  by (auto simp: signs_as_def Factory_Sign_def BLSFactory_Sign_def NewBLSFactory_def Auth_Verify_def
      Auth_Actor_def BLS_Verify_def BLS_Actor_def BLS_address_def Let_def)

lemma ED25519_well_made:
  assumes "length p = Ed_PrivateKeyLen K"
  shows "well_made K ed25519Key \<lparr>PrivateKey_Address = NewED25519Address (KL_address K) (Ed_PublicKey (KL_ed25519 K) p),
    PrivateKey_Bytes = p\<rparr>"
  using assms ED25519_signs [of p]
  by (simp add: well_made_def checkKeyType_def getKeyType_def getFactory_def default_factory_def to_array_def)

lemma SECP256R1_well_made:
  assumes "length p = Secp_PrivateKeyLen K"
  shows "well_made K secp256r1Key \<lparr>PrivateKey_Address = NewSECP256R1Address (KL_address K) (Secp_PublicKey (KL_secp256r1 K) p),
    PrivateKey_Bytes = p\<rparr>"
  using assms SECP256R1_signs [of p]
  by (simp add: well_made_def checkKeyType_def getKeyType_def getFactory_def default_factory_def to_array_def key_names)

lemma BLS_well_made:
  assumes "Bls_PrivateKeyFromBytes K b = Inr p"
    "NewBLSAddress (KL_address K) (KL_bls K) (Bls_PublicFromPrivateKey (KL_bls K) p) = a"
  shows "well_made K blsKey \<lparr>PrivateKey_Address = a, PrivateKey_Bytes = b\<rparr>"
  using assms(1) BLS_signs [of p] unfolding assms(2) [symmetric]
  by (simp add: well_made_def checkKeyType_def getKeyType_def getFactory_def default_factory_def key_names)

lemma generated_well_made:
  assumes "generatePrivateKey K k w = Some (Inr priv, w')"
  shows "well_made K k priv"
proof -
  have "well_made K blsKey \<lparr>PrivateKey_Address = NewBLSAddress (KL_address K) (KL_bls K) (Bls_PublicFromPrivateKey (KL_bls K) p),
      PrivateKey_Bytes = Bls_PrivateKeyToBytes K p\<rparr>" for p
    using bls_reparse [of p] by (auto intro!: BLS_well_made simp: NewBLSAddress_def)
  with assms show ?thesis
    by (auto simp: generatePrivateKey_def ed_length secp_length ED25519_well_made SECP256R1_well_made split: if_splits)
qed

lemma loaded_well_made:
  assumes "loadPrivateKey K k path w = Some (Inr priv, w')"
  shows "well_made K k priv"
  using assms
  by (auto simp: loadPrivateKey_def to_array_def dest!: loaded_length split: if_splits
      intro!: ED25519_well_made SECP256R1_well_made BLS_well_made)

end

section \<open>The key store\<close>

text \<open>\<open>keys\<close> is the store, \<open>def\<close> the address of the default key.\<close>

locale key_store =
  fixes H :: "'w cli_handler" and keys :: "'w \<Rightarrow> address \<rightharpoonup> bytes" and def :: "'w \<Rightarrow> address option"
  assumes StoreKey_stores: "StoreKey H priv w = (Inr u, w') \<Longrightarrow>
      keys w' = (keys w)(PrivateKey_Address priv \<mapsto> PrivateKey_Bytes priv)"
    and StoreDefaultKey_stores: "StoreDefaultKey H a w = (Inr u, w') \<Longrightarrow> keys w' = keys w \<and> def w' = Some a"
    and GetDefaultKey_gets: "GetDefaultKey H log w = (Inr (a, b), w') \<Longrightarrow> def w = Some a \<and> keys w a = Some b"
begin

lemma stored_default:
  assumes "StoreKey H priv w = (Inr u, w1)" "StoreDefaultKey H (PrivateKey_Address priv) w1 = (Inr v, w2)"
    and "GetDefaultKey H log w2 = (Inr (a, b), w3)"
  shows "priv = \<lparr>PrivateKey_Address = a, PrivateKey_Bytes = b\<rparr>"
  using StoreKey_stores [OF assms(1)] StoreDefaultKey_stores [OF assms(2)] GetDefaultKey_gets [OF assms(3)]
  by (cases priv) auto

end

lemma DefaultActor_priv:
  assumes "DefaultActor K H S w = Some (Inr act, w')"
  obtains w1 where "GetDefaultKey H True w = (Inr (PrivateKey_Address (Actor_priv act), PrivateKey_Bytes (Actor_priv act)), w1)"
    "default_factory K (PrivateKey_Address (Actor_priv act)) (PrivateKey_Bytes (Actor_priv act)) = Some (Inr (Actor_factory act))"
  using assms that by (auto simp: DefaultActor_def)

lemma stored_priv:
  assumes "genKeyCmd K H [k] w = Some (Inr u, w') \<or> importKeyCmd K H [k, path] w = Some (Inr u, w')"
  obtains priv w0 w1 w2 v where "generatePrivateKey K k w = Some (Inr priv, w0) \<or> loadPrivateKey K k path w = Some (Inr priv, w0)"
    "StoreKey H priv w0 = (Inr v, w1)" "StoreDefaultKey H (PrivateKey_Address priv) w1 = (Inr v, w')"
  using assms that by (auto simp: genKeyCmd_def importKeyCmd_def index_def)

section \<open>The claims\<close>

text \<open>
  C26: the names of key types, the types of addresses and the factories agree: a key that is
  generated or loaded for a type has a valid type, its address tells that type, \<open>getFactory\<close>
  returns a factory for it without a panic, and what the factory signs verifies and acts for
  that address.
\<close>

theorem key_types_agree:
  assumes "key_spec K"
    and "generatePrivateKey K k w = Some (Inr priv, w') \<or> loadPrivateKey K k path w = Some (Inr priv, w')"
  shows "checkKeyType k = None \<and> getKeyType (PrivateKey_Address priv) = Inr k \<and>
    (\<exists>f. getFactory K priv = Some (Inr f) \<and>
      (\<forall>m s. Factory_Sign K f m = Inr s \<longrightarrow> Auth_Verify K s m = None \<and> Auth_Actor K s = PrivateKey_Address priv))"
proof -
  have "well_made K k priv"
    using assms(2) key_spec.generated_well_made [OF assms(1)] key_spec.loaded_well_made [OF assms(1)] by blast
  then show ?thesis unfolding well_made_def signs_as_def by blast
qed

text \<open>The reference packages: keys of one byte, and of 48 bytes for BLS.\<close>

definition ref_keys :: "(nat \<times> 384 word, nat \<times> 768 word, 384 word, 'w) key_lib" where
  "ref_keys =
    \<lparr>KL_address = ref_address_lib,
     KL_ed25519 = \<lparr>Ed_PublicKeyLen = 32, Ed_SignatureLen = 64, Ed_MinBatchSize = 2, Ed_Verify = Ed_Verify ref_ed25519,
       Ed_Sign = (\<lambda>m sk. Ed_Sign ref_ed25519 m (hd sk)), Ed_PublicKey = (\<lambda>sk. Ed_PublicKey ref_ed25519 (hd sk))\<rparr>,
     KL_secp256r1 = \<lparr>Secp_PublicKeyLen = 33, Secp_SignatureLen = 64, Secp_Verify = Secp_Verify ref_secp256r1,
       Secp_Sign = (\<lambda>m sk. Secp_Sign ref_secp256r1 m (hd sk)), Secp_PublicKey = (\<lambda>sk. Secp_PublicKey ref_secp256r1 (hd sk))\<rparr>,
     KL_bls = ref_bls,
     Ed_PrivateKeyLen = 1, Ed_GeneratePrivateKey = (\<lambda>w. (Inr [5], w)),
     Secp_PrivateKeyLen = 1, Secp_GeneratePrivateKey = (\<lambda>w. (Inr [6], w)),
     Bls_PrivateKeyLen = 48, Bls_GeneratePrivateKey = (\<lambda>w. (Inr 7, w)),
     Bls_PrivateKeyToBytes = be_bytes 48,
     Bls_PrivateKeyFromBytes = (\<lambda>b. if length b = 48 then Inr (be_word b) else Inl (ErrExternal ''bls'')),
     LoadBytes = (\<lambda>path n w. Inr (replicate n 8))\<rparr>"

lemma addr_type_eq: "addr_type a = ucast (drop_bit 256 a)"
  by (simp add: addr_type_def be_bytes_def rev_nth nth_append)

interpretation ref_keys: key_spec ref_keys
proof (rule key_spec.intro)
  show "ed25519_spec (KL_ed25519 ref_keys)"
    by unfold_locales (simp_all add: ref_keys_def ref_ed25519_def)
  show "secp256r1_spec (KL_secp256r1 ref_keys)"
    by unfold_locales (auto simp: ref_keys_def ref_secp256r1_def)
  show "bls_spec (KL_bls ref_keys)"
    by (simp add: ref_keys_def ref_bls.bls_spec_axioms)
  show "addr_type (CreateAddress (KL_address ref_keys) t i) = t" for t i
    by (simp only: ref_keys_def key_lib.simps ref_address_lib_def address_lib.simps addr_type_eq ref_address_parts)
qed (auto simp: ref_keys_def)

lemma ref_generated:
  "generatePrivateKey ref_keys blsKey w = Some (Inr \<lparr>PrivateKey_Address = NewBLSAddress ref_address_lib ref_bls (1, 7),
    PrivateKey_Bytes = be_bytes 48 (7 :: 384 word)\<rparr>, w)"
  by (simp add: generatePrivateKey_def key_names ref_keys_def ref_bls_def)

theorem key_types_agree_witness:
  "getKeyType (NewBLSAddress ref_address_lib ref_bls (1, 7)) = Inr ''bls''"
  using key_types_agree [OF ref_keys.key_spec_axioms disjI1, OF ref_generated [of "()"]] by (simp add: blsKey_def)

text \<open>
  C23: after \<open>key generate\<close> or \<open>key import\<close> with a type, the commands act for the key that was
  made: the default actor has an address of that type, and what its factory signs verifies
  and acts for that address. Making the default actor can only panic on a chain without a
  URI.
\<close>

theorem default_actor_signs:
  assumes "key_spec K" "key_store H keys def"
    and "genKeyCmd K H [k] w = Some (Inr u, w1) \<or> importKeyCmd K H [k, path] w = Some (Inr u, w1)"
  shows "(\<forall>act w2. DefaultActor K H S w1 = Some (Inr act, w2) \<longrightarrow>
      getKeyType (PrivateKey_Address (Actor_priv act)) = Inr k \<and>
      (\<forall>m s. Factory_Sign K (Actor_factory act) m = Inr s \<longrightarrow>
        Auth_Verify K s m = None \<and> Auth_Actor K s = PrivateKey_Address (Actor_priv act))) \<and>
    (DefaultActor K H S w1 = None \<longrightarrow> (\<exists>chainID v v'. GetDefaultChain H True v = (Inr (chainID, []), v')))"
proof -
  obtain priv w0 w2 v where made: "generatePrivateKey K k w = Some (Inr priv, w0) \<or> loadPrivateKey K k path w = Some (Inr priv, w0)"
    and stored: "StoreKey H priv w0 = (Inr v, w2)" "StoreDefaultKey H (PrivateKey_Address priv) w2 = (Inr v, w1)"
    by (rule stored_priv [OF assms(3)])
  have good: "well_made K k priv"
    using made key_spec.generated_well_made [OF assms(1)] key_spec.loaded_well_made [OF assms(1)] by blast
  note default = key_store.stored_default [OF assms(2) stored]
  show ?thesis
  proof (intro conjI allI impI)
    fix act w3
    assume "DefaultActor K H S w1 = Some (Inr act, w3)"
    then obtain w4 where a: "GetDefaultKey H True w1 =
        (Inr (PrivateKey_Address (Actor_priv act), PrivateKey_Bytes (Actor_priv act)), w4)"
      "default_factory K (PrivateKey_Address (Actor_priv act)) (PrivateKey_Bytes (Actor_priv act)) = Some (Inr (Actor_factory act))"
      by (rule DefaultActor_priv)
    have priv: "priv = Actor_priv act"
      using default [OF a(1)] by simp
    with good show "getKeyType (PrivateKey_Address (Actor_priv act)) = Inr k"
      by (simp add: well_made_def)
    show "Auth_Verify K s m = None" "Auth_Actor K s = PrivateKey_Address (Actor_priv act)"
      if "Factory_Sign K (Actor_factory act) m = Inr s" for m s
      using good a(2) that unfolding priv well_made_def signs_as_def by auto
  next
    assume none: "DefaultActor K H S w1 = None"
    obtain r w3 where g: "GetDefaultKey H True w1 = (r, w3)" by (rule prod.exhaust)
    show "\<exists>chainID v v'. GetDefaultChain H True v = (Inr (chainID, []), v')"
    proof (cases r)
      case (Inl err)
      with none g show ?thesis by (simp add: DefaultActor_def attempt_def call_def)
    next
      case (Inr ab)
      obtain a b where ab: "ab = (a, b)" by (rule prod.exhaust)
      have "priv = \<lparr>PrivateKey_Address = a, PrivateKey_Bytes = b\<rparr>"
        using default g Inr ab by simp
      with good obtain f where "default_factory K a b = Some (Inr f)"
        by (auto simp: well_made_def)
      with none g Inr ab show ?thesis
        by (auto simp: DefaultActor_def attempt_def call_def pure_go_def index_def return_io_def
            split: prod.splits sum.splits if_splits)
    qed
  qed
qed

section \<open>A reference world\<close>

text \<open>
  What the commands of the reference client change: the key store, the files, and the
  transactions that were registered, with the results that will arrive.
\<close>

record cli_world =
  W_keys :: "address \<rightharpoonup> bytes"
  W_default :: "address option"
  W_files :: "string \<rightharpoonup> bytes"
  W_sent :: "(ID \<times> action option) list"
  W_results :: "(ID \<times> (error + tx_result)) list"

text \<open>The answers: every number is \<open>n\<close>, every confirmation \<open>yes\<close>.\<close>

definition ref_handler :: "i64 \<Rightarrow> bool \<Rightarrow> cli_world cli_handler" where
  "ref_handler n yes =
    \<lparr>GetDefaultKey = (\<lambda>log w. (case W_default w of None \<Rightarrow> Inl (ErrExternal ''no default key'')
       | Some a \<Rightarrow> (case W_keys w a of None \<Rightarrow> Inl (ErrExternal ''no default key'') | Some b \<Rightarrow> Inr (a, b)), w)),
     GetDefaultChain = (\<lambda>log w. (Inr (2, [''uri'']), w)),
     StoreKey = (\<lambda>priv w. (Inr (), w\<lparr>W_keys := (W_keys w)(PrivateKey_Address priv \<mapsto> PrivateKey_Bytes priv)\<rparr>)),
     StoreDefaultKey = (\<lambda>a w. (Inr (), w\<lparr>W_default := Some a\<rparr>)),
     PromptAddress = (\<lambda>l w. (Inr 2, w)), PromptAmount = (\<lambda>l d b w. (Inr 40, w)),
     PromptInt = (\<lambda>l m w. (Inr n, w)), PromptString = (\<lambda>l m m' w. (Inr ''x'', w)), PromptID = (\<lambda>l w. (Inr 8, w)),
     PromptContinue = (\<lambda>w. (Inr yes, w)), PrintStatus = (\<lambda>i b w. w), MaxInt = 2 ^ 63 - 1, MaxUint16 = 65535\<rparr>"

interpretation ref_store: key_store "ref_handler n yes" W_keys W_default for n yes
  by unfold_locales (auto simp: ref_handler_def split: option.splits)

definition empty_world :: cli_world where
  "empty_world = \<lparr>W_keys = Map.empty, W_default = None, W_files = Map.empty, W_sent = [], W_results = []\<rparr>"

definition ref_sdk :: "(unit, ID \<times> action option, nat, 384 word, cli_world) sdk_client" where
  "ref_sdk =
    \<lparr>Sdk_Network = (\<lambda>uri w. (Inr 1, w)), Sdk_NewWebSocketClient = (\<lambda>uri w. (Inr (), w)),
     Sdk_GenerateTransaction = (\<lambda>uri p a f. return_io (9, a)),
     Sdk_RegisterTx = (\<lambda>ws x w. (Inr (), w\<lparr>W_sent := W_sent w @ [x]\<rparr>)),
     Sdk_ListenTx = (\<lambda>ws w. (case W_results w of [] \<Rightarrow> (Inl (ErrExternal ''closed''), w)
       | r # rs \<Rightarrow> (Inr r, w\<lparr>W_results := rs\<rparr>))),
     Sdk_TxID = fst, Sdk_SubmitChunks = (\<lambda>uri i v c d w. w)\<rparr>"

text \<open>A BLS key is generated, and the default actor signs for it.\<close>

theorem default_actor_signs_witness:
  "\<exists>w1 act w2. genKeyCmd ref_keys (ref_handler 1 True) [blsKey] empty_world = Some (Inr (), w1) \<and>
    DefaultActor ref_keys (ref_handler 1 True) ref_sdk w1 = Some (Inr act, w2) \<and>
    getKeyType (PrivateKey_Address (Actor_priv act)) = Inr ''bls''"
proof -
  obtain w1 where gen: "genKeyCmd ref_keys (ref_handler 1 True) [blsKey] empty_world = Some (Inr (), w1)"
    and w1: "w1 = empty_world\<lparr>W_keys := [NewBLSAddress ref_address_lib ref_bls (1, 7) \<mapsto> be_bytes 48 (7 :: 384 word)],
      W_default := Some (NewBLSAddress ref_address_lib ref_bls (1, 7))\<rparr>"
    by (simp add: genKeyCmd_def index_def ref_generated ref_handler_def empty_world_def attempt_def pure_go_def call_def
        return_io_def)
  have "well_made (ref_keys :: (nat \<times> 384 word, nat \<times> 768 word, 384 word, cli_world) key_lib) blsKey \<lparr>PrivateKey_Address = NewBLSAddress ref_address_lib ref_bls (1, 7),
      PrivateKey_Bytes = be_bytes 48 (7 :: 384 word)\<rparr>"
    by (rule ref_keys.generated_well_made [OF ref_generated])
  then obtain f where f: "default_factory (ref_keys :: (nat \<times> 384 word, nat \<times> 768 word, 384 word, cli_world) key_lib) (NewBLSAddress ref_address_lib ref_bls (1, 7)) (be_bytes 48 (7 :: 384 word)) =
      Some (Inr f)"
    by (auto simp: well_made_def)
  then obtain act w2 where act: "DefaultActor ref_keys (ref_handler 1 True) ref_sdk w1 = Some (Inr act, w2)"
    by (simp add: w1 DefaultActor_def ref_handler_def ref_sdk_def attempt_def pure_go_def call_def return_io_def index_def f
        del: One_nat_def)
  have "getKeyType (PrivateKey_Address (Actor_priv act)) = Inr blsKey"
    using default_actor_signs [OF ref_keys.key_spec_axioms ref_store.key_store_axioms, OF disjI1, OF gen] act by blast
  with gen act show ?thesis
    unfolding blsKey_def by blast
qed

end
