(* ===== verification/Cli_Commands.thy ===== *)
theory Cli_Commands
  imports Cli_Keys
begin

text \<open>
  The commands of \<open>cmd/morpheus-cli\<close>: the transfer of \<open>action.go\<close>, the registrations,
  submissions and queries of \<open>testing.go\<close>, the balances of \<open>key.go\<close> and \<open>handler.go\<close>, the
  closures of \<open>spam.go\<close>, the genesis file of \<open>genesis.go\<close>, and \<open>sendAndWait\<close> of
  \<open>resolutions.go\<close>, whose loop may wait for ever. The flags of \<open>root.go\<close> are arguments.
\<close>

definition Symbol :: string where "Symbol = ''RED''"
definition Decimals :: nat where "Decimals = 9"

section \<open>The environment of the commands\<close>

record ('k, 'g, 'sk, 'ws, 'x, 'bf, 'w) cli_env =
  CE_keys :: "('k, 'g, 'sk, 'w) key_lib"
  CE_handler :: "'w cli_handler"
  CE_sdk :: "('ws, 'x, 'bf, 'sk, 'w) sdk_client"
  CE_rpc :: "('bf, 'w) rpc_requester"
  AddressBech32 :: "string \<Rightarrow> address \<Rightarrow> error + string"
  CE_ParseAddressBech32 :: bech32
  ReadFile :: "string \<Rightarrow> 'w \<Rightarrow> error + bytes"
  WriteFile :: "string \<Rightarrow> bytes \<Rightarrow> 'w \<Rightarrow> (error + unit) \<times> 'w"

text \<open>\<open>codec.MustAddressBech32\<close> panics where \<open>AddressBech32\<close> fails.\<close>

definition MustAddressBech32 :: "(string \<Rightarrow> address \<Rightarrow> error + string) \<Rightarrow> string \<Rightarrow> address \<Rightarrow> string go" where
  "MustAddressBech32 bech32 hrp a = (case bech32 hrp a of Inl err \<Rightarrow> None | Inr s \<Rightarrow> Some s)"

text \<open>What the handler asks the client about: \<open>Controller\<close> of \<open>handler.go\<close>.\<close>

record cli_controller =
  databasePath :: string

definition NewController :: "string \<Rightarrow> cli_controller" where
  "NewController path = \<lparr>databasePath = path\<rparr>"

definition CliController_DatabasePath :: "cli_controller \<Rightarrow> string" where
  "CliController_DatabasePath c = databasePath c"

definition CliController_Symbol :: string where "CliController_Symbol = Symbol"

definition CliController_Decimals :: nat where "CliController_Decimals = Decimals"

definition CliController_Address :: "(string \<Rightarrow> address \<Rightarrow> error + string) \<Rightarrow> address \<Rightarrow> string go" where
  "CliController_Address bech32 addr = MustAddressBech32 bech32 HRP addr"

definition CliController_ParseAddress :: "bech32 \<Rightarrow> string \<Rightarrow> error + address" where
  "CliController_ParseAddress parse addr = parse HRP addr"

section \<open>Balances\<close>

text \<open>A result and an error of the RPC client, as a call.\<close>

definition rpc_call :: "('w \<Rightarrow> ('a \<times> error option) \<times> 'w) \<Rightarrow> ('a, 'w) io" where
  "rpc_call f w = (let ((x, err), w) = f w in Some (case err of None \<Rightarrow> Inr x | Some e \<Rightarrow> Inl e, w))"

lemma rpc_call_Some [simp]:
  "rpc_call f w = Some (Inr x, w') \<longleftrightarrow> f w = ((x, None), w')"
  "rpc_call f w = Some (Inl e, w') \<longleftrightarrow> (\<exists>x. f w = ((x, Some e), w'))"
  by (auto simp: rpc_call_def split: prod.splits option.splits)

definition Handler_GetBalance ::
  "('k, 'g, 'sk, 'ws, 'x, 'bf, 'w) cli_env \<Rightarrow> 'bf rpc_client \<Rightarrow> address \<Rightarrow> (u64, 'w) io" where
  "Handler_GetBalance E cli addr =
    attempt (pure (AddressBech32 E HRP addr)) (\<lambda>saddr.
    attempt (rpc_call (Client_Balance (CE_rpc E) cli saddr)) (\<lambda>balance.
    if balance = 0 then return_io 0 else return_io balance))"

definition lookupKeyBalance ::
  "('k, 'g, 'sk, 'ws, 'x, 'bf, 'w) cli_env \<Rightarrow> address \<Rightarrow> string \<Rightarrow> u32 \<Rightarrow> ID \<Rightarrow> (unit, 'w) io" where
  "lookupKeyBalance E addr uri networkID chainID =
    attempt (Handler_GetBalance E (NewJSONRPCClient uri networkID chainID) addr) (\<lambda>_. return_io ())"

text \<open>The line that is printed has the type of the key and the balance.\<close>

definition lookupSetKeyBalance ::
  "('k, 'g, 'sk, 'ws, 'x, 'bf, 'w) cli_env \<Rightarrow> nat \<Rightarrow> string \<Rightarrow> string \<Rightarrow> u32 \<Rightarrow> ID \<Rightarrow>
    (nat \<times> string \<times> string \<times> u64, 'w) io" where
  "lookupSetKeyBalance E choice addr_text uri networkID chainID =
    (let cli = NewJSONRPCClient uri networkID chainID in
     attempt (rpc_call (Client_Balance (CE_rpc E) cli addr_text)) (\<lambda>balance.
     attempt (pure (CE_ParseAddressBech32 E HRP addr_text)) (\<lambda>addr.
     attempt (pure (getKeyType addr)) (\<lambda>keyType.
     return_io (choice, keyType, addr_text, balance)))))"

section \<open>Sending a transaction\<close>

text \<open>
  The loop of \<open>sendAndWait\<close>: it returns with the first error of the socket or of any
  transaction, or with the result of the transaction \<open>i\<close>; \<^const>\<open>None\<close> is waiting for ever.
\<close>

partial_function (option) await_tx ::
  "('w \<Rightarrow> (error + ID \<times> (error + tx_result)) \<times> 'w) \<Rightarrow> ID \<Rightarrow> 'w \<Rightarrow> ((error + tx_result) \<times> 'w) option" where
  "await_tx listen i w =
    (case listen w of
       (Inl err, w) \<Rightarrow> Some (Inl err, w)
     | (Inr (txID, Inl txErr), w) \<Rightarrow> Some (Inl txErr, w)
     | (Inr (txID, Inr txResult), w) \<Rightarrow>
         if txID = i then Some (Inr txResult, w) else await_tx listen i w)"

definition send_tx ::
  "'w cli_handler \<Rightarrow> ('ws, 'x, 'bf, 'sk, 'w) sdk_client \<Rightarrow> 'bf rpc_parser \<Rightarrow> action option \<Rightarrow>
    string \<Rightarrow> 'ws \<Rightarrow> 'sk auth_factory \<Rightarrow> bool \<Rightarrow> (bool \<times> ID, 'w) io" where
  "send_tx H S parser action jcli ws factory printStatus =
    attempt (Sdk_GenerateTransaction S jcli parser action factory) (\<lambda>tx.
    attempt (call (Sdk_RegisterTx S ws tx)) (\<lambda>_.
    attempt (await_tx (Sdk_ListenTx S ws) (Sdk_TxID S tx)) (\<lambda>result w.
      (let w = (if printStatus then PrintStatus H (Sdk_TxID S tx) (Result_Success result) w else w)
       in return_io (Result_Success result, Sdk_TxID S tx) w))))"

text \<open>
  The message of the warp protocol is \<open>nil\<close> in every call. The client that is passed keeps the
  genesis it has fetched for the parser.
\<close>

definition sendAndWait ::
  "'w cli_handler \<Rightarrow> ('ws, 'x, 'bf, 'sk, 'w) sdk_client \<Rightarrow> ('bf, 'w) rpc_requester \<Rightarrow> action option \<Rightarrow>
    string \<Rightarrow> 'ws \<Rightarrow> 'sk auth_factory \<Rightarrow> bool \<Rightarrow> 'bf rpc_client \<Rightarrow> 'w \<Rightarrow>
    ((error + bool \<times> ID) \<times> 'bf rpc_client \<times> 'w) go" where
  "sendAndWait H S R action jcli ws factory printStatus bcli w =
    (let ((parser, err), bcli, w) = Client_Parser R bcli w
     in case err of
          Some err \<Rightarrow> Some (Inl err, bcli, w)
        | None \<Rightarrow> do { parser \<leftarrow> parser;
            (r, w) \<leftarrow> send_tx H S parser action jcli ws factory printStatus w;
            Some (r, bcli, w) })"

text \<open>A command ends with \<open>sendAndWait\<close> for its actor, and returns its error.\<close>

definition send_action ::
  "('k, 'g, 'sk, 'ws, 'x, 'bf, 'w) cli_env \<Rightarrow> ('ws, 'bf, 'sk) default_actor \<Rightarrow> action option \<Rightarrow> (unit, 'w) io" where
  "send_action E act action w =
    do { (r, bcli, w) \<leftarrow> sendAndWait (CE_handler E) (CE_sdk E) (CE_rpc E) action (Actor_jcli act) (Actor_ws act)
           (Actor_factory act) True (Actor_bcli act) w;
         Some (case r of Inl err \<Rightarrow> Inl err | Inr _ \<Rightarrow> Inr (), w) }"

section \<open>The commands\<close>

definition actor_of :: "('k, 'g, 'sk, 'ws, 'x, 'bf, 'w) cli_env \<Rightarrow> (('ws, 'bf, 'sk) default_actor, 'w) io" where
  "actor_of E = DefaultActor (CE_keys E) (CE_handler E) (CE_sdk E)"

text \<open>\<open>if !cont || err != nil { return err }\<close>\<close>

definition confirmed :: "'w cli_handler \<Rightarrow> (unit, 'w) io \<Rightarrow> (unit, 'w) io" where
  "confirmed H k = attempt (call (PromptContinue H)) (\<lambda>cont. if cont then k else return_io ())"

definition transferCmd :: "('k, 'g, 'sk, 'ws, 'x, 'bf, 'w) cli_env \<Rightarrow> (unit, 'w) io" where
  "transferCmd E =
    attempt (actor_of E) (\<lambda>act.
    attempt (Handler_GetBalance E (Actor_bcli act) (PrivateKey_Address (Actor_priv act))) (\<lambda>balance.
    if balance = 0 then return_io ()
    else
      attempt (call (PromptAddress (CE_handler E) ''recipient'')) (\<lambda>recipient.
      attempt (call (PromptAmount (CE_handler E) ''amount'' Decimals balance)) (\<lambda>amount.
      confirmed (CE_handler E)
        (send_action E act (Some (ActionTransfer \<lparr>Transfer_To = recipient, Transfer_Value = amount\<rparr>)))))))"

definition registerCmd :: "('k, 'g, 'sk, 'ws, 'x, 'bf, 'w) cli_env \<Rightarrow> (unit, 'w) io" where
  "registerCmd E =
    attempt (actor_of E) (\<lambda>act.
    attempt (call (PromptInt (CE_handler E)
      ''proving sytem: sp1 -> 1, miden -> 2, risc0 -> 3, jolt -> 4, plonky2 -> 5 , gnark -> 6 ''
      (MaxInt (CE_handler E)))) (\<lambda>ps.
    confirmed (CE_handler E)
      (send_action E act (Some (ActionRegister \<lparr>Register_ProovingSystem = ps\<rparr>)))))"

text \<open>An error of the prompt for the image is not returned: the command ends without an error.\<close>

definition or_nil :: "('a, 'w) io \<Rightarrow> ('a \<Rightarrow> (unit, 'w) io) \<Rightarrow> (unit, 'w) io" where
  "or_nil m k w = do { (r, w) \<leftarrow> m w; case r of Inl err \<Rightarrow> Some (Inr (), w) | Inr x \<Rightarrow> k x w }"

definition registerImageCmd :: "('k, 'g, 'sk, 'ws, 'x, 'bf, 'w) cli_env \<Rightarrow> (unit, 'w) io" where
  "registerImageCmd E =
    attempt (actor_of E) (\<lambda>act.
    or_nil (call (PromptID (CE_handler E) ''image id'')) (\<lambda>imageID.
    attempt (call (PromptInt (CE_handler E) ''proof val type(1 for ELF, rest for proofs)'' (MaxUint16 (CE_handler E))))
      (\<lambda>valType.
    attempt (call (PromptString (CE_handler E) ''root hash'' 1 (MaxInt (CE_handler E)))) (\<lambda>rootHash.
    confirmed (CE_handler E)
      (send_action E act (Some (ActionRegisterImage \<lparr>RegisterImage_ImageID = imageID,
        RegisterImage_ValType = valType, RegisterImage_RootHash = rootHash\<rparr>)))))))"

text \<open>
  \<open>log.Fatal\<close> on a file that cannot be read ends the process, like a panic. What \<open>SubmitChunks\<close>
  returns is not looked at.
\<close>

definition broadcastCmd :: "('k, 'g, 'sk, 'ws, 'x, 'bf, 'w) cli_env \<Rightarrow> (unit, 'w) io" where
  "broadcastCmd E =
    attempt (actor_of E) (\<lambda>act.
    attempt (call (PromptString (CE_handler E) ''file name'' 1 (MaxInt (CE_handler E)))) (\<lambda>fileName.
    attempt (\<lambda>w. case ReadFile E fileName w of Inl err \<Rightarrow> None | Inr data \<Rightarrow> Some (Inr data, w)) (\<lambda>data.
    or_nil (call (PromptID (CE_handler E) ''image id'')) (\<lambda>imageID.
    attempt (call (PromptInt (CE_handler E) ''proof val type(1 for ELF, rest for proofs)'' (MaxUint16 (CE_handler E))))
      (\<lambda>valType.
    attempt (call (PromptInt (CE_handler E) ''chunk index'' (MaxUint16 (CE_handler E)))) (\<lambda>chunkIndex.
    confirmed (CE_handler E) (\<lambda>w.
      return_io () (Sdk_SubmitChunks (CE_sdk E) (Actor_jcli act) imageID (ucast valType) (ucast chunkIndex) data w))))))))"

text \<open>The action of \<open>verify\<close>: the sixth type leaves it \<open>nil\<close>.\<close>

definition verify_action ::
  "'w cli_handler \<Rightarrow> ID \<Rightarrow> i64 \<Rightarrow> i64 \<Rightarrow> i64 \<Rightarrow> (action option, 'w) io" where
  "verify_action H imageID valType verifyType timeOutBlocks =
    (if verifyType = 1 then
       return_io (Some (ActionSP1 \<lparr>SP1_ImageID = imageID, SP1_ProofValType = valType,
         SP1_TimeOutBlocks = timeOutBlocks\<rparr>))
     else if verifyType = 2 then
       attempt (call (PromptString H ''codeFrontEnd'' 1 (MaxInt H))) (\<lambda>codeFrontEnd.
       attempt (call (PromptString H ''inputsFrontEnd'' 1 (MaxInt H))) (\<lambda>inputsFrontEnd.
       attempt (call (PromptString H ''outputsForntEnd'' 1 (MaxInt H))) (\<lambda>outputsFrontEnd.
       return_io (Some (ActionMiden \<lparr>Miden_ImageID = imageID, Miden_ProofValType = valType,
         Miden_CodeFrontEnd = codeFrontEnd, Miden_InputsFrontEnd = inputsFrontEnd,
         Miden_OutputsFrontEnd = outputsFrontEnd, Miden_TimeOutBlocks = timeOutBlocks\<rparr>)))))
     else if verifyType = 3 then
       attempt (call (PromptString H ''risc zero image id'' 1 (MaxInt H))) (\<lambda>riscZeroImageID.
       return_io (Some (ActionRiscZero \<lparr>RiscZero_ImageID = imageID, RiscZero_ProofValType = valType,
         RiscZero_RiscZeroImageID = riscZeroImageID, RiscZero_TimeOutBlocks = timeOutBlocks\<rparr>)))
     else if verifyType = 4 then
       return_io (Some (ActionJolt \<lparr>Jolt_ImageID = imageID, Jolt_ProofValType = valType,
         Jolt_TimeOutBlocks = timeOutBlocks\<rparr>))
     else if verifyType = 5 then
       attempt (call (PromptInt H ''common data val type'' (MaxUint16 H))) (\<lambda>commonDataValType.
       attempt (call (PromptInt H ''verifier data val type'' (MaxUint16 H))) (\<lambda>verifierDataValType.
       return_io (Some (ActionPLONKY2 \<lparr>PLONKY2_ImageID = imageID, PLONKY2_ProofValType = valType,
         PLONKY2_CommonDataValType = commonDataValType, PLONKY2_VerifierDataValType = verifierDataValType,
         PLONKY2_TimeOutBlocks = timeOutBlocks\<rparr>))))
     else if verifyType = 6 then return_io None
     else fail_io ErrInvalidVerificationType)"

definition verifyCmd :: "('k, 'g, 'sk, 'ws, 'x, 'bf, 'w) cli_env \<Rightarrow> (unit, 'w) io" where
  "verifyCmd E =
    attempt (actor_of E) (\<lambda>act.
    attempt (call (PromptID (CE_handler E) ''image id'')) (\<lambda>imageID.
    attempt (call (PromptInt (CE_handler E) ''proof val type(1 + for proofs)'' (MaxUint16 (CE_handler E)))) (\<lambda>valType.
    attempt (call (PromptInt (CE_handler E)
      ''verification type: 1 -> SP1, 2 -> Miden, 3 -> Risc0, 4 -> Jolt, 5 -> Plonky2, 6 -> Gnark'' 10)) (\<lambda>verifyType.
    attempt (call (PromptInt (CE_handler E) ''time out blocks'' (MaxUint16 (CE_handler E)))) (\<lambda>timeOutBlocks.
    attempt (verify_action (CE_handler E) imageID valType verifyType timeOutBlocks) (\<lambda>action.
    confirmed (CE_handler E) (send_action E act action)))))))"

text \<open>The status is printed.\<close>

definition verifyStatusCmd :: "('k, 'g, 'sk, 'ws, 'x, 'bf, 'w) cli_env \<Rightarrow> (bool option, 'w) io" where
  "verifyStatusCmd E =
    attempt (actor_of E) (\<lambda>act.
    attempt (call (PromptID (CE_handler E) ''tx id of verify'')) (\<lambda>txID.
    attempt (call (PromptContinue (CE_handler E))) (\<lambda>cont.
    if cont then
      attempt (rpc_call (Client_VerifyStatus (CE_rpc E) (Actor_bcli act) txID)) (\<lambda>status. return_io (Some status))
    else return_io None)))"

text \<open>The commands that act on the chain, under \<open>action\<close> and \<open>testing\<close>.\<close>

datatype cli_command =
    TransferCommand | RegisterCommand | RegisterImageCommand | BroadcastCommand | VerifyCommand | VerifyStatusCommand

fun run_command :: "('k, 'g, 'sk, 'ws, 'x, 'bf, 'w) cli_env \<Rightarrow> cli_command \<Rightarrow> (unit, 'w) io" where
  "run_command E TransferCommand = transferCmd E"
| "run_command E RegisterCommand = registerCmd E"
| "run_command E RegisterImageCommand = registerImageCmd E"
| "run_command E BroadcastCommand = broadcastCmd E"
| "run_command E VerifyCommand = verifyCmd E"
| "run_command E VerifyStatusCommand = attempt (verifyStatusCmd E) (\<lambda>_. return_io ())"

section \<open>Watching transactions\<close>

text \<open>The summary that \<open>handleTx\<close> prints, from the action, the result and its output.\<close>

definition handleTx_summary ::
  "(u64 \<Rightarrow> nat \<Rightarrow> string) \<Rightarrow> (string \<Rightarrow> address \<Rightarrow> error + string) \<Rightarrow> id_text \<Rightarrow>
    action \<Rightarrow> bool \<Rightarrow> bytes \<Rightarrow> string go" where
  "handleTx_summary FormatBalance bech32 X action ok output =
    (let summaryStr = bytes_string output
     in if \<not> ok then Some summaryStr
        else (case action of
          ActionTransfer a \<Rightarrow> do { to \<leftarrow> MustAddressBech32 bech32 HRP (Transfer_To a);
            Some (FormatBalance (Transfer_Value a) Decimals @ '' '' @ Symbol @ '' -> '' @ to) }
        | ActionSP1 a \<Rightarrow> Some (''successfully verified sp1 proof of image id: '' @ ID_String X (SP1_ImageID a))
        | ActionRiscZero a \<Rightarrow> Some (''successfully verified risc zero proof of image id: '' @ ID_String X (RiscZero_ImageID a))
        | ActionMiden a \<Rightarrow> Some (''successfully verified miden proof of image id: '' @ ID_String X (Miden_ImageID a))
        | ActionPLONKY2 a \<Rightarrow> Some (''successfully verified plonky2 proof of image id: '' @ ID_String X (PLONKY2_ImageID a))
        | _ \<Rightarrow> Some summaryStr))"

section \<open>Load generation\<close>

text \<open>What \<open>spam run\<close> hands to the loop of hypersdk; the client and the socket are made once.\<close>

definition runSpamCmd_PreRunE :: "string list \<Rightarrow> error option" where
  "runSpamCmd_PreRunE args = (case args of [k] \<Rightarrow> checkKeyType k | _ \<Rightarrow> Some ErrInvalidArgs)"

definition spam_maxFee :: "i64 \<Rightarrow> u64 option" where
  "spam_maxFee maxFee = (if 0 \<le> sint maxFee then Some maxFee else None)"

definition spam_createClient ::
  "('k, 'g, 'sk, 'ws, 'x, 'bf, 'w) cli_env \<Rightarrow> string \<Rightarrow> u32 \<Rightarrow> ID \<Rightarrow> ('bf rpc_client \<times> 'ws, 'w) io" where
  "spam_createClient E uri networkID chainID =
    (let bclient = NewJSONRPCClient uri networkID chainID in
     attempt (call (Sdk_NewWebSocketClient (CE_sdk E) uri)) (\<lambda>ws. return_io (bclient, ws)))"

definition spam_createAccount :: "('k, 'g, 'sk, 'ws, 'x, 'bf, 'w) cli_env \<Rightarrow> string list \<Rightarrow> (private_key, 'w) io" where
  "spam_createAccount E args =
    attempt (pure_go (map_option Inr (index args 0))) (generatePrivateKey (CE_keys E))"

definition spam_lookupBalance ::
  "('k, 'g, 'sk, 'ws, 'x, 'bf, 'w) cli_env \<Rightarrow> 'bf rpc_client \<Rightarrow> string \<Rightarrow> (u64, 'w) io" where
  "spam_lookupBalance E bclient addr_text =
    attempt (rpc_call (Client_Balance (CE_rpc E) bclient addr_text)) return_io"

definition spam_getTransfer :: "address \<Rightarrow> u64 \<Rightarrow> action" where
  "spam_getTransfer addr amount = ActionTransfer \<lparr>Transfer_To = addr, Transfer_Value = amount\<rparr>"

definition spam_submitDummy ::
  "('k, 'g, 'sk, 'ws, 'x, 'bf, 'w) cli_env \<Rightarrow> string \<Rightarrow> private_key \<Rightarrow> 'ws \<Rightarrow> u64 \<Rightarrow>
    'bf rpc_client \<Rightarrow> 'w \<Rightarrow> ((error + unit) \<times> 'bf rpc_client \<times> 'w) go" where
  "spam_submitDummy E jcli priv wclient count bclient w =
    do { factory \<leftarrow> getFactory (CE_keys E) priv;
         case factory of
           Inl err \<Rightarrow> Some (Inl err, bclient, w)
         | Inr factory \<Rightarrow> do {
             (r, bclient, w) \<leftarrow> sendAndWait (CE_handler E) (CE_sdk E) (CE_rpc E)
               (Some (ActionTransfer \<lparr>Transfer_To = PrivateKey_Address priv, Transfer_Value = count\<rparr>))
               jcli wclient factory False bclient w;
             Some (case r of Inl err \<Rightarrow> Inl err | Inr _ \<Rightarrow> Inr (), bclient, w) } }"

section \<open>The genesis file\<close>

record genesis_flags =
  GF_genesisFile :: string
  GF_minUnitPrice :: "string list"
  GF_maxBlockUnits :: "string list"
  GF_windowTargetUnits :: "string list"
  GF_minBlockGap :: i64

text \<open>The defaults that \<open>root.go\<close> gives the flags.\<close>

definition default_genesis_flags :: genesis_flags where
  "default_genesis_flags =
    \<lparr>GF_genesisFile = ''genesis.json'', GF_minUnitPrice = [], GF_maxBlockUnits = [], GF_windowTargetUnits = [],
     GF_minBlockGap = -1\<rparr>"

text \<open>\<open>fees.ParseDimensions\<close> and \<open>encoding/json\<close>, for a genesis and for a list of allocations.\<close>

record 'bf genesis_lib =
  ParseDimensions :: "string list \<Rightarrow> error + dimensions"
  UnmarshalAllocations :: "bytes \<Rightarrow> error + custom_allocation option list"
  MarshalGenesis :: "'bf genesis \<Rightarrow> error + bytes"

definition flag_dimensions ::
  "'bf genesis_lib \<Rightarrow> string list \<Rightarrow> (dimensions \<Rightarrow> 'bf genesis) \<Rightarrow> 'bf genesis \<Rightarrow> error + 'bf genesis" where
  "flag_dimensions G flag update g =
    (if 0 < length flag then (case ParseDimensions G flag of Inl err \<Rightarrow> Inl err | Inr d \<Rightarrow> Inr (update d)) else Inr g)"

definition genGenesisCmd_PreRunE :: "string list \<Rightarrow> error option" where
  "genGenesisCmd_PreRunE args = (if length args \<noteq> 1 then Some ErrInvalidArgs else None)"

definition genGenesisCmd ::
  "('k, 'g, 'sk, 'ws, 'x, 'bf, 'w) cli_env \<Rightarrow> 'bf merkledb \<Rightarrow> 'bf genesis_lib \<Rightarrow> genesis_flags \<Rightarrow>
    string list \<Rightarrow> (unit, 'w) io" where
  "genGenesisCmd E B G F args =
    (let g = Default B in
     attempt (pure (flag_dimensions G (GF_minUnitPrice F) (\<lambda>d. g\<lparr>MinUnitPrice := d\<rparr>) g)) (\<lambda>g.
     attempt (pure (flag_dimensions G (GF_maxBlockUnits F) (\<lambda>d. g\<lparr>MaxBlockUnits := d\<rparr>) g)) (\<lambda>g.
     attempt (pure (flag_dimensions G (GF_windowTargetUnits F) (\<lambda>d. g\<lparr>WindowTargetUnits := d\<rparr>) g)) (\<lambda>g.
     let g = (if 0 \<le> sint (GF_minBlockGap F) then g\<lparr>MinBlockGap := GF_minBlockGap F\<rparr> else g) in
     attempt (pure_go (map_option Inr (index args 0))) (\<lambda>file.
     attempt (\<lambda>w. pure (ReadFile E file w) w) (\<lambda>a.
     attempt (pure (UnmarshalAllocations G a)) (\<lambda>allocs.
     let g = g\<lparr>CustomAllocation := allocs\<rparr> in
     attempt (pure (MarshalGenesis G g)) (\<lambda>b.
     attempt (call (WriteFile E (GF_genesisFile F) b)) (\<lambda>_.
     return_io ())))))))))"

end
