(* ===== verification/Cli_Claims.thy ===== *)
theory Cli_Claims
  imports Cli_Commands Chain Rpc_Claims
begin

text \<open>
  What the commands of the client promise: when \<open>sendAndWait\<close> returns and with what, what a
  command may submit and that it submits nothing that was not confirmed, that the generated
  genesis file is the genesis a node loads, and that the dummy transfers of the load
  generator change no balance.
\<close>

section \<open>Waiting for a transaction\<close>

text \<open>\<open>skips listen i n w w'\<close>: the next \<open>n\<close> results are of other transactions than \<open>i\<close>.\<close>

inductive skips ::
  "('w \<Rightarrow> (error + ID \<times> (error + tx_result)) \<times> 'w) \<Rightarrow> ID \<Rightarrow> nat \<Rightarrow> 'w \<Rightarrow> 'w \<Rightarrow> bool" for listen i where
  skips_0: "skips listen i 0 w w"
| skips_Suc: "listen w = (Inr (j, Inr res), w1) \<Longrightarrow> j \<noteq> i \<Longrightarrow> skips listen i n w1 w' \<Longrightarrow> skips listen i (Suc n) w w'"

inductive_cases skips_0E [elim!]: "skips listen i 0 w w'"
inductive_cases skips_SucE [elim!]: "skips listen i (Suc n) w w'"

lemma await_skips: "skips listen i n w w' \<Longrightarrow> await_tx listen i w = await_tx listen i w'"
  by (induction rule: skips.induct) (simp_all add: await_tx.simps)

text \<open>The loop returns exactly when, after some skips, its own result or an error arrives.\<close>

definition arrives :: "(error + ID \<times> (error + tx_result)) \<Rightarrow> ID \<Rightarrow> error + tx_result \<Rightarrow> bool" where
  "arrives x i r \<longleftrightarrow> (\<exists>err. x = Inl err \<and> r = Inl err) \<or> (\<exists>j err. x = Inr (j, Inl err) \<and> r = Inl err) \<or>
    (\<exists>res. x = Inr (i, Inr res) \<and> r = Inr res)"

lemma await_returned:
  assumes "await_tx listen i w = Some (r, w')"
  shows "\<exists>n w1 x. skips listen i n w w1 \<and> listen w1 = (x, w') \<and> arrives x i r"
proof -
  let ?P = "\<lambda>listen i w y. \<exists>n w1 x. skips listen i n w w1 \<and> listen w1 = (x, snd y) \<and> arrives x i (fst y)"
  have "?P listen i w (r, w')"
  proof (rule await_tx.raw_induct [where P = ?P, OF _ assms])
    fix f listen i w y
    assume IH: "\<And>listen i w y. f listen i w = Some y \<Longrightarrow> ?P listen i w y"
      and eq: "(case listen w of (Inl err, w) \<Rightarrow> Some (Inl err, w)
        | (Inr (txID, Inl txErr), w) \<Rightarrow> Some (Inl txErr, w)
        | (Inr (txID, Inr txResult), w) \<Rightarrow> if txID = i then Some (Inr txResult, w) else f listen i w) = Some y"
    obtain x w2 where x: "listen w = (x, w2)" by (rule prod.exhaust)
    show "?P listen i w y"
    proof (cases "\<exists>j res. x = Inr (j, Inr res) \<and> j \<noteq> i")
      case True
      then obtain j res where j: "x = Inr (j, Inr res)" "j \<noteq> i" by blast
      with eq x have "f listen i w2 = Some y" by simp
      from IH [OF this] obtain n w1 x1 where "skips listen i n w2 w1" "listen w1 = (x1, snd y)" "arrives x1 i (fst y)"
        by blast
      with skips_Suc [of listen, OF x [unfolded j] j(2)] show ?thesis by blast
    next
      case False
      then have "arrives x i (fst y) \<and> w2 = snd y"
        using eq x by (auto simp: arrives_def split: sum.splits prod.splits if_splits)
      with x skips_0 show ?thesis by metis
    qed
  qed
  then show ?thesis by simp
qed

lemma await_arrives: "listen w = (x, w') \<Longrightarrow> arrives x i r \<Longrightarrow> await_tx listen i w = Some (r, w')"
  by (subst await_tx.simps) (auto simp: arrives_def)

lemma await_iff:
  "await_tx listen i w = Some (r, w') \<longleftrightarrow> (\<exists>n w1 x. skips listen i n w w1 \<and> listen w1 = (x, w') \<and> arrives x i r)"
proof
  assume "\<exists>n w1 x. skips listen i n w w1 \<and> listen w1 = (x, w') \<and> arrives x i r"
  then obtain n w1 x where "skips listen i n w w1" "listen w1 = (x, w')" "arrives x i r" by blast
  with await_skips [of listen, OF this(1)] await_arrives [of listen, OF this(2,3)] show "await_tx listen i w = Some (r, w')" by simp
qed (rule await_returned)

text \<open>
  C22: \<open>sendAndWait\<close> returns, once its transaction is generated and registered, exactly when
  after any number of results of other transactions its own result or an error arrives: with
  the outcome of its own transaction and its identifier, and otherwise with the error, which
  may be that of another transaction.
\<close>

theorem send_and_wait:
  assumes "Client_Parser R bcli w = ((Some p, None), bcli', w1)"
    and "Sdk_GenerateTransaction S jcli p a f w1 = Some (Inr tx, w2)" "Sdk_RegisterTx S ws tx w2 = (Inr (), w3)"
  shows "sendAndWait H S R a jcli ws f False bcli w = Some (r, b, w') \<longleftrightarrow>
    b = bcli' \<and> (\<exists>n w4 x res. skips (Sdk_ListenTx S ws) (Sdk_TxID S tx) n w3 w4 \<and> Sdk_ListenTx S ws w4 = (x, w') \<and>
      arrives x (Sdk_TxID S tx) res \<and> r = map_sum id (\<lambda>res. (Result_Success res, Sdk_TxID S tx)) res)"
proof -
  have "send_tx H S p a jcli ws f False w1 = Some (r, w') \<longleftrightarrow>
    (\<exists>res. await_tx (Sdk_ListenTx S ws) (Sdk_TxID S tx) w3 = Some (res, w') \<and>
      r = map_sum id (\<lambda>res. (Result_Success res, Sdk_TxID S tx)) res)"
    using assms(2,3) by (auto simp: send_tx_def Let_def split_sum_ex)
  then show ?thesis
    using assms(1) by (auto simp: sendAndWait_def bind_eq_Some_conv await_iff)
qed

section \<open>What a command submits\<close>

text \<open>What each command may submit.\<close>

fun submits :: "'w cli_handler \<Rightarrow> cli_command \<Rightarrow> action option \<Rightarrow> bool" where
  "submits H TransferCommand a \<longleftrightarrow> (\<exists>t w w'. a = Some (ActionTransfer t) \<and>
    PromptAddress H ''recipient'' w = (Inr (Transfer_To t), w'))"
| "submits H RegisterCommand a \<longleftrightarrow> (\<exists>t. a = Some (ActionRegister t))"
| "submits H RegisterImageCommand a \<longleftrightarrow> (\<exists>t. a = Some (ActionRegisterImage t))"
| "submits H VerifyCommand a \<longleftrightarrow> (case a of None \<Rightarrow> True | Some a \<Rightarrow> action_timeout a \<noteq> None)"
| "submits H BroadcastCommand a \<longleftrightarrow> False"
| "submits H VerifyStatusCommand a \<longleftrightarrow> False"

text \<open>
  \<open>sent\<close> are the transactions that were registered, oldest first, and \<open>action_of\<close> the action of
  a transaction. Only \<open>RegisterTx\<close> registers, at most the transaction it is given.
\<close>

locale cli_world_spec =
  fixes E :: "('k, 'g, 'sk, 'ws, 'x, 'bf, 'w) cli_env" and sent :: "'w \<Rightarrow> 'x list" and action_of :: "'x \<Rightarrow> action option"
  assumes handler_keeps:
      "GetDefaultKey (CE_handler E) b w = (r1, w') \<Longrightarrow> sent w' = sent w"
      "GetDefaultChain (CE_handler E) b w = (r2, w') \<Longrightarrow> sent w' = sent w"
      "PromptAddress (CE_handler E) l w = (r3, w') \<Longrightarrow> sent w' = sent w"
      "PromptAmount (CE_handler E) l d v w = (r4, w') \<Longrightarrow> sent w' = sent w"
      "PromptInt (CE_handler E) l m w = (r5, w') \<Longrightarrow> sent w' = sent w"
      "PromptString (CE_handler E) l m m' w = (r6, w') \<Longrightarrow> sent w' = sent w"
      "PromptID (CE_handler E) l w = (r7, w') \<Longrightarrow> sent w' = sent w"
      "PromptContinue (CE_handler E) w = (r8, w') \<Longrightarrow> sent w' = sent w"
    and status_keeps: "sent (PrintStatus (CE_handler E) i ok w) = sent w"
    and sdk_keeps:
      "Sdk_Network (CE_sdk E) uri w = (q1, w') \<Longrightarrow> sent w' = sent w"
      "Sdk_NewWebSocketClient (CE_sdk E) uri w = (q2, w') \<Longrightarrow> sent w' = sent w"
      "Sdk_GenerateTransaction (CE_sdk E) uri p a f w = Some (q3, w') \<Longrightarrow> sent w' = sent w"
      "Sdk_ListenTx (CE_sdk E) ws w = (q4, w') \<Longrightarrow> sent w' = sent w"
    and chunks_keep: "sent (Sdk_SubmitChunks (CE_sdk E) uri img t c data w) = sent w"
    and rpc_keeps:
      "Send_genesis (CE_rpc E) meth reply1 w = (p1, w') \<Longrightarrow> sent w' = sent w"
      "Send_balance (CE_rpc E) meth args2 reply2 w = (p2, w') \<Longrightarrow> sent w' = sent w"
      "Send_verifyStatus (CE_rpc E) meth args3 reply3 w = (p3, w') \<Longrightarrow> sent w' = sent w"
    and generated: "Sdk_GenerateTransaction (CE_sdk E) uri p a f w = Some (Inr x, w') \<Longrightarrow> action_of x = a"
    and registers: "Sdk_RegisterTx (CE_sdk E) ws x w = (q5, w') \<Longrightarrow> sent w' = sent w \<or> sent w' = sent w @ [x]"
begin

text \<open>Nothing is submitted; at most one transaction is, of an action with \<open>P\<close>.\<close>

definition keeps :: "('a, 'w) io \<Rightarrow> bool" where
  "keeps m \<longleftrightarrow> (\<forall>w r w'. m w = Some (r, w') \<longrightarrow> sent w' = sent w)"

definition sends :: "('a, 'w) io \<Rightarrow> (action option \<Rightarrow> bool) \<Rightarrow> bool" where
  "sends m P \<longleftrightarrow> (\<forall>w r w'. m w = Some (r, w') \<longrightarrow>
    sent w' = sent w \<or> (\<exists>x. sent w' = sent w @ [x] \<and> P (action_of x)))"

lemma sendsD:
  "sends m P \<Longrightarrow> m w = Some (r, w') \<Longrightarrow> sent w' = sent w \<or> (\<exists>x. sent w' = sent w @ [x] \<and> P (action_of x))"
  unfolding sends_def by blast

lemma keeps_simps [simp]:
  "keeps (return_io x)" "keeps (fail_io e)" "keeps (pure s)" "keeps (pure_go g)"
  "keeps (\<lambda>w. pure (h w) w)"
  by (auto simp: keeps_def)

lemma keeps_call [intro]: "(\<And>w r w'. f w = (r, w') \<Longrightarrow> sent w' = sent w) \<Longrightarrow> keeps (call f)"
  by (auto simp: keeps_def)

lemma keeps_rpc_call [intro]: "(\<And>w r w'. f w = (r, w') \<Longrightarrow> sent w' = sent w) \<Longrightarrow> keeps (rpc_call f)"
  unfolding keeps_def
proof (intro allI impI)
  fix w r w' assume "\<And>w r w'. f w = (r, w') \<Longrightarrow> sent w' = sent w" "rpc_call f w = Some (r, w')"
  then show "sent w' = sent w" by (cases r) auto
qed

lemma keeps_attempt [intro]: "keeps m \<Longrightarrow> (\<And>x. keeps (k x)) \<Longrightarrow> keeps (attempt m k)"
  unfolding keeps_def attempt_Some by metis

lemma keeps_sends [intro]: "keeps m \<Longrightarrow> sends m P"
  by (auto simp: keeps_def sends_def)

lemma sends_attempt [intro]:
  assumes "keeps m" "\<And>x w w'. m w = Some (Inr x, w') \<Longrightarrow> sends (k x) P"
  shows "sends (attempt m k) P"
  unfolding sends_def attempt_Some
proof (intro allI impI)
  fix w r w'
  assume "(\<exists>err. m w = Some (Inl err, w') \<and> r = Inl err) \<or> (\<exists>x w1. m w = Some (Inr x, w1) \<and> k x w1 = Some (r, w'))"
  then show "sent w' = sent w \<or> (\<exists>x. sent w' = sent w @ [x] \<and> P (action_of x))"
  proof (elim disjE exE conjE)
    fix x w1 assume 1: "m w = Some (Inr x, w1)" "k x w1 = Some (r, w')"
    then have "sent w1 = sent w" using assms(1) by (simp add: keeps_def)
    with sendsD [OF assms(2) [OF 1(1)] 1(2)] show ?thesis by simp
  qed (use assms(1) in \<open>auto simp: keeps_def\<close>)
qed

lemma sends_or_nil [intro]:
  assumes "keeps m" "\<And>x w w'. m w = Some (Inr x, w') \<Longrightarrow> sends (k x) P"
  shows "sends (or_nil m k) P"
  unfolding sends_def
proof (intro allI impI)
  fix w r w' assume "or_nil m k w = Some (r, w')"
  then obtain r1 w1 where 1: "m w = Some (r1, w1)"
    "(case r1 of Inl err \<Rightarrow> Some (Inr (), w1) | Inr x \<Rightarrow> k x w1) = Some (r, w')"
    by (auto simp: or_nil_def bind_eq_Some_conv)
  have w1: "sent w1 = sent w" using 1(1) assms(1) by (simp add: keeps_def)
  show "sent w' = sent w \<or> (\<exists>x. sent w' = sent w @ [x] \<and> P (action_of x))"
  proof (cases r1)
    case (Inr x)
    with 1 have "m w = Some (Inr x, w1)" "k x w1 = Some (r, w')" by simp_all
    from sendsD [OF assms(2) [OF this(1)] this(2)] w1 show ?thesis by simp
  qed (use 1(2) w1 in simp)
qed

text \<open>The prompt for a confirmation can be answered with yes.\<close>

definition yes :: bool where "yes \<longleftrightarrow> (\<exists>w w'. PromptContinue (CE_handler E) w = (Inr True, w'))"

lemma sends_confirmed [intro]: "(yes \<Longrightarrow> sends k P) \<Longrightarrow> sends (confirmed (CE_handler E) k) P"
  unfolding confirmed_def
proof (rule sends_attempt)
  fix x w w'
  assume k: "yes \<Longrightarrow> sends k P" and "call (PromptContinue (CE_handler E)) w = Some (Inr x, w')"
  then have "x \<Longrightarrow> yes" by (auto simp: yes_def)
  with k show "sends (if x then k else return_io ()) P" by auto
qed (auto intro: handler_keeps)

lemma Client_keeps:
  "Client_Balance (CE_rpc E) cli t w = (r, w') \<Longrightarrow> sent w' = sent w"
  "Client_VerifyStatus (CE_rpc E) cli i w = (r', w') \<Longrightarrow> sent w' = sent w"
  "Client_Parser (CE_rpc E) cli w = (r'', cli', w') \<Longrightarrow> sent w' = sent w"
  by (auto simp: Client_Balance_def Client_VerifyStatus_def Client_Parser_def Client_Genesis_def Let_def
      split: prod.splits if_splits dest: rpc_keeps)

lemma keeps_split [intro]: "(\<And>a b. keeps (k a b)) \<Longrightarrow> keeps (case p of (a, b) \<Rightarrow> k a b)"
  by (cases p) simp

lemma calls_keep [simp]:
  "keeps (call (GetDefaultKey (CE_handler E) b))" "keeps (call (GetDefaultChain (CE_handler E) b))"
  "keeps (call (PromptAddress (CE_handler E) l))" "keeps (call (PromptAmount (CE_handler E) l d v))"
  "keeps (call (PromptInt (CE_handler E) l m))" "keeps (call (PromptString (CE_handler E) l m m'))"
  "keeps (call (PromptID (CE_handler E) l))" "keeps (call (PromptContinue (CE_handler E)))"
  "keeps (call (Sdk_Network (CE_sdk E) uri))" "keeps (call (Sdk_NewWebSocketClient (CE_sdk E) uri))"
  by (auto dest: handler_keeps sdk_keeps)

lemma rpc_calls_keep [simp]:
  "keeps (rpc_call (Client_Balance (CE_rpc E) cli t))" "keeps (rpc_call (Client_VerifyStatus (CE_rpc E) cli i))"
  by (auto dest: Client_keeps)

lemma actor_keeps [simp]: "keeps (actor_of E)"
  unfolding actor_of_def DefaultActor_def
  by (rule keeps_attempt keeps_split | simp)+

lemma skips_keeps: "skips (Sdk_ListenTx (CE_sdk E) ws) i n w w' \<Longrightarrow> sent w' = sent w"
  by (induction rule: skips.induct) (auto dest: sdk_keeps(4))

lemma await_keeps: "keeps (await_tx (Sdk_ListenTx (CE_sdk E) ws) i)"
  unfolding keeps_def await_iff by (auto dest!: skips_keeps sdk_keeps(4))

lemma send_tx_sends:
  assumes "P a"
  shows "sends (send_tx (CE_handler E) (CE_sdk E) p a jcli ws f b) P"
  unfolding send_tx_def
proof (rule sends_attempt)
  show "keeps (Sdk_GenerateTransaction (CE_sdk E) jcli p a f)"
    by (auto simp: keeps_def dest: sdk_keeps(3))
  fix tx w w' assume tx: "Sdk_GenerateTransaction (CE_sdk E) jcli p a f w = Some (Inr tx, w')"
  let ?k = "attempt (await_tx (Sdk_ListenTx (CE_sdk E) ws) (Sdk_TxID (CE_sdk E) tx)) (\<lambda>result w.
      let w = if b then PrintStatus (CE_handler E) (Sdk_TxID (CE_sdk E) tx) (Result_Success result) w else w
      in return_io (Result_Success result, Sdk_TxID (CE_sdk E) tx) w)"
  have k: "keeps ?k"
    by (rule keeps_attempt [OF await_keeps]) (auto simp: keeps_def Let_def status_keeps)
  show "sends (attempt (call (Sdk_RegisterTx (CE_sdk E) ws tx)) (\<lambda>_. ?k)) P"
    unfolding sends_def
  proof (intro allI impI)
    fix v r v' assume "attempt (call (Sdk_RegisterTx (CE_sdk E) ws tx)) (\<lambda>_. ?k) v = Some (r, v')"
    then obtain q v1 where "Sdk_RegisterTx (CE_sdk E) ws tx v = (q, v1)" "v' = v1 \<or> ?k v1 = Some (r, v')"
      by auto
    moreover from this(2) k have "sent v' = sent v1" by (auto simp: keeps_def)
    ultimately show "sent v' = sent v \<or> (\<exists>x. sent v' = sent v @ [x] \<and> P (action_of x))"
      using registers [of ws tx v] generated [OF tx] assms by fastforce
  qed
qed

lemma sendAndWait_sends:
  assumes "P a" "sendAndWait (CE_handler E) (CE_sdk E) (CE_rpc E) a jcli ws f b bcli w = Some (r, bcli', w')"
  shows "sent w' = sent w \<or> (\<exists>x. sent w' = sent w @ [x] \<and> P (action_of x))"
proof -
  obtain p err c w1 where p: "Client_Parser (CE_rpc E) bcli w = ((p, err), c, w1)" by (metis prod.exhaust)
  note w1 = Client_keeps(3) [OF p]
  show ?thesis
  proof (cases err)
    case None
    with assms(2) p obtain q r where "send_tx (CE_handler E) (CE_sdk E) q a jcli ws f b w1 = Some (r, w')"
      by (auto simp: sendAndWait_def bind_eq_Some_conv)
    from sendsD [OF send_tx_sends [of P, OF assms(1)] this] w1 show ?thesis by simp
  qed (use assms(2) p w1 in \<open>simp add: sendAndWait_def\<close>)
qed

lemma send_action_sends: "P a \<Longrightarrow> sends (send_action E act a) P"
  unfolding sends_def
proof (intro allI impI)
  fix w r w' assume a: "P a" and "send_action E act a w = Some (r, w')"
  then obtain q c where "sendAndWait (CE_handler E) (CE_sdk E) (CE_rpc E) a (Actor_jcli act) (Actor_ws act)
      (Actor_factory act) True (Actor_bcli act) w = Some (q, c, w')"
    by (auto simp: send_action_def bind_eq_Some_conv)
  from sendAndWait_sends [of P, OF a this]
  show "sent w' = sent w \<or> (\<exists>x. sent w' = sent w @ [x] \<and> P (action_of x))" .
qed

lemma Handler_GetBalance_keeps [simp]: "keeps (Handler_GetBalance E cli a)"
  unfolding Handler_GetBalance_def by (rule keeps_attempt | simp)+

lemma verify_action_keeps [simp]: "keeps (verify_action (CE_handler E) i v t b)"
  unfolding verify_action_def by (simp split: if_split, (rule impI conjI keeps_attempt | simp)+)

lemma verify_action_timeout:
  "verify_action H i v t b w = Some (Inr a, w') \<Longrightarrow> (case a of None \<Rightarrow> t = 6 | Some a \<Rightarrow> action_timeout a = Some b)"
  by (auto simp: verify_action_def split: if_splits)

text \<open>Each command, with what it may submit when a confirmation can be given.\<close>

lemma transferCmd_sends:
  "sends (transferCmd E) (\<lambda>a. yes \<and> (\<exists>t w w'. a = Some (ActionTransfer t) \<and>
    PromptAddress (CE_handler E) ''recipient'' w = (Inr (Transfer_To t), w')))"
  unfolding transferCmd_def
  by (rule sends_attempt sends_confirmed send_action_sends impI conjI | simp add: keeps_sends | blast)+

lemma registerCmd_sends: "sends (registerCmd E) (\<lambda>a. yes \<and> (\<exists>t. a = Some (ActionRegister t)))"
  unfolding registerCmd_def by (rule sends_attempt sends_confirmed send_action_sends | simp)+

lemma registerImageCmd_sends: "sends (registerImageCmd E) (\<lambda>a. yes \<and> (\<exists>t. a = Some (ActionRegisterImage t)))"
  unfolding registerImageCmd_def
  by (rule sends_attempt sends_or_nil sends_confirmed send_action_sends | simp)+

lemma verifyCmd_sends:
  "sends (verifyCmd E) (\<lambda>a. yes \<and> (case a of None \<Rightarrow> True | Some a \<Rightarrow> action_timeout a \<noteq> None))"
  unfolding verifyCmd_def
  by (rule sends_attempt sends_confirmed send_action_sends | simp)+
    (auto dest!: verify_action_timeout split: option.splits)

lemma broadcastCmd_keeps: "sends (broadcastCmd E) (\<lambda>a. False)"
proof -
  have readable: "keeps (\<lambda>w. case ReadFile E f w of Inl err \<Rightarrow> None | Inr data \<Rightarrow> Some (Inr data, w))" for f
    by (auto simp: keeps_def split: sum.splits)
  have chunks: "keeps (\<lambda>w. return_io () (Sdk_SubmitChunks (CE_sdk E) uri img t c data w))" for uri img t c data
    by (simp add: keeps_def chunks_keep)
  show ?thesis
    unfolding broadcastCmd_def
    by (rule sends_attempt sends_or_nil sends_confirmed keeps_sends [OF chunks] readable | simp)+
qed

lemma verifyStatusCmd_keeps: "keeps (verifyStatusCmd E)"
  unfolding verifyStatusCmd_def by (rule impI keeps_attempt | simp)+

lemma command_sends: "sends (run_command E c) (\<lambda>a. yes \<and> submits (CE_handler E) c a)"
  using transferCmd_sends registerCmd_sends registerImageCmd_sends verifyCmd_sends broadcastCmd_keeps
    keeps_sends [OF keeps_attempt [OF verifyStatusCmd_keeps keeps_simps(1)]]
  by (cases c) simp_all

lemma command_submits:
  assumes "run_command E c w = Some (r, w')"
  shows "sent w' = sent w \<or> (\<exists>x v v'. sent w' = sent w @ [x] \<and> submits (CE_handler E) c (action_of x) \<and>
    PromptContinue (CE_handler E) v = (Inr True, v'))"
  using sendsD [OF command_sends assms] unfolding yes_def by blast

end

section \<open>A reference environment\<close>

definition ref_rpc :: "(nat, cli_world) rpc_requester" where
  "ref_rpc =
    \<lparr>Send_genesis = (\<lambda>m r w. ((None, r\<lparr>GenesisReply_Genesis := Some (Default ref_merkledb)\<rparr>), w)),
     Send_tx = (\<lambda>m a r w. ((None, r), w)),
     Send_balance = (\<lambda>m a r w. ((None, r\<lparr>BalanceReply_Amount := 100\<rparr>), w)),
     Send_bytes = (\<lambda>m b w. (None, w)), Send_verifyStatus = (\<lambda>m a r w. ((None, r), w)), ErrorText = ref_text\<rparr>"

definition ref_cli ::
  "i64 \<Rightarrow> bool \<Rightarrow> (nat \<times> 384 word, nat \<times> 768 word, 384 word, unit, ID \<times> action option, nat, cli_world) cli_env" where
  "ref_cli n yes =
    \<lparr>CE_keys = ref_keys, CE_handler = ref_handler n yes, CE_sdk = ref_sdk, CE_rpc = ref_rpc,
     AddressBech32 = (\<lambda>hrp a. Inr ''a''), CE_ParseAddressBech32 = ref_bech32,
     ReadFile = (\<lambda>f w. case W_files w f of None \<Rightarrow> Inl (ErrExternal ''no such file'') | Some b \<Rightarrow> Inr b),
     WriteFile = (\<lambda>f b w. (Inr (), w\<lparr>W_files := (W_files w)(f \<mapsto> b)\<rparr>))\<rparr>"

interpretation ref_cli: cli_world_spec "ref_cli n yes" W_sent snd for n yes
  by unfold_locales
    (auto simp: ref_cli_def ref_handler_def ref_sdk_def ref_rpc_def split: list.splits)

text \<open>A node with a default key of 48 bytes and two results to come.\<close>

definition ref_world :: cli_world where
  "ref_world = empty_world\<lparr>W_keys := [NewBLSAddress ref_address_lib ref_bls (1, 7) \<mapsto> be_bytes 48 (7 :: 384 word)],
    W_default := Some (NewBLSAddress ref_address_lib ref_bls (1, 7)),
    W_results := [(5, Inr \<lparr>Result_Success = False, Result_Consumed = [], Result_Fee = 0\<rparr>),
      (9, Inr \<lparr>Result_Success = True, Result_Consumed = [], Result_Fee = 0\<rparr>)]\<rparr>"

lemma ref_actor:
  obtains act where "actor_of (ref_cli n yes) ref_world = Some (Inr act, ref_world)" "Actor_jcli act = ''uri''"
    "Actor_bcli act = NewJSONRPCClient ''uri'' 1 2"
proof -
  have "well_made (ref_keys :: (nat \<times> 384 word, nat \<times> 768 word, 384 word, cli_world) key_lib) blsKey
      \<lparr>PrivateKey_Address = NewBLSAddress ref_address_lib ref_bls (1, 7), PrivateKey_Bytes = be_bytes 48 (7 :: 384 word)\<rparr>"
    by (rule ref_keys.generated_well_made [OF ref_generated])
  then obtain f where f: "default_factory (ref_keys :: (nat \<times> 384 word, nat \<times> 768 word, 384 word, cli_world) key_lib)
      (NewBLSAddress ref_address_lib ref_bls (1, 7)) (be_bytes 48 (7 :: 384 word)) = Some (Inr f)"
    by (auto simp: well_made_def)
  then show thesis
    by (intro that [of "\<lparr>Actor_chainID = 2, Actor_priv = \<lparr>PrivateKey_Address = NewBLSAddress ref_address_lib ref_bls (1, 7),
        PrivateKey_Bytes = be_bytes 48 7\<rparr>, Actor_factory = f, Actor_jcli = ''uri'',
        Actor_bcli = NewJSONRPCClient ''uri'' 1 2, Actor_ws = ()\<rparr>"])
      (simp_all add: actor_of_def ref_cli_def ref_world_def DefaultActor_def ref_handler_def ref_sdk_def index_def f
        del: One_nat_def)
qed

lemma ref_parser:
  "\<exists>p cli. Client_Parser ref_rpc (NewJSONRPCClient ''uri'' 1 2) w = ((Some p, None), cli, w)"
  by (simp add: Client_Parser_def Client_Genesis_def NewJSONRPCClient_def ref_rpc_def)

text \<open>One result of another transaction is skipped, then the own one arrives.\<close>

theorem send_and_wait_witness:
  "\<exists>b w'. sendAndWait (ref_handler 1 True) ref_sdk ref_rpc (Some (ActionRegister \<lparr>Register_ProovingSystem = 1\<rparr>)) ''uri'' ()
    (FactoryBLS (NewBLSFactory 7)) False (NewJSONRPCClient ''uri'' 1 2) ref_world = Some (Inr (True, 9), b, w')"
proof -
  let ?a = "Some (ActionRegister \<lparr>Register_ProovingSystem = 1\<rparr>)"
  obtain p cli where p: "Client_Parser ref_rpc (NewJSONRPCClient ''uri'' 1 2) ref_world = ((Some p, None), cli, ref_world)"
    using ref_parser by blast
  let ?w = "ref_world\<lparr>W_sent := [(9, ?a)]\<rparr>"
  let ?r = "\<lparr>Result_Success = True, Result_Consumed = [], Result_Fee = 0\<rparr>"
  have gen: "Sdk_GenerateTransaction ref_sdk ''uri'' p ?a (FactoryBLS (NewBLSFactory 7)) ref_world = Some (Inr (9, ?a), ref_world)"
    and reg: "Sdk_RegisterTx ref_sdk () (9, ?a) ref_world = (Inr (), ?w)"
    by (simp_all add: ref_sdk_def ref_world_def empty_world_def return_io_def)
  let ?v = "?w\<lparr>W_results := [(9, Inr ?r)]\<rparr>"
  have id: "Sdk_TxID ref_sdk (9, ?a) = 9"
    by (simp add: ref_sdk_def)
  have skip: "skips (Sdk_ListenTx ref_sdk ()) 9 (Suc 0) ?w ?v"
    by (rule skips_Suc [where j = 5, OF _ _ skips_0]) (simp_all add: ref_sdk_def ref_world_def)
  have own: "Sdk_ListenTx ref_sdk () ?v = (Inr (9, Inr ?r), ?v\<lparr>W_results := []\<rparr>)"
    by (simp add: ref_sdk_def)
  have result: "arrives (Inr (9, Inr ?r)) 9 (Inr ?r)" "Inr (True, 9) = map_sum id (\<lambda>r. (Result_Success r, 9)) (Inr ?r)"
    by (simp_all add: arrives_def)
  show ?thesis
    by (rule exI, rule exI, rule send_and_wait [OF p gen reg, THEN iffD2], unfold id)
      (rule conjI [OF refl], rule exI, rule exI, rule exI, rule exI, rule conjI [OF skip conjI [OF own conjI [OF result]]])
qed

lemma ref_await:
  "\<exists>w'. await_tx (Sdk_ListenTx ref_sdk ()) 9 (ref_world\<lparr>W_sent := x\<rparr>) =
    Some (Inr \<lparr>Result_Success = True, Result_Consumed = [], Result_Fee = 0\<rparr>, w') \<and> W_sent w' = x"
  by (subst await_tx.simps, simp add: ref_sdk_def ref_world_def, subst await_tx.simps, simp)

lemma ref_sendAndWait:
  obtains b w' where "sendAndWait (ref_handler n yes) ref_sdk ref_rpc a ''uri'' () f ps (NewJSONRPCClient ''uri'' 1 2) ref_world =
    Some (Inr (True, 9), b, w')" "W_sent w' = [(9, a)]"
proof -
  obtain p cli where p: "Client_Parser ref_rpc (NewJSONRPCClient ''uri'' 1 2) ref_world = ((Some p, None), cli, ref_world)"
    using ref_parser by blast
  obtain w' where w': "await_tx (Sdk_ListenTx ref_sdk ()) 9 (ref_world\<lparr>W_sent := [(9, a)]\<rparr>) =
    Some (Inr \<lparr>Result_Success = True, Result_Consumed = [], Result_Fee = 0\<rparr>, w')" "W_sent w' = [(9, a)]"
    using ref_await by blast
  have sdk: "Sdk_GenerateTransaction ref_sdk u q a f = return_io (9, a)" "Sdk_TxID ref_sdk = fst"
    "call (Sdk_RegisterTx ref_sdk ws x) = (\<lambda>w. Some (Inr (), w\<lparr>W_sent := W_sent w @ [x]\<rparr>))"
    "PrintStatus (ref_handler n yes) i ok w = w" for u q ws x i ok w
    by (simp_all add: ref_sdk_def ref_handler_def call_def fun_eq_iff)
  have "W_sent ref_world = []"
    by (simp add: ref_world_def empty_world_def)
  then have "sendAndWait (ref_handler n yes) ref_sdk ref_rpc a ''uri'' () f ps (NewJSONRPCClient ''uri'' 1 2) ref_world =
      Some (Inr (True, 9), cli, w')"
    by (simp add: sendAndWait_def p send_tx_def sdk w' bind_eq_Some_conv Let_def)
  then show thesis using w'(2) by (rule that)
qed

lemma ref_register:
  obtains w' where "run_command (ref_cli 3 True) RegisterCommand ref_world = Some (Inr (), w')" "length (W_sent w') = 1"
proof -
  obtain act where act: "actor_of (ref_cli 3 True) ref_world = Some (Inr act, ref_world)" "Actor_jcli act = ''uri''"
    "Actor_bcli act = NewJSONRPCClient ''uri'' 1 2"
    by (rule ref_actor)
  obtain b w' where w': "sendAndWait (ref_handler 3 True) ref_sdk ref_rpc (Some (ActionRegister \<lparr>Register_ProovingSystem = 3\<rparr>))
      ''uri'' () (Actor_factory act) True (NewJSONRPCClient ''uri'' 1 2) ref_world = Some (Inr (True, 9), b, w')"
    "W_sent w' = [(9, Some (ActionRegister \<lparr>Register_ProovingSystem = 3\<rparr>))]"
    by (rule ref_sendAndWait)
  have cli: "CE_handler (ref_cli 3 True) = ref_handler 3 True" "CE_sdk (ref_cli 3 True) = ref_sdk"
    "CE_rpc (ref_cli 3 True) = ref_rpc" "PromptContinue (ref_handler 3 True) w = (Inr True, w)"
    "PromptInt (ref_handler 3 True) l m w = (Inr 3, w)" for w l m
    by (simp_all add: ref_cli_def ref_handler_def)
  have "run_command (ref_cli 3 True) RegisterCommand ref_world = Some (Inr (), w')"
    by (simp add: registerCmd_def act cli confirmed_def send_action_def w'(1) ex_bool_eq)
  then show thesis by (rule that) (simp add: w'(2))
qed

lemma ref_no_register:
  obtains w' where "run_command (ref_cli 3 False) RegisterCommand ref_world = Some (Inr (), w')"
proof -
  obtain act where act: "actor_of (ref_cli 3 False) ref_world = Some (Inr act, ref_world)"
    by (rule ref_actor)
  have cli: "PromptContinue (CE_handler (ref_cli 3 False)) w = (Inr False, w)"
    "PromptInt (CE_handler (ref_cli 3 False)) l m w = (Inr 3, w)" for w l m
    by (simp_all add: ref_cli_def ref_handler_def)
  have "run_command (ref_cli 3 False) RegisterCommand ref_world = Some (Inr (), ref_world)"
    by (simp add: registerCmd_def confirmed_def act cli ex_bool_eq)
  then show thesis by (rule that)
qed

section \<open>The claim about the commands\<close>

text \<open>
  A command submits at most one transaction, and only when the user can confirm: \<open>transfer\<close>
  one that pays a recipient that was answered to its prompt, \<open>register\<close> and \<open>register-image\<close>
  their action, \<open>verify\<close> the submission of a proof (or, for the sixth type, no action at all);
  \<open>broadcast\<close> and \<open>verify-status\<close> submit nothing.
\<close>

theorem commands_submit:
  assumes "cli_world_spec E sent action_of" "run_command E c w = Some (r, w')"
  shows "sent w' = sent w \<or> (\<exists>x v v'. sent w' = sent w @ [x] \<and> submits (CE_handler E) c (action_of x) \<and>
    PromptContinue (CE_handler E) v = (Inr True, v'))"
  by (rule cli_world_spec.command_submits [OF assms])

text \<open>A registration by the reference client, with and without the user's confirmation.\<close>

theorem commands_submit_witness:
  "(\<exists>w'. run_command (ref_cli 3 True) RegisterCommand ref_world = Some (Inr (), w') \<and>
    (\<exists>x. W_sent w' = [x] \<and> submits (ref_handler 3 True) RegisterCommand (snd x))) \<and>
   (\<exists>w'. run_command (ref_cli 3 False) RegisterCommand ref_world = Some (Inr (), w') \<and> W_sent w' = [])"
proof -
  have yes: "\<exists>w'. run_command (ref_cli 3 True) RegisterCommand ref_world = Some (Inr (), w') \<and> length (W_sent w') = 1"
    by (rule ref_register) blast
  have no: "\<exists>w'. run_command (ref_cli 3 False) RegisterCommand ref_world = Some (Inr (), w')"
    by (rule ref_no_register) blast
  have start: "W_sent ref_world = []"
    by (simp add: ref_world_def empty_world_def)
  have handler: "CE_handler (ref_cli 3 True) = ref_handler 3 True"
    by (simp add: ref_cli_def)
  have never: "PromptContinue (CE_handler (ref_cli 3 False)) v \<noteq> (Inr True, v')" for v v'
    by (simp add: ref_cli_def ref_handler_def)
  show ?thesis
  proof (rule conjI)
    from yes obtain w' where w': "run_command (ref_cli 3 True) RegisterCommand ref_world = Some (Inr (), w')"
      "length (W_sent w') = 1" by blast
    from commands_submit [OF ref_cli.cli_world_spec_axioms w'(1)] w'(2) start obtain x where
      "W_sent w' = [x]" "submits (CE_handler (ref_cli 3 True)) RegisterCommand (snd x)" by auto
    with w'(1) show "\<exists>w'. run_command (ref_cli 3 True) RegisterCommand ref_world = Some (Inr (), w') \<and>
        (\<exists>x. W_sent w' = [x] \<and> submits (ref_handler 3 True) RegisterCommand (snd x))"
      by (cases x) (auto simp: handler)
  next
    from no obtain w' where w': "run_command (ref_cli 3 False) RegisterCommand ref_world = Some (Inr (), w')" by blast
    from commands_submit [OF ref_cli.cli_world_spec_axioms w'] start never have "W_sent w' = []" by auto
    with w' show "\<exists>w'. run_command (ref_cli 3 False) RegisterCommand ref_world = Some (Inr (), w') \<and> W_sent w' = []"
      by blast
  qed
qed

section \<open>The genesis file\<close>

text \<open>The files of the world, and a JSON codec that reads back what it wrote.\<close>

locale file_system =
  fixes E :: "('k, 'g, 'sk, 'ws, 'x, 'bf, 'w) cli_env" and files :: "'w \<Rightarrow> string \<rightharpoonup> bytes"
  assumes ReadFile_reads: "ReadFile E f w = Inr b \<Longrightarrow> files w f = Some b"
    and WriteFile_writes: "WriteFile E f b w = (Inr u, w') \<Longrightarrow> files w' = (files w)(f \<mapsto> b)"

locale genesis_codec =
  fixes G :: "'bf genesis_lib" and unmarshal :: "bytes \<Rightarrow> 'bf genesis \<Rightarrow> error + 'bf genesis"
  assumes read_back: "MarshalGenesis G g = Inr b \<Longrightarrow> b \<noteq> [] \<and> unmarshal b d = Inr g"

interpretation ref_files: file_system "ref_cli n yes" W_files for n yes
  by unfold_locales (auto simp: ref_cli_def split: option.splits)

text \<open>The dimensions of a flag, or those of the default.\<close>

definition flagged :: "'bf genesis_lib \<Rightarrow> string list \<Rightarrow> dimensions \<Rightarrow> dimensions \<Rightarrow> bool" where
  "flagged G flag dflt d \<longleftrightarrow> (if flag = [] then d = dflt else ParseDimensions G flag = Inr d)"

lemma flag_dimensions_flagged:
  assumes "flag_dimensions G flag upd g = Inr g'" "upd dflt = g"
  obtains d where "g' = upd d" "flagged G flag dflt d"
  using assms that by (auto simp: flag_dimensions_def flagged_def split: if_splits sum.splits)

text \<open>
  C27: what \<open>genesis generate\<close> writes is the genesis that a node loads from the file: the
  defaults with the prices, limits, targets and block gap of the flags that are given, and
  with the allocations of the file that was named.
\<close>

theorem genesis_file_loads:
  assumes "file_system E files" "genesis_codec G unmarshal"
    and "genGenesisCmd E B G F [file] w = Some (Inr u, w')"
  shows "\<exists>a allocs b p m t. files w file = Some a \<and> UnmarshalAllocations G a = Inr allocs \<and>
    files w' = (files w)(GF_genesisFile F \<mapsto> b) \<and>
    Genesis_New B unmarshal b upgrade = Inr ((Default B)\<lparr>MinUnitPrice := p, MaxBlockUnits := m,
      WindowTargetUnits := t,
      MinBlockGap := (if 0 \<le> sint (GF_minBlockGap F) then GF_minBlockGap F else MinBlockGap (Default B)),
      CustomAllocation := allocs\<rparr>) \<and>
    flagged G (GF_minUnitPrice F) (MinUnitPrice (Default B)) p \<and>
    flagged G (GF_maxBlockUnits F) (MaxBlockUnits (Default B)) m \<and>
    flagged G (GF_windowTargetUnits F) (WindowTargetUnits (Default B)) t"
proof -
  let ?D = "Default B"
  obtain g1 g2 g3 a allocs b where
    1: "flag_dimensions G (GF_minUnitPrice F) (\<lambda>d. ?D\<lparr>MinUnitPrice := d\<rparr>) ?D = Inr g1"
    and 2: "flag_dimensions G (GF_maxBlockUnits F) (\<lambda>d. g1\<lparr>MaxBlockUnits := d\<rparr>) g1 = Inr g2"
    and 3: "flag_dimensions G (GF_windowTargetUnits F) (\<lambda>d. g2\<lparr>WindowTargetUnits := d\<rparr>) g2 = Inr g3"
    and a: "ReadFile E file w = Inr a" "UnmarshalAllocations G a = Inr allocs"
    and b: "MarshalGenesis G ((if 0 \<le> sint (GF_minBlockGap F) then g3\<lparr>MinBlockGap := GF_minBlockGap F\<rparr> else g3)
        \<lparr>CustomAllocation := allocs\<rparr>) = Inr b"
      "WriteFile E (GF_genesisFile F) b w = (Inr u, w')"
    using assms(3) by (auto simp: genGenesisCmd_def Let_def index_def)
  obtain p where p: "g1 = ?D\<lparr>MinUnitPrice := p\<rparr>" "flagged G (GF_minUnitPrice F) (MinUnitPrice ?D) p"
    by (rule flag_dimensions_flagged [OF 1, of "MinUnitPrice ?D"]) simp
  obtain m where m: "g2 = g1\<lparr>MaxBlockUnits := m\<rparr>" "flagged G (GF_maxBlockUnits F) (MaxBlockUnits ?D) m"
    by (rule flag_dimensions_flagged [OF 2, of "MaxBlockUnits ?D"]) (simp add: p)
  obtain t where t: "g3 = g2\<lparr>WindowTargetUnits := t\<rparr>" "flagged G (GF_windowTargetUnits F) (WindowTargetUnits ?D) t"
    by (rule flag_dimensions_flagged [OF 3, of "WindowTargetUnits ?D"]) (simp add: m p)
  let ?g = "?D\<lparr>MinUnitPrice := p, MaxBlockUnits := m, WindowTargetUnits := t,
    MinBlockGap := (if 0 \<le> sint (GF_minBlockGap F) then GF_minBlockGap F else MinBlockGap ?D), CustomAllocation := allocs\<rparr>"
  have "MarshalGenesis G ?g = Inr b"
    using b(1) by (simp add: p m t split: if_splits)
  from genesis_codec.read_back [OF assms(2) this] have "Genesis_New B unmarshal b upgrade = Inr ?g"
    by (simp add: Genesis_New_def)
  with file_system.ReadFile_reads [OF assms(1) a(1)] file_system.WriteFile_writes [OF assms(1) b(2)] a(2) p(2) m(2) t(2)
  show ?thesis by blast
qed

text \<open>Two allocations, a block gap of 50, and a codec that knows this genesis.\<close>

definition ref_generated_genesis :: "nat genesis" where
  "ref_generated_genesis = (Default ref_merkledb)\<lparr>MinBlockGap := 50, CustomAllocation := two_allocations\<rparr>"

definition ref_genesis_lib :: "nat genesis_lib" where
  "ref_genesis_lib =
    \<lparr>ParseDimensions = (\<lambda>ts. Inl (ErrExternal ''dimensions'')), UnmarshalAllocations = (\<lambda>a. Inr two_allocations),
     MarshalGenesis = (\<lambda>g. if g = ref_generated_genesis then Inr [1] else Inl (ErrExternal ''json''))\<rparr>"

definition ref_unmarshal :: "bytes \<Rightarrow> nat genesis \<Rightarrow> error + nat genesis" where
  "ref_unmarshal b d = (if b = [1] then Inr ref_generated_genesis else Inl (ErrExternal ''json''))"

interpretation ref_codec: genesis_codec ref_genesis_lib ref_unmarshal
  by unfold_locales (auto simp: ref_genesis_lib_def ref_unmarshal_def split: if_splits)

theorem genesis_file_loads_witness:
  "\<exists>w' b. genGenesisCmd (ref_cli 1 True) ref_merkledb ref_genesis_lib (default_genesis_flags\<lparr>GF_minBlockGap := 50\<rparr>)
      [''allocations''] (empty_world\<lparr>W_files := [''allocations'' \<mapsto> [1]]\<rparr>) = Some (Inr (), w') \<and>
    W_files w' ''genesis.json'' = Some b \<and>
    Genesis_New ref_merkledb ref_unmarshal b [] = Inr ref_generated_genesis"
proof -
  obtain w' where w': "genGenesisCmd (ref_cli 1 True) ref_merkledb ref_genesis_lib (default_genesis_flags\<lparr>GF_minBlockGap := 50\<rparr>)
      [''allocations''] (empty_world\<lparr>W_files := [''allocations'' \<mapsto> [1]]\<rparr>) = Some (Inr (), w')"
    by (simp add: genGenesisCmd_def default_genesis_flags_def flag_dimensions_def ref_cli_def index_def ref_genesis_lib_def
        ref_generated_genesis_def empty_world_def Let_def)
  from genesis_file_loads [OF ref_files.file_system_axioms ref_codec.genesis_codec_axioms w', of "[]"] obtain allocs b p m t where
    g: "UnmarshalAllocations ref_genesis_lib [1] = Inr allocs"
    "W_files w' ''genesis.json'' = Some b"
    "Genesis_New ref_merkledb ref_unmarshal b [] = Inr ((Default ref_merkledb)\<lparr>MinUnitPrice := p, MaxBlockUnits := m,
      WindowTargetUnits := t, MinBlockGap := 50, CustomAllocation := allocs\<rparr>)"
    "p = MinUnitPrice (Default ref_merkledb)" "m = MaxBlockUnits (Default ref_merkledb)"
    "t = WindowTargetUnits (Default ref_merkledb)"
    by (auto simp: default_genesis_flags_def flagged_def)
  then have "Genesis_New ref_merkledb ref_unmarshal b [] = Inr ref_generated_genesis"
    by (simp add: ref_generated_genesis_def ref_genesis_lib_def)
  with w' g(2) show ?thesis by blast
qed

section \<open>Load generation and reports\<close>

text \<open>
  The dummy transactions of the load generator move nothing: what \<open>submitDummy\<close> submits is a
  transfer of the account to itself, and executing it for that account succeeds exactly when
  the amount is not zero and covered, and leaves every account as it was.
\<close>

theorem dummy_moves_nothing:
  assumes "cli_world_spec E sent action_of"
    and "spam_submitDummy E jcli priv ws count bclient w = Some (r, b, w')" "sent w' = sent w @ [x]"
    and "state_view M kv scope" "checked_math A" "wf_balances (kv s)" "BalanceKey (PrivateKey_Address priv) \<in> scope"
  shows "\<exists>t res s'. action_of x = Some (ActionTransfer t) \<and>
    Transfer_Execute A M t s ts (PrivateKey_Address priv) tx = Some (res, s') \<and>
    (success res \<longleftrightarrow> count \<noteq> 0 \<and> count \<le> amount_of (account (kv s) (PrivateKey_Address priv))) \<and>
    (success res \<longrightarrow> account (kv s') = account (kv s))"
proof -
  let ?t = "\<lparr>Transfer_To = PrivateKey_Address priv, Transfer_Value = count\<rparr>"
  obtain factory where factory: "getFactory (CE_keys E) priv = Some factory"
    using assms(2) by (auto simp: spam_submitDummy_def bind_eq_Some_conv)
  obtain f q where "sendAndWait (CE_handler E) (CE_sdk E) (CE_rpc E) (Some (ActionTransfer ?t)) jcli ws f False bclient w =
      Some (q, b, w')"
    using assms(2,3) factory by (cases factory) (auto simp: spam_submitDummy_def bind_eq_Some_conv)
  then have x: "action_of x = Some (ActionTransfer ?t)"
    using cli_world_spec.sendAndWait_sends [OF assms(1), of "\<lambda>a. a = Some (ActionTransfer ?t)", OF refl] assms(3) by fastforce
  obtain res s' where e: "Transfer_Execute A M ?t s ts (PrivateKey_Address priv) tx = Some (res, s')"
    "success res \<longleftrightarrow> transfer_fits (account (kv s)) (PrivateKey_Address priv) (PrivateKey_Address priv) count"
    "success res \<longrightarrow> account (kv s') = move (account (kv s)) (PrivateKey_Address priv) (PrivateKey_Address priv) count"
    using Transfer_eval [OF assms(4-6), of ?t "PrivateKey_Address priv" tx ts] assms(7)
    by (auto simp: Transfer_StateKeys_def)
  have "move (account (kv s)) a a count = account (kv s)" if "transfer_fits (account (kv s)) a a count" for a
    using that by (cases "account (kv s) a") (auto simp: transfer_fits_def move_def fun_eq_iff amount_of_def)
  with e x show ?thesis
    by (auto simp: transfer_fits_def)
qed

text \<open>The account of the reference key, which holds 100, sends itself 40.\<close>

theorem dummy_moves_nothing_witness:
  "\<exists>t res s'. Transfer_Execute ref_math (mem_view {BalanceKey (NewBLSAddress ref_address_lib ref_bls (1, 7))}) t
      (one_account (NewBLSAddress ref_address_lib ref_bls (1, 7)) 100) 0 (NewBLSAddress ref_address_lib ref_bls (1, 7)) 9 =
      Some (res, s') \<and> success res \<and>
    account s' = account (one_account (NewBLSAddress ref_address_lib ref_bls (1, 7)) 100)"
proof -
  let ?a = "NewBLSAddress ref_address_lib ref_bls (1, 7)"
  let ?priv = "\<lparr>PrivateKey_Address = ?a, PrivateKey_Bytes = be_bytes 48 (7 :: 384 word)\<rparr>"
  let ?t = "Some (ActionTransfer \<lparr>Transfer_To = ?a, Transfer_Value = 40\<rparr>)"
  have "well_made (ref_keys :: (nat \<times> 384 word, nat \<times> 768 word, 384 word, cli_world) key_lib) blsKey ?priv"
    by (rule ref_keys.generated_well_made [OF ref_generated])
  then obtain f where f: "getFactory (ref_keys :: (nat \<times> 384 word, nat \<times> 768 word, 384 word, cli_world) key_lib) ?priv =
      Some (Inr f)"
    by (auto simp: well_made_def)
  obtain b w' where w': "sendAndWait (ref_handler 1 True) ref_sdk ref_rpc ?t ''uri'' () f False
      (NewJSONRPCClient ''uri'' 1 2) ref_world = Some (Inr (True, 9), b, w')" "W_sent w' = [(9, ?t)]"
    by (rule ref_sendAndWait)
  have cli: "CE_handler (ref_cli 1 True) = ref_handler 1 True" "CE_sdk (ref_cli 1 True) = ref_sdk"
    "CE_rpc (ref_cli 1 True) = ref_rpc" "CE_keys (ref_cli 1 True) = ref_keys"
    by (simp_all add: ref_cli_def)
  have run: "spam_submitDummy (ref_cli 1 True) ''uri'' ?priv () 40 (NewJSONRPCClient ''uri'' 1 2) ref_world = Some (Inr (), b, w')"
    by (simp only: spam_submitDummy_def cli f bind.bind_lunit sum.case private_key.simps w'(1) prod.case)
  have sent: "W_sent w' = W_sent ref_world @ [(9, ?t)]"
    by (simp add: w'(2) ref_world_def empty_world_def)
  show ?thesis
    using dummy_moves_nothing [OF ref_cli.cli_world_spec_axioms run sent mem_view.state_view_axioms
        ref_math.checked_math_axioms, of "one_account ?a 100" "{BalanceKey ?a}"]
    by fastforce
qed

text \<open>
  C28: \<open>chain watch\<close> reports a submitted proof as verified: when a submission of SP1, RiscZero,
  Miden or Plonky2 is executed, the summary that is printed for it starts with ``successfully
  verified'', while all that happened is that its deadline was stored: the status of no
  verification has changed.
\<close>

theorem reported_before_verified:
  assumes "state_view M kv scope" "TimeOutKey tx \<in> scope" "action_timeout a = Some t" "\<forall>j. a \<noteq> ActionJolt j"
  shows "\<exists>res s' txt. Action_Execute A L W r M a s ts actor tx = Some (res, s') \<and>
    handleTx_summary FormatBalance bech32 X a (success res) out = Some (''successfully verified '' @ txt) \<and>
    (\<forall>i. kv s' (StatusKey i) = kv s (StatusKey i))"
proof -
  obtain res s' where run: "Action_Execute A L W r M a s ts actor tx = Some (res, s')" "success res"
    "kv s' = (kv s)(TimeOutKey tx \<mapsto> AppendUint64 (ts + clamp_timeout t * 1000))"
    using submission_runs [OF assms(1-3), of A L W r s ts actor] by blast
  have "\<exists>txt. handleTx_summary FormatBalance bech32 X a True out = Some (''successfully verified '' @ txt)"
    using assms(3,4) by (cases a) (auto simp: handleTx_summary_def)
  with run show ?thesis by auto
qed

theorem reported_before_verified_witness:
  "\<exists>res s' txt. Action_Execute ref_math ref_bls ref_warp (ref_rules 0) (mem_view {TimeOutKey 8})
      (ActionSP1 \<lparr>SP1_ImageID = 1, SP1_ProofValType = 2, SP1_TimeOutBlocks = 100\<rparr>) Map.empty 5 2 8 = Some (res, s') \<and>
    handleTx_summary (\<lambda>v d. []) (\<lambda>hrp a. Inr []) ref_id_text
      (ActionSP1 \<lparr>SP1_ImageID = 1, SP1_ProofValType = 2, SP1_TimeOutBlocks = 100\<rparr>) (success res) [] =
      Some (''successfully verified '' @ txt) \<and> s' (StatusKey 8) = None"
  using reported_before_verified [OF mem_view.state_view_axioms, of 8 "{TimeOutKey 8}"
      "ActionSP1 \<lparr>SP1_ImageID = 1, SP1_ProofValType = 2, SP1_TimeOutBlocks = 100\<rparr>" 100 ref_math ref_bls ref_warp
      "ref_rules 0" Map.empty 5 2 "\<lambda>v d. []" "\<lambda>hrp a. Inr []" ref_id_text "[]"]
  by auto

end
