(* ===== verification/Cli_Prometheus.thy ===== *)
theory Cli_Prometheus
  imports Cli_Commands
begin

text \<open>
  The dashboard of \<open>prometheus generate\<close>, \<open>cmd/prometheus.go\<close>: the queries that are handed to
  hypersdk for a chain, in their order, and the lines that are printed. Seven queries are
  constants of hypersdk. It is shown that every query is well bracketed whatever chain is put
  into it, and which lines show their query.
\<close>

section \<open>The queries\<close>

record panel_consts =
  InboundBandwidth :: string
  InboundCompressionSavingsPercent :: string
  DecompressionTime :: string
  OutboundBandwidth :: string
  OutboundCompressionSavingsPercent :: string
  CompressionTime :: string
  OutboundFailed :: string

text \<open>
  \<open>fmt.Sprintf\<close> with strings as arguments: \<open>%s\<close> takes an argument and \<open>%%\<close> none. Another verb
  takes one and reports itself with it, a missing and a superfluous argument is reported.
\<close>

fun extra_args :: "string list \<Rightarrow> string" where
  "extra_args [] = []"
| "extra_args [a] = ''string='' @ a"
| "extra_args (a # as) = ''string='' @ a @ '', '' @ extra_args as"

fun Sprintf :: "string \<Rightarrow> string list \<Rightarrow> string" where
  "Sprintf [] as = (if as = [] then [] else ''%!(EXTRA '' @ extra_args as @ '')'')"
| "Sprintf [c] as = (if c = CHR ''%'' then ''%!(NOVERB)'' @ Sprintf [] as else c # Sprintf [] as)"
| "Sprintf (c # v # f) as =
    (if c \<noteq> CHR ''%'' then c # Sprintf (v # f) as
     else if v = CHR ''%'' then CHR ''%'' # Sprintf f as
     else (case as of
       [] \<Rightarrow> ''%!'' @ [v] @ ''(MISSING)'' @ Sprintf f []
     | a # as \<Rightarrow> (if v = CHR ''s'' then a else ''%!'' @ [v] @ ''(string='' @ a @ '')'') @ Sprintf f as))"

text \<open>
  A panel with its label: a query, or the format of one that is given the chain \<open>n\<close> times. The
  labels are as the source writes them, in a format of \<open>utils.Outf\<close>.
\<close>

datatype panel = PerChain nat string | Fixed string

definition panel_list :: "panel_consts \<Rightarrow> (string \<times> panel) list" where
  "panel_list C =
    [(''empty blocks built (5s)'', PerChain 1 ''increase(avalanche_%s_vm_hypersdk_chain_empty_block_built[5s])''),
     (''build time capped (5s)'', PerChain 1 ''increase(avalanche_%s_vm_hypersdk_chain_build_capped[5s])''),
     (''blocks processing'', PerChain 1 ''avalanche_%s_blks_processing''),
     (''blocks accepted per second'', PerChain 1 ''increase(avalanche_%s_blks_accepted_count[5s])/5''),
     (''blocks rejected per second'', PerChain 1 ''increase(avalanche_%s_blks_rejected_count[5s])/5''),
     (''blocks deleted per second'', PerChain 1 ''increase(avalanche_%s_vm_hypersdk_vm_deleted_blocks[5s])/5''),
     (''bandwidth unit price'', PerChain 1 ''avalanche_%s_vm_hypersdk_chain_bandwidth_price''),
     (''compute unit price'', PerChain 1 ''avalanche_%s_vm_hypersdk_chain_compute_price''),
     (''storage read unit price'', PerChain 1 ''avalanche_%s_vm_hypersdk_chain_storage_read_price''),
     (''storage create unit price'', PerChain 1 ''avalanche_%s_vm_hypersdk_chain_storage_create_price''),
     (''storage modify unit price'', PerChain 1 ''avalanche_%s_vm_hypersdk_chain_storage_modify_price''),
     (''transactions submitted per second'', PerChain 1 ''increase(avalanche_%s_vm_hypersdk_vm_txs_submitted[5s])/5''),
     (''transactions gossiped per second'', PerChain 1 ''increase(avalanche_%s_vm_hypersdk_vm_txs_gossiped[5s])/5''),
     (''transactions received per second'', PerChain 1 ''increase(avalanche_%s_vm_hypersdk_vm_txs_received[5s])/5''),
     (''seen transactions received per second'', PerChain 1 ''increase(avalanche_%s_vm_hypersdk_vm_seen_txs_received[5s])/5''),
     (''transactions verified per second'', PerChain 1 ''increase(avalanche_%s_vm_hypersdk_vm_txs_verified[5s])/5''),
     (''transactions accepted per second'', PerChain 1 ''increase(avalanche_%s_vm_hypersdk_vm_txs_accepted[5s])/5''),
     (''state operations per second'', PerChain 1 ''increase(avalanche_%s_vm_hypersdk_chain_state_operations[5s])/5''),
     (''state changes per second'', PerChain 1 ''increase(avalanche_%s_vm_hypersdk_chain_state_changes[5s])/5''),
     (''root calcuation (ms/s)'', PerChain 1 ''increase(avalanche_%s_vm_hypersdk_chain_root_calculated_sum[5s])/1000000/5''),
     (''wait root calculation (ms/s)'', PerChain 1 ''increase(avalanche_%s_vm_hypersdk_chain_wait_root_sum[5s])/1000000/5''),
     (''signature verification wait (ms/s)'', PerChain 1 ''increase(avalanche_%s_vm_hypersdk_chain_wait_signatures_sum[5s])/1000000/5''),
     (''cleared mempool per second'', PerChain 1 ''increase(avalanche_%s_vm_hypersdk_chain_cleared_mempool[5s])/5''),
     (''mempool size'', PerChain 1 ''avalanche_%s_vm_hypersdk_chain_mempool_size''),
     (''CPU usage'', Fixed ''avalanche_resource_tracker_cpu_usage''),
     (''memory (avalanchego) usage'', Fixed ''avalanche_go_memstats_alloc_bytes''),
     (''memory (morpheusvm) usage'', PerChain 1 ''avalanche_%s_vm_go_memstats_alloc_bytes''),
     (''consensus engine processing (ms/s)'', PerChain 7 ''increase(avalanche_%s_handler_chits_sum[5s])/1000000/5 + increase(avalanche_%s_handler_notify_sum[5s])/1000000/5 + increase(avalanche_%s_handler_get_sum[5s])/1000000/5 + increase(avalanche_%s_handler_push_query_sum[5s])/1000000/5 + increase(avalanche_%s_handler_put_sum[5s])/1000000/5 + increase(avalanche_%s_handler_pull_query_sum[5s])/1000000/5 + increase(avalanche_%s_handler_query_failed_sum[5s])/1000000/5''),
     (''inbound bandwidth (B)'', Fixed (InboundBandwidth C)),
     (''inbound compression savings (%)'', Fixed (InboundCompressionSavingsPercent C)),
     (''inbound decompression time (ms/s)'', Fixed (DecompressionTime C)),
     (''outbound bandwidth (B)'', Fixed (OutboundBandwidth C)),
     (''outbound compression savings (%)'', Fixed (OutboundCompressionSavingsPercent C)),
     (''outbound compression time (ms/s)'', Fixed (CompressionTime C)),
     (''outbound failed'', Fixed (OutboundFailed C)),
     (''block build (ms/s)'', PerChain 1 ''increase(avalanche_%s_vm_hypersdk_chain_block_build_sum[5s])/1000000/5''),
     (''block parse (ms/s)'', PerChain 1 ''increase(avalanche_%s_vm_hypersdk_chain_block_parse_sum[5s])/1000000/5''),
     (''block verify (ms/s)'', PerChain 1 ''increase(avalanche_%s_vm_hypersdk_chain_block_verify_sum[5s])/1000000/5''),
     (''block accept (ms/s)'', PerChain 1 ''increase(avalanche_%s_vm_hypersdk_chain_block_accept_sum[5s])/1000000/5''),
     (''block process [async] (ms/s)'', PerChain 1 ''increase(avalanche_%s_vm_hypersdk_chain_block_process_sum[5s])/1000000/5''),
     (''intermediate node cache hit rate'', PerChain 3 ''increase(avalanche_%s_vm_state_merkleDB_intermediate_node_cache_hit[5s])/(increase(avalanche_%s_vm_state_merkleDB_intermediate_node_cache_miss[5s]) + increase(avalanche_%s_vm_state_merkleDB_intermediate_node_cache_hit[5s]))''),
     (''value node cache hit rate'', PerChain 3 ''increase(avalanche_%s_vm_state_merkleDB_value_node_cache_hit[5s])/(increase(avalanche_%s_vm_state_merkleDB_value_node_cache_miss[5s]) + increase(avalanche_%s_vm_state_merkleDB_value_node_cache_hit[5s]))''),
     (''build txs executable (%%) per second'', PerChain 3 ''increase(avalanche_%s_vm_hypersdk_chain_executor_build_executable[5s]) / (increase(avalanche_%s_vm_hypersdk_chain_executor_build_blocked[5s]) + increase(avalanche_%s_vm_hypersdk_chain_executor_build_executable[5s]))''),
     (''verify txs executable (%%) per second'', PerChain 3 ''increase(avalanche_%s_vm_hypersdk_chain_executor_verify_executable[5s]) / (increase(avalanche_%s_vm_hypersdk_chain_executor_verify_blocked[5s]) + increase(avalanche_%s_vm_hypersdk_chain_executor_verify_executable[5s]))'')]"

fun panel_query :: "string \<Rightarrow> panel \<Rightarrow> string" where
  "panel_query chain (PerChain n f) = Sprintf f (replicate n chain)"
| "panel_query chain (Fixed q) = q"

definition prometheus_panels :: "panel_consts \<Rightarrow> id_text \<Rightarrow> ID \<Rightarrow> string list" where
  "prometheus_panels C X chainID = map (\<lambda>(label, p). panel_query (ID_String X chainID) p) (panel_list C)"

text \<open>What is printed for a panel, before \<open>utils.Outf\<close> replaces the colours.\<close>

definition panel_line :: "string \<Rightarrow> string \<Rightarrow> string" where
  "panel_line label query = Sprintf (''{{yellow}}'' @ label @ '':{{/}} %s'' @ [CHR 0x0A]) [query]"

definition prometheus_lines :: "panel_consts \<Rightarrow> id_text \<Rightarrow> ID \<Rightarrow> string list" where
  "prometheus_lines C X chainID =
    map (\<lambda>(label, p). panel_line label (panel_query (ID_String X chainID) p)) (panel_list C)"

section \<open>Formats\<close>

text \<open>A format whose verbs are all \<open>%s\<close>, with the same argument for each.\<close>

fun verbs :: "string \<Rightarrow> nat option" where
  "verbs [] = Some 0"
| "verbs [c] = (if c = CHR ''%'' then None else Some 0)"
| "verbs (c # v # f) =
    (if c \<noteq> CHR ''%'' then verbs (v # f) else if v = CHR ''s'' then map_option Suc (verbs f) else None)"

fun fill :: "string \<Rightarrow> string \<Rightarrow> string" where
  "fill [] a = []"
| "fill [c] a = [c]"
| "fill (c # v # f) a = (if c = CHR ''%'' \<and> v = CHR ''s'' then a @ fill f a else c # fill (v # f) a)"

lemma Sprintf_fill: "verbs f = Some n \<Longrightarrow> Sprintf f (replicate n a) = fill f a"
  by (induction f arbitrary: n rule: verbs.induct) (auto split: if_splits)

section \<open>Brackets\<close>

text \<open>\<open>closes st q\<close>: read after the open brackets \<open>st\<close>, the query closes all of them.\<close>

definition bracket :: "char \<Rightarrow> bool" where
  "bracket c \<longleftrightarrow> c = CHR ''('' \<or> c = CHR '')'' \<or> c = CHR ''['' \<or> c = CHR '']''"

fun closes :: "string \<Rightarrow> string \<Rightarrow> bool" where
  "closes st [] \<longleftrightarrow> st = []"
| "closes st (c # q) \<longleftrightarrow>
    (if c = CHR ''('' \<or> c = CHR ''['' then closes (c # st) q
     else if c = CHR '')'' then (case st of [] \<Rightarrow> False | b # st' \<Rightarrow> b = CHR ''('' \<and> closes st' q)
     else if c = CHR '']'' then (case st of [] \<Rightarrow> False | b # st' \<Rightarrow> b = CHR ''['' \<and> closes st' q)
     else closes st q)"

text \<open>The queries that do not name the chain.\<close>

fun fixed_queries :: "panel list \<Rightarrow> string list" where
  "fixed_queries [] = []"
| "fixed_queries (Fixed q # ps) = q # fixed_queries ps"
| "fixed_queries (PerChain n f # ps) = fixed_queries ps"

lemma closes_plain: "(\<And>c. c \<in> set a \<Longrightarrow> \<not> bracket c) \<Longrightarrow> closes st (a @ q) = closes st q"
  by (induction a) (auto simp: bracket_def)

lemma closes_fill:
  assumes "\<And>c. c \<in> set a \<Longrightarrow> \<not> bracket c"
  shows "closes st (fill f a) = closes st f"
  using assms
proof (induction f a arbitrary: st rule: fill.induct)
  case (3 c v f a)
  show ?case
  proof (cases "c = CHR ''%'' \<and> v = CHR ''s''")
    case True
    have "closes st (fill (c # v # f) a) = closes st (a @ fill f a)"
      using True by simp
    also have "\<dots> = closes st f"
      by (simp add: 3(1) [OF True 3(3)] closes_plain 3(3))
    also have "\<dots> = closes st (c # v # f)"
      using True by simp
    finally show ?thesis .
  next
    case False
    then show ?thesis
      by (simp only: fill.simps closes.simps(2) 3(2) [OF False 3(3)] if_False)
  qed
qed simp_all

fun panel_format :: "panel \<Rightarrow> string" where
  "panel_format (PerChain n f) = f"
| "panel_format (Fixed q) = q"

definition hypersdk_panels :: "panel_consts \<Rightarrow> string list" where
  "hypersdk_panels C = [InboundBandwidth C, InboundCompressionSavingsPercent C, DecompressionTime C, OutboundBandwidth C,
    OutboundCompressionSavingsPercent C, CompressionTime C, OutboundFailed C]"

definition format_ok :: "string \<times> panel \<Rightarrow> bool" where
  "format_ok lp \<longleftrightarrow> (case snd lp of PerChain n f \<Rightarrow> verbs f = Some n \<and> closes [] f | Fixed q \<Rightarrow> True)"

lemma formats_ok: "list_all format_ok (panel_list C)"
  by code_simp

lemma fixed_panels:
  "fixed_queries (map snd (panel_list C)) =
    [''avalanche_resource_tracker_cpu_usage'', ''avalanche_go_memstats_alloc_bytes''] @ hypersdk_panels C"
  by (simp add: panel_list_def hypersdk_panels_def)

lemma fixed_ok: "list_all (closes []) [''avalanche_resource_tracker_cpu_usage'', ''avalanche_go_memstats_alloc_bytes'']"
  by code_simp

lemma fixed_queries_iff: "q \<in> set (fixed_queries ps) \<longleftrightarrow> Fixed q \<in> set ps"
  by (induction ps rule: fixed_queries.induct) auto

lemma formats_close:
  assumes "\<forall>q \<in> set (hypersdk_panels C). closes [] q" "(label, p) \<in> set (panel_list C)"
  shows "closes [] (panel_format p)"
proof (cases p)
  case (PerChain n f)
  then show ?thesis
    using formats_ok [of C] assms(2) by (auto simp: list_all_iff format_ok_def)
next
  case (Fixed q)
  then have "q \<in> set (fixed_queries (map snd (panel_list C)))"
    using assms(2) by (force simp: fixed_queries_iff)
  then show ?thesis
    using fixed_ok assms(1) Fixed by (auto simp: fixed_panels list_all_iff)
qed

text \<open>
  Whatever the chain is, as long as the text of its identifier has no brackets, all queries
  of the dashboard are well bracketed, if those of hypersdk are.
\<close>

theorem panels_close:
  assumes "\<forall>q \<in> set (hypersdk_panels C). closes [] q" "\<And>c. c \<in> set (ID_String X chainID) \<Longrightarrow> \<not> bracket c"
    and "q \<in> set (prometheus_panels C X chainID)"
  shows "closes [] q"
proof -
  obtain label p where p: "(label, p) \<in> set (panel_list C)" "q = panel_query (ID_String X chainID) p"
    using assms(3) by (auto simp: prometheus_panels_def)
  note close = formats_close [OF assms(1) p(1)]
  show ?thesis
  proof (cases p)
    case (PerChain n f)
    then have "verbs f = Some n" using formats_ok [of C] p(1) by (auto simp: list_all_iff format_ok_def)
    then show ?thesis using close PerChain p(2) by (simp add: Sprintf_fill closes_fill [OF assms(2)])
  qed (use close p(2) in simp)
qed

section \<open>What is printed\<close>

text \<open>
  The label as it is meant to be read, with \<open>%%\<close> for a percent sign; none for a label that has
  another verb.
\<close>

fun plain_label :: "string \<Rightarrow> string option" where
  "plain_label [] = Some []"
| "plain_label [c] = (if c = CHR ''%'' then None else Some [c])"
| "plain_label (c # v # f) =
    (if c \<noteq> CHR ''%'' then map_option (Cons c) (plain_label (v # f))
     else if v = CHR ''%'' then map_option (Cons c) (plain_label f) else None)"

lemma Sprintf_label:
  "plain_label l = Some t \<Longrightarrow> Sprintf (l @ f) as = t @ Sprintf f as"
  by (induction l arbitrary: t rule: plain_label.induct) (cases f; auto split: if_splits)+

lemma panel_line_plain:
  assumes "plain_label label = Some t"
  shows "panel_line label q = ''{{yellow}}'' @ t @ '':{{/}} '' @ q @ [CHR 0x0A]"
proof -
  have "panel_line label q = ''{{yellow}}'' @ Sprintf (label @ '':{{/}} %s'' @ [CHR 0x0A]) [q]"
    unfolding panel_line_def by (rule Sprintf_label) simp
  then show ?thesis
    by (simp add: Sprintf_label [OF assms])
qed

lemma garbled_labels:
  "filter (\<lambda>l. plain_label l = None) (map fst (panel_list C)) =
    [''inbound compression savings (%)'', ''outbound compression savings (%)'']"
  by code_simp

text \<open>The closing bracket after an unescaped percent sign is taken for the verb of the query.\<close>

lemma panel_line_garbled:
  assumes "label = ''inbound compression savings (%)'' \<or> label = ''outbound compression savings (%)''"
  shows "panel_line label q =
    ''{{yellow}}'' @ butlast label @ ''!)(string='' @ q @ ''):{{/}} %!s(MISSING)'' @ [CHR 0x0A]"
  using assms by (elim disjE) (simp_all add: panel_line_def)

text \<open>
  Every query is printed after its label, except the two compression savings: their lines say
  that the format is wrong.
\<close>

theorem dashboard_lines:
  assumes "(label, p) \<in> set (panel_list C)"
  shows "(\<exists>t. plain_label label = Some t \<and> panel_line label q = ''{{yellow}}'' @ t @ '':{{/}} '' @ q @ [CHR 0x0A]) \<or>
    (label \<in> {''inbound compression savings (%)'', ''outbound compression savings (%)''} \<and>
     panel_line label q = ''{{yellow}}'' @ butlast label @ ''!)(string='' @ q @ ''):{{/}} %!s(MISSING)'' @ [CHR 0x0A])"
proof (cases "plain_label label")
  case None
  then have "label \<in> set (filter (\<lambda>l. plain_label l = None) (map fst (panel_list C)))"
    using assms by force
  then have "label \<in> {''inbound compression savings (%)'', ''outbound compression savings (%)''}"
    unfolding garbled_labels by simp
  with panel_line_garbled [of label q] show ?thesis by blast
next
  case (Some t)
  with panel_line_plain [OF Some] show ?thesis by blast
qed

end
