(* ===== verification/Cli_Root.thy ===== *)
theory Cli_Root
  imports Cli_Claims Cli_Prometheus Config
begin

text \<open>
  The client and the agent as programs: the command tree of \<open>cmd/morpheus-cli/cmd/root.go\<close> with
  its flags and hooks, the commands that forward to hypersdk (\<open>key.go\<close>, \<open>chain.go\<close>, \<open>spam.go\<close>,
  \<open>prometheus.go\<close>), the two \<open>main\<close> functions and the version. The root handler of hypersdk and
  cobra are parameters. It is shown what a run of the client submits and when it leaves the
  database open.
\<close>

section \<open>Flags\<close>

record flags =
  dbPath :: string
  genesisFlags :: genesis_flags
  hideTxs :: bool
  randomRecipient :: bool
  maxTxBacklog :: i64
  checkAllChains :: bool
  prometheusBaseURI :: string
  prometheusOpenBrowser :: bool
  prometheusFile :: string
  prometheusData :: string
  startPrometheus :: bool
  maxFee :: i64

definition defaultDatabase :: string where "defaultDatabase = ''.morpheus-cli''"

text \<open>The values that \<open>init\<close> gives the flags; \<open>now\<close> is the Unix time in decimal.\<close>

definition init_flags :: "string \<Rightarrow> flags" where
  "init_flags now =
    \<lparr>dbPath = defaultDatabase, genesisFlags = default_genesis_flags, hideTxs = False, randomRecipient = False,
     maxTxBacklog = 72000, checkAllChains = False, prometheusBaseURI = ''http://localhost:9090'',
     prometheusOpenBrowser = True, prometheusFile = ''/tmp/prometheus.yaml'',
     prometheusData = ''/tmp/prometheus-'' @ now, startPrometheus = True, maxFee = -1\<rparr>"

section \<open>The command tree\<close>

datatype command =
    RootCmd | GenesisCmd | GenGenesisCmd
  | KeyCmd | GenKeyCmd | ImportKeyCmd | SetKeyCmd | BalanceKeyCmd
  | ChainCmd | ImportChainCmd | ImportANRChainCmd | ImportAvalancheOpsChainCmd | SetChainCmd | ChainInfoCmd | WatchChainCmd
  | ActionCmd | TransferCmd
  | TestingCmd | RegisterCmd | RegisterImageCmd | BroadcastCmd | VerifyCmd | VerifyStatusCmd
  | SpamCmd | RunSpamCmd
  | PrometheusCmd | GeneratePrometheusCmd

fun Use :: "command \<Rightarrow> string" where
  "Use RootCmd = ''morpheus-cli''"
| "Use GenesisCmd = ''genesis''"
| "Use GenGenesisCmd = ''generate [custom allocates file] [options]''"
| "Use KeyCmd = ''key''"
| "Use GenKeyCmd = ''generate [ed25519/secp256r1/bls]''"
| "Use ImportKeyCmd = ''import [type] [path]''"
| "Use SetKeyCmd = ''set''"
| "Use BalanceKeyCmd = ''balance''"
| "Use ChainCmd = ''chain''"
| "Use ImportChainCmd = ''import''"
| "Use ImportANRChainCmd = ''import-anr''"
| "Use ImportAvalancheOpsChainCmd = ''import-ops [path]''"
| "Use SetChainCmd = ''set''"
| "Use ChainInfoCmd = ''info''"
| "Use WatchChainCmd = ''watch''"
| "Use ActionCmd = ''action''"
| "Use TransferCmd = ''transfer''"
| "Use TestingCmd = ''testing''"
| "Use RegisterCmd = ''register''"
| "Use RegisterImageCmd = ''register-image''"
| "Use BroadcastCmd = ''broadcast''"
| "Use VerifyCmd = ''verify''"
| "Use VerifyStatusCmd = ''verify-status''"
| "Use SpamCmd = ''spam''"
| "Use RunSpamCmd = ''run [ed25519/secp256r1/bls]''"
| "Use PrometheusCmd = ''prometheus''"
| "Use GeneratePrometheusCmd = ''generate''"

fun AddCommand :: "command \<Rightarrow> command list" where
  "AddCommand RootCmd = [GenesisCmd, KeyCmd, ChainCmd, ActionCmd, SpamCmd, PrometheusCmd, TestingCmd]"
| "AddCommand GenesisCmd = [GenGenesisCmd]"
| "AddCommand KeyCmd = [GenKeyCmd, ImportKeyCmd, SetKeyCmd, BalanceKeyCmd]"
| "AddCommand ChainCmd =
    [ImportChainCmd, ImportANRChainCmd, ImportAvalancheOpsChainCmd, SetChainCmd, ChainInfoCmd, WatchChainCmd]"
| "AddCommand ActionCmd = [TransferCmd]"
| "AddCommand TestingCmd = [RegisterCmd, RegisterImageCmd, BroadcastCmd, VerifyCmd, VerifyStatusCmd]"
| "AddCommand SpamCmd = [RunSpamCmd]"
| "AddCommand PrometheusCmd = [GeneratePrometheusCmd]"
| "AddCommand _ = []"

text \<open>The names of the flags that a command declares; they hold for its subcommands too.\<close>

fun PersistentFlags :: "command \<Rightarrow> string list" where
  "PersistentFlags RootCmd = [''database'']"
| "PersistentFlags GenGenesisCmd =
    [''genesis-file'', ''min-unit-price'', ''max-block-units'', ''window-target-units'', ''min-block-gap'']"
| "PersistentFlags BalanceKeyCmd = [''check-all-chains'']"
| "PersistentFlags WatchChainCmd = [''hide-txs'']"
| "PersistentFlags RunSpamCmd = [''random-recipient'', ''max-tx-backlog'', ''max-fee'']"
| "PersistentFlags GeneratePrometheusCmd =
    [''prometheus-base-uri'', ''prometheus-open-browser'', ''prometheus-file'', ''prometheus-data'', ''prometheus-start'']"
| "PersistentFlags _ = []"

section \<open>The root handler of hypersdk\<close>

text \<open>What \<open>spam run\<close> and \<open>chain watch\<close> hand over.\<close>

record ('ws, 'bf, 'sk, 'w) spam_calls =
  createClient :: "string \<Rightarrow> u32 \<Rightarrow> ID \<Rightarrow> ('bf rpc_client \<times> 'ws, 'w) io"
  spamFactory :: "private_key \<Rightarrow> (error + 'sk auth_factory) go"
  createAccount :: "(private_key, 'w) io"
  lookupBalance :: "'bf rpc_client \<Rightarrow> nat \<Rightarrow> string \<Rightarrow> (u64, 'w) io"
  getParser :: "'bf rpc_client \<Rightarrow> 'w \<Rightarrow> ('bf rpc_parser option \<times> error option) \<times> 'bf rpc_client \<times> 'w"
  getTransfer :: "address \<Rightarrow> u64 \<Rightarrow> action"
  submitDummy :: "string \<Rightarrow> private_key \<Rightarrow> 'ws \<Rightarrow> u64 \<Rightarrow> 'bf rpc_client \<Rightarrow> 'w \<Rightarrow>
    ((error + unit) \<times> 'bf rpc_client \<times> 'w) go"

record ('ws, 'bf, 'sk, 'w) root_handler = "'w cli_handler" +
  ImportChain :: "(unit, 'w) io"
  ImportANR :: "(unit, 'w) io"
  ImportOps :: "string \<Rightarrow> (unit, 'w) io"
  SetDefaultChain :: "(unit, 'w) io"
  PrintChainInfo :: "(unit, 'w) io"
  WatchChain :: "bool \<Rightarrow>
    (string \<Rightarrow> u32 \<Rightarrow> ID \<Rightarrow> 'w \<Rightarrow> ('bf rpc_parser option \<times> error option) \<times> 'bf rpc_client \<times> 'w) \<Rightarrow>
    (action \<Rightarrow> bool \<Rightarrow> bytes \<Rightarrow> string go) \<Rightarrow> (unit, 'w) io"
  SetKey :: "(nat \<Rightarrow> string \<Rightarrow> string \<Rightarrow> u32 \<Rightarrow> ID \<Rightarrow> (nat \<times> string \<times> string \<times> u64, 'w) io) \<Rightarrow> (unit, 'w) io"
  Root_Balance :: "bool \<Rightarrow> bool \<Rightarrow> (address \<Rightarrow> string \<Rightarrow> u32 \<Rightarrow> ID \<Rightarrow> (unit, 'w) io) \<Rightarrow> (unit, 'w) io"
  Spam :: "i64 \<Rightarrow> u64 option \<Rightarrow> bool \<Rightarrow> ('ws, 'bf, 'sk, 'w) spam_calls \<Rightarrow> (unit, 'w) io"
  GeneratePrometheus :: "string \<Rightarrow> bool \<Rightarrow> bool \<Rightarrow> string \<Rightarrow> string \<Rightarrow> (ID \<Rightarrow> string list) \<Rightarrow> (unit, 'w) io"
  CloseDatabase :: "(unit, 'w) io"

text \<open>What the program is linked with: \<open>cli.New\<close>, and the libraries of the commands.\<close>

record ('k, 'g, 'sk, 'ws, 'x, 'bf, 'w) program =
  P_env :: "('k, 'g, 'sk, 'ws, 'x, 'bf, 'w) cli_env"
  P_New :: "cli_controller \<Rightarrow> 'w \<Rightarrow> (error + ('ws, 'bf, 'sk, 'w) root_handler) \<times> 'w"
  P_merkledb :: "'bf merkledb"
  P_genesis :: "'bf genesis_lib"
  P_panels :: panel_consts
  P_ids :: id_text
  P_FormatBalance :: "u64 \<Rightarrow> nat \<Rightarrow> string"

record ('ws, 'bf, 'sk, 'w) client_handler =
  Handler_h :: "('ws, 'bf, 'sk, 'w) root_handler"

definition NewHandler :: "('ws, 'bf, 'sk, 'w) root_handler \<Rightarrow> ('ws, 'bf, 'sk, 'w) client_handler" where
  "NewHandler h = \<lparr>Handler_h = h\<rparr>"

definition Root :: "('ws, 'bf, 'sk, 'w) client_handler \<Rightarrow> ('ws, 'bf, 'sk, 'w) root_handler" where
  "Root H = Handler_h H"

text \<open>The environment of a command, with the handler it uses.\<close>

definition env_of ::
  "('k, 'g, 'sk, 'ws, 'x, 'bf, 'w) program \<Rightarrow> ('ws, 'bf, 'sk, 'w) root_handler \<Rightarrow>
    ('k, 'g, 'sk, 'ws, 'x, 'bf, 'w) cli_env" where
  "env_of P h = (P_env P)\<lparr>CE_handler := cli_handler.truncate h\<rparr>"

section \<open>Hooks and commands\<close>

text \<open>The state of the process: the variable \<open>handler\<close>, \<open>nil\<close> at the start, and the world.\<close>

type_synonym ('ws, 'bf, 'sk, 'w) process = "('ws, 'bf, 'sk, 'w) client_handler option \<times> 'w"

definition on_world :: "('a, 'w) io \<Rightarrow> ('a, ('ws, 'bf, 'sk, 'w) process) io" where
  "on_world m s = do { (r, w) \<leftarrow> m (snd s); Some (r, (fst s, w)) }"

text \<open>A use of \<open>handler.Root()\<close> or \<open>handler.h\<close>, which panics on \<open>nil\<close>.\<close>

definition with_handler ::
  "(('ws, 'bf, 'sk, 'w) root_handler \<Rightarrow> ('a, 'w) io) \<Rightarrow> ('a, ('ws, 'bf, 'sk, 'w) process) io" where
  "with_handler k s = do { H \<leftarrow> fst s; on_world (k (Root H)) s }"

definition PersistentPreRunE ::
  "('k, 'g, 'sk, 'ws, 'x, 'bf, 'w) program \<Rightarrow> flags \<Rightarrow> (unit, ('ws, 'bf, 'sk, 'w) process) io" where
  "PersistentPreRunE P F s =
    (let controller = NewController (dbPath F);
         (r, w) = P_New P controller (snd s)
     in case r of
          Inl err \<Rightarrow> Some (Inl err, (fst s, w))
        | Inr root \<Rightarrow> Some (Inr (), (Some (NewHandler root), w)))"

definition PersistentPostRunE :: "(unit, ('ws, 'bf, 'sk, 'w) process) io" where
  "PersistentPostRunE = with_handler CloseDatabase"

definition importOps_PreRunE :: "string list \<Rightarrow> error option" where
  "importOps_PreRunE args = (if length args \<noteq> 1 then Some ErrInvalidArgs else None)"

fun PreRunE :: "command \<Rightarrow> string list \<Rightarrow> error option" where
  "PreRunE GenGenesisCmd args = genGenesisCmd_PreRunE args"
| "PreRunE GenKeyCmd args = genKeyCmd_PreRunE args"
| "PreRunE ImportKeyCmd args = importKeyCmd_PreRunE args"
| "PreRunE ImportAvalancheOpsChainCmd args = importOps_PreRunE args"
| "PreRunE RunSpamCmd args = runSpamCmd_PreRunE args"
| "PreRunE _ args = None"

definition setKeyCmd ::
  "('k, 'g, 'sk, 'ws, 'x, 'bf, 'w) program \<Rightarrow> ('ws, 'bf, 'sk, 'w) root_handler \<Rightarrow> (unit, 'w) io" where
  "setKeyCmd P h = SetKey h (lookupSetKeyBalance (env_of P h))"

definition balanceKeyCmd ::
  "('k, 'g, 'sk, 'ws, 'x, 'bf, 'w) program \<Rightarrow> flags \<Rightarrow> ('ws, 'bf, 'sk, 'w) root_handler \<Rightarrow> (unit, 'w) io" where
  "balanceKeyCmd P F h = Root_Balance h (checkAllChains F) False (lookupKeyBalance (env_of P h))"

definition importAvalancheOpsChainCmd ::
  "('ws, 'bf, 'sk, 'w) root_handler \<Rightarrow> string list \<Rightarrow> (unit, 'w) io" where
  "importAvalancheOpsChainCmd h args = attempt (pure_go (map_option Inr (index args 0))) (ImportOps h)"

definition watchChainCmd ::
  "('k, 'g, 'sk, 'ws, 'x, 'bf, 'w) program \<Rightarrow> flags \<Rightarrow> ('ws, 'bf, 'sk, 'w) root_handler \<Rightarrow> (unit, 'w) io" where
  "watchChainCmd P F h =
    WatchChain h (hideTxs F)
      (\<lambda>uri networkID chainID. Client_Parser (CE_rpc (P_env P)) (NewJSONRPCClient uri networkID chainID))
      (handleTx_summary (P_FormatBalance P) (AddressBech32 (P_env P)) (P_ids P))"

definition runSpamCmd ::
  "('k, 'g, 'sk, 'ws, 'x, 'bf, 'w) program \<Rightarrow> flags \<Rightarrow> ('ws, 'bf, 'sk, 'w) root_handler \<Rightarrow>
    string list \<Rightarrow> (unit, 'w) io" where
  "runSpamCmd P F h args =
    (let E = env_of P h in
     Spam h (maxTxBacklog F) (spam_maxFee (maxFee F)) (randomRecipient F)
      \<lparr>createClient = spam_createClient E, spamFactory = getFactory (CE_keys E),
       createAccount = spam_createAccount E args, lookupBalance = (\<lambda>bclient choice. spam_lookupBalance E bclient),
       getParser = Client_Parser (CE_rpc E), getTransfer = spam_getTransfer, submitDummy = spam_submitDummy E\<rparr>)"

definition generatePrometheusCmd ::
  "('k, 'g, 'sk, 'ws, 'x, 'bf, 'w) program \<Rightarrow> flags \<Rightarrow> ('ws, 'bf, 'sk, 'w) root_handler \<Rightarrow> (unit, 'w) io" where
  "generatePrometheusCmd P F h =
    GeneratePrometheus h (prometheusBaseURI F) (prometheusOpenBrowser F) (startPrometheus F) (prometheusFile F)
      (prometheusData F) (prometheus_panels (P_panels P) (P_ids P))"

text \<open>The commands that act on the chain are those of \<^const>\<open>run_command\<close>.\<close>

fun acts :: "command \<Rightarrow> cli_command option" where
  "acts TransferCmd = Some TransferCommand"
| "acts RegisterCmd = Some RegisterCommand"
| "acts RegisterImageCmd = Some RegisterImageCommand"
| "acts BroadcastCmd = Some BroadcastCommand"
| "acts VerifyCmd = Some VerifyCommand"
| "acts VerifyStatusCmd = Some VerifyStatusCommand"
| "acts _ = None"

text \<open>The root command has no \<open>RunE\<close>.\<close>

fun RunE ::
  "('k, 'g, 'sk, 'ws, 'x, 'bf, 'w) program \<Rightarrow> command \<Rightarrow>
    (flags \<Rightarrow> string list \<Rightarrow> (unit, ('ws, 'bf, 'sk, 'w) process) io) option" where
  "RunE P RootCmd = None"
| "RunE P GenGenesisCmd = Some (\<lambda>F args.
    on_world (genGenesisCmd (P_env P) (P_merkledb P) (P_genesis P) (genesisFlags F) args))"
| "RunE P GenKeyCmd = Some (\<lambda>F args.
    with_handler (\<lambda>h. genKeyCmd (CE_keys (P_env P)) (cli_handler.truncate h) args))"
| "RunE P ImportKeyCmd = Some (\<lambda>F args.
    with_handler (\<lambda>h. importKeyCmd (CE_keys (P_env P)) (cli_handler.truncate h) args))"
| "RunE P SetKeyCmd = Some (\<lambda>F args. with_handler (setKeyCmd P))"
| "RunE P BalanceKeyCmd = Some (\<lambda>F args. with_handler (balanceKeyCmd P F))"
| "RunE P ImportChainCmd = Some (\<lambda>F args. with_handler ImportChain)"
| "RunE P ImportANRChainCmd = Some (\<lambda>F args. with_handler ImportANR)"
| "RunE P ImportAvalancheOpsChainCmd = Some (\<lambda>F args. with_handler (\<lambda>h. importAvalancheOpsChainCmd h args))"
| "RunE P SetChainCmd = Some (\<lambda>F args. with_handler SetDefaultChain)"
| "RunE P ChainInfoCmd = Some (\<lambda>F args. with_handler PrintChainInfo)"
| "RunE P WatchChainCmd = Some (\<lambda>F args. with_handler (watchChainCmd P F))"
| "RunE P RunSpamCmd = Some (\<lambda>F args. with_handler (\<lambda>h. runSpamCmd P F h args))"
| "RunE P GeneratePrometheusCmd = Some (\<lambda>F args. with_handler (generatePrometheusCmd P F))"
| "RunE P c = Some (\<lambda>F args. case acts c of
      None \<Rightarrow> fail_io ErrMissingSubcommand
    | Some a \<Rightarrow> with_handler (\<lambda>h. run_command (env_of P h) a))"

section \<open>cobra\<close>

text \<open>
  What cobra is given. It looks for the command of the arguments, sets the flags and runs the
  hooks in their order, until one fails; it prints a help text for a command that cannot run.
\<close>

record 's hooks =
  Hook_PersistentPreRunE :: "flags \<Rightarrow> (unit, 's) io"
  Hook_PreRunE :: "command \<Rightarrow> string list \<Rightarrow> error option"
  Hook_RunE :: "command \<Rightarrow> (flags \<Rightarrow> string list \<Rightarrow> (unit, 's) io) option"
  Hook_PersistentPostRunE :: "(unit, 's) io"

definition client_hooks ::
  "('k, 'g, 'sk, 'ws, 'x, 'bf, 'w) program \<Rightarrow> ('ws, 'bf, 'sk, 'w) process hooks" where
  "client_hooks P =
    \<lparr>Hook_PersistentPreRunE = PersistentPreRunE P, Hook_PreRunE = PreRunE, Hook_RunE = RunE P,
     Hook_PersistentPostRunE = PersistentPostRunE\<rparr>"

definition checked :: "error option \<Rightarrow> (unit, 's) io" where
  "checked e = (case e of None \<Rightarrow> return_io () | Some err \<Rightarrow> fail_io err)"

definition lifecycle ::
  "'s hooks \<Rightarrow> command \<Rightarrow> (flags \<Rightarrow> string list \<Rightarrow> (unit, 's) io) \<Rightarrow> flags \<Rightarrow> string list \<Rightarrow> (unit, 's) io" where
  "lifecycle K c run F args =
    attempt (Hook_PersistentPreRunE K F) (\<lambda>_.
    attempt (checked (Hook_PreRunE K c args)) (\<lambda>_.
    attempt (run F args) (\<lambda>_.
    Hook_PersistentPostRunE K)))"

locale cobra =
  fixes Execute :: "'s hooks \<Rightarrow> flags \<Rightarrow> string list \<Rightarrow> (unit, 's) io"
    and Find :: "flags \<Rightarrow> string list \<Rightarrow> (command \<times> flags \<times> string list) option"
  assumes not_found: "Find F0 argv = None \<Longrightarrow> Execute K F0 argv s = Some (r, s') \<Longrightarrow> s' = s"
    and help_text: "Find F0 argv = Some (c, F, args) \<Longrightarrow> Hook_RunE K c = None \<Longrightarrow>
      Execute K F0 argv s = Some (r, s') \<Longrightarrow> s' = s"
    and found: "Find F0 argv = Some (c, F, args) \<Longrightarrow> Hook_RunE K c = Some run \<Longrightarrow>
      Execute K F0 argv = lifecycle K c run F args"

definition exit_code :: "error + unit \<Rightarrow> nat" where
  "exit_code r = (case r of Inl err \<Rightarrow> 1 | Inr _ \<Rightarrow> 0)"

lemma exit_code_0 [simp]: "exit_code r = 0 \<longleftrightarrow> r = Inr ()"
  by (cases r) (simp_all add: exit_code_def)

text \<open>\<open>main\<close> of \<open>cmd/morpheus-cli\<close>: the exit code, with what the process leaves.\<close>

definition client_main ::
  "(('ws, 'bf, 'sk, 'w) process hooks \<Rightarrow> flags \<Rightarrow> string list \<Rightarrow> (unit, ('ws, 'bf, 'sk, 'w) process) io) \<Rightarrow>
    ('k, 'g, 'sk, 'ws, 'x, 'bf, 'w) program \<Rightarrow> string \<Rightarrow> string list \<Rightarrow> 'w \<Rightarrow> (nat \<times> 'w) go" where
  "client_main Execute P now argv w =
    do { (r, s) \<leftarrow> Execute (client_hooks P) (init_flags now) argv (None, w);
         Some (exit_code r, snd s) }"

section \<open>The agent\<close>

text \<open>
  \<open>cmd/morpheusvm\<close>: the version, and the virtual machine that \<open>rpcchainvm\<close> serves; it is the
  one \<open>vm.New\<close> makes from an empty controller and the version, as for \<open>factory.go\<close>.
\<close>

record semantic =
  Major :: nat
  Minor :: nat
  Patch :: nat

definition Version :: semantic where "Version = \<lparr>Major = 0, Minor = 0, Patch = 1\<rparr>"

record ('v, 'w) agent_lib =
  ToID :: "bytes \<Rightarrow> error + ID"
  Semantic_String :: "semantic \<Rightarrow> string"
  Vm_New :: "semantic \<Rightarrow> 'v"
  Ulimit_Set :: "(unit, 'w) io"
  Serve :: "'v \<Rightarrow> (unit, 'w) io"

text \<open>The identifier of the virtual machine is its name, filled up with zeros.\<close>

definition VM_ID :: "('v, 'w) agent_lib \<Rightarrow> ID go" where
  "VM_ID A =
    (let b = copy_at (make_bytes IDLen) 0 (string_bytes Name)
     in case ToID A b of Inl err \<Rightarrow> None | Inr vmID \<Rightarrow> Some vmID)"

definition Agent_New :: "('v, 'w) agent_lib \<Rightarrow> 'v" where "Agent_New A = Vm_New A Version"

definition Factory_New :: "('v, 'w) agent_lib \<Rightarrow> error + 'v" where "Factory_New A = Inr (Agent_New A)"

definition versionFunc :: "('v, 'w) agent_lib \<Rightarrow> id_text \<Rightarrow> string go" where
  "versionFunc A X =
    do { vmID \<leftarrow> VM_ID A;
         Some (Sprintf (''%s@%s (%s)'' @ [CHR 0x0A]) [Name, Semantic_String A Version, ID_String X vmID]) }"

definition runFunc :: "('v, 'w) agent_lib \<Rightarrow> (unit, 'w) io" where
  "runFunc A w =
    do { (r, w) \<leftarrow> Ulimit_Set A w;
         case r of Inl err \<Rightarrow> Some (Inl (ErrWrap err ''failed to set fd limit correctly''), w)
         | Inr _ \<Rightarrow> Serve A (Agent_New A) w }"

text \<open>\<open>main\<close> turns the error of the command that cobra ran into the exit code.\<close>

definition agent_main :: "(unit, 'w) io \<Rightarrow> 'w \<Rightarrow> (nat \<times> 'w) go" where
  "agent_main rootCmd w = do { (r, w) \<leftarrow> rootCmd w; Some (exit_code r, w) }"

lemma version_line:
  "versionFunc A X = map_option
    (\<lambda>vmID. Name @ ''@'' @ Semantic_String A Version @ '' ('' @ ID_String X vmID @ '')'' @ [CHR 0x0A]) (VM_ID A)"
  by (cases "VM_ID A") (simp_all add: versionFunc_def)

lemma agent_serves:
  "agent_main (runFunc A) w = Some (0, w') \<longleftrightarrow>
    (\<exists>w1. Ulimit_Set A w = Some (Inr (), w1) \<and> Serve A (Agent_New A) w1 = Some (Inr (), w'))"
  by (auto simp: agent_main_def runFunc_def bind_eq_Some_conv split: sum.split_asm)

end
