(* ===== verification/Cli_Run.thy ===== *)
theory Cli_Run
  imports Cli_Root
begin

text \<open>
  Runs of the client: the order of its hooks, the exit code and the database, and what a run
  submits, whatever its arguments are. The reference cobra finds commands by their full names.
\<close>

section \<open>The tree\<close>

definition name_of :: "command \<Rightarrow> string" where
  "name_of c = takeWhile (\<lambda>x. x \<noteq> CHR '' '') (Use c)"

lemma sibling_names: "distinct (map name_of (AddCommand c))"
  by (cases c) (simp_all add: name_of_def)

lemma flag_names: "c \<noteq> RootCmd \<Longrightarrow> distinct (PersistentFlags RootCmd @ PersistentFlags c)"
  by (cases c) simp_all

fun walk :: "command \<Rightarrow> string list \<Rightarrow> command \<times> string list" where
  "walk c [] = (c, [])"
| "walk c (a # as) =
    (case find (\<lambda>d. name_of d = a) (AddCommand c) of None \<Rightarrow> (c, a # as) | Some d \<Rightarrow> walk d as)"

lemma find_unique: "distinct (map f xs) \<Longrightarrow> d \<in> set xs \<Longrightarrow> find (\<lambda>x. f x = f d) xs = Some d"
  by (induction xs) (auto simp: rev_image_eqI)

lemma walk_child: "d \<in> set (AddCommand c) \<Longrightarrow> walk c (name_of d # as) = walk d as"
  by (simp add: find_unique [OF sibling_names])

text \<open>Every command but the root is below the root, at depth one or two.\<close>

lemma command_path:
  assumes "c \<noteq> RootCmd"
  obtains "c \<in> set (AddCommand RootCmd)"
  | p where "p \<in> set (AddCommand RootCmd)" "c \<in> set (AddCommand p)"
proof -
  have "c \<in> set (AddCommand RootCmd) \<or> (\<exists>p \<in> set (AddCommand RootCmd). c \<in> set (AddCommand p))"
    using assms by (cases c) simp_all
  with that show thesis by blast
qed

lemma every_command_found: "\<exists>argv. \<forall>args. walk RootCmd (argv @ args) = walk c args"
proof (cases "c = RootCmd")
  case True
  then show ?thesis by (intro exI [of _ "[]"]) simp
next
  case False
  then show ?thesis
  proof (cases rule: command_path)
    case 1
    then show ?thesis by (intro exI [of _ "[name_of c]"]) (simp add: walk_child del: AddCommand.simps walk.simps)
  next
    case (2 p)
    then show ?thesis
      by (intro exI [of _ "[name_of p, name_of c]"]) (simp add: walk_child del: AddCommand.simps walk.simps)
  qed
qed

definition ref_Find :: "flags \<Rightarrow> string list \<Rightarrow> (command \<times> flags \<times> string list) option" where
  "ref_Find F0 argv = (let (c, args) = walk RootCmd argv in Some (c, F0, args))"

definition ref_Execute :: "'s hooks \<Rightarrow> flags \<Rightarrow> string list \<Rightarrow> (unit, 's) io" where
  "ref_Execute K F0 argv =
    (case ref_Find F0 argv of
       None \<Rightarrow> return_io ()
     | Some (c, F, args) \<Rightarrow> (case Hook_RunE K c of None \<Rightarrow> return_io () | Some run \<Rightarrow> lifecycle K c run F args))"

interpretation ref_cobra: cobra ref_Execute ref_Find
  by unfold_locales (auto simp: ref_Execute_def split: option.splits prod.splits)

section \<open>The hooks of a run\<close>

lemma on_world_Some [simp]:
  "on_world m s = Some (r, s') \<longleftrightarrow> fst s' = fst s \<and> m (snd s) = Some (r, snd s')"
  by (cases s') (auto simp: on_world_def bind_eq_Some_conv)

lemma with_handler_Some [simp]:
  "with_handler k s = Some (r, s') \<longleftrightarrow>
    (\<exists>H. fst s = Some H \<and> fst s' = Some H \<and> k (Root H) (snd s) = Some (r, snd s'))"
  by (auto simp: with_handler_def bind_eq_Some_conv)

lemma checked_Some [simp]:
  "checked e s = Some (r, s') \<longleftrightarrow> s' = s \<and> (case e of None \<Rightarrow> r = Inr () | Some err \<Rightarrow> r = Inl err)"
  by (auto simp: checked_def split: option.splits)

lemma PersistentPreRunE_Some:
  "PersistentPreRunE P F s = Some (r, s') \<longleftrightarrow>
    (\<exists>err. P_New P (NewController (dbPath F)) (snd s) = (Inl err, snd s') \<and> r = Inl err \<and> fst s' = fst s) \<or>
    (\<exists>h. P_New P (NewController (dbPath F)) (snd s) = (Inr h, snd s') \<and> r = Inr () \<and> fst s' = Some (NewHandler h))"
  by (cases s') (auto simp: PersistentPreRunE_def Let_def split: prod.splits sum.splits)

lemma Root_NewHandler [simp]: "Root (NewHandler h) = h"
  by (simp add: Root_def NewHandler_def)

text \<open>The ways in which the hooks of a command can end.\<close>

inductive run_ends ::
  "('k, 'g, 'sk, 'ws, 'x, 'bf, 'w) program \<Rightarrow> command \<Rightarrow>
    (flags \<Rightarrow> string list \<Rightarrow> (unit, ('ws, 'bf, 'sk, 'w) process) io) \<Rightarrow> flags \<Rightarrow> string list \<Rightarrow>
    'w \<Rightarrow> error + unit \<Rightarrow> 'w \<Rightarrow> bool"
  for P c run F args w where
  no_database: "P_New P (NewController (dbPath F)) w = (Inl err, w') \<Longrightarrow> run_ends P c run F args w (Inl err) w'"
| bad_arguments: "P_New P (NewController (dbPath F)) w = (Inr h, w') \<Longrightarrow> PreRunE c args = Some err \<Longrightarrow>
    run_ends P c run F args w (Inl err) w'"
| command_fails: "P_New P (NewController (dbPath F)) w = (Inr h, w1) \<Longrightarrow> PreRunE c args = None \<Longrightarrow>
    run F args (Some (NewHandler h), w1) = Some (Inl err, (g, w')) \<Longrightarrow> run_ends P c run F args w (Inl err) w'"
| database_closed: "P_New P (NewController (dbPath F)) w = (Inr h, w1) \<Longrightarrow> PreRunE c args = None \<Longrightarrow>
    run F args (Some (NewHandler h), w1) = Some (Inr (), (Some (NewHandler h), w2)) \<Longrightarrow>
    CloseDatabase h w2 = Some (r, w') \<Longrightarrow> run_ends P c run F args w r w'"

lemma run_keeps_handler:
  assumes "RunE P c = Some run" "run F args s = Some (r, s')"
  shows "fst s' = fst s"
  using assms by (cases c) (auto simp: fail_io_def)

lemma lifecycle_ends:
  assumes "RunE P c = Some run" "lifecycle (client_hooks P) c run F args (g, w) = Some (r, s')"
  shows "run_ends P c run F args w r (snd s')"
proof -
  obtain g' w' where s': "s' = (g', w')" by (cases s')
  have closed: "run_ends P c run F args w r w'"
    if "P_New P (NewController (dbPath F)) w = (Inr h, w1)" "PreRunE c args = None"
      "run F args (Some (NewHandler h), w1) = Some (Inr (), (Some H, w2))" "CloseDatabase (Root H) w2 = Some (r, w')" for h w1 H w2
    using run_keeps_handler [OF assms(1) that(3)] that by (auto intro: database_closed)
  show ?thesis
    using assms(2) unfolding lifecycle_def client_hooks_def hooks.simps PersistentPostRunE_def s'
    by (auto simp: PersistentPreRunE_Some split: option.splits intro: closed run_ends.intros(1-3))
qed

text \<open>
  The exit code is zero exactly when every hook succeeded, the closing of the database last; a
  command that fails leaves the world as it is then, and the database is not closed.
\<close>

theorem client_exit:
  assumes "cobra Execute Find" "Find (init_flags now) argv = Some (c, F, args)" "RunE P c = Some run"
    and "client_main Execute P now argv w = Some (code, w')"
  shows "\<exists>r. run_ends P c run F args w r w' \<and> code = exit_code r"
proof -
  have run: "Hook_RunE (client_hooks P) c = Some run"
    using assms(3) by (simp add: client_hooks_def)
  obtain r s where "lifecycle (client_hooks P) c run F args (None, w) = Some (r, s)"
    "code = exit_code r" "w' = snd s"
    using assms(4) unfolding client_main_def cobra.found [OF assms(1,2) run] by (auto simp: bind_eq_Some_conv)
  with lifecycle_ends [OF assms(3)] show ?thesis by blast
qed

section \<open>What a run submits\<close>

text \<open>Nothing is submitted.\<close>

definition quiet :: "('w \<Rightarrow> 'x list) \<Rightarrow> ('a, 'w) io \<Rightarrow> bool" where
  "quiet sent m \<longleftrightarrow> (\<forall>w r w'. m w = Some (r, w') \<longrightarrow> sent w' = sent w)"

lemma quietD: "quiet sent m \<Longrightarrow> m w = Some (r, w') \<Longrightarrow> sent w' = sent w"
  unfolding quiet_def by blast

lemma quiet_simps [simp]:
  "quiet sent (return_io x)" "quiet sent (fail_io e)" "quiet sent (pure s)" "quiet sent (pure_go g)"
  "quiet sent (\<lambda>w. pure (h w) w)"
  by (auto simp: quiet_def)

lemma quiet_call: "(\<And>w r w'. f w = (r, w') \<Longrightarrow> sent w' = sent w) \<Longrightarrow> quiet sent (call f)"
  by (auto simp: quiet_def)

lemma quiet_attempt: "quiet sent m \<Longrightarrow> (\<And>x. quiet sent (k x)) \<Longrightarrow> quiet sent (attempt m k)"
  unfolding quiet_def attempt_Some by metis

lemma truncate_store [simp]:
  "StoreKey (cli_handler.truncate h) = StoreKey h" "StoreDefaultKey (cli_handler.truncate h) = StoreDefaultKey h"
  by (simp_all add: cli_handler.truncate_def)

text \<open>
  What the client relies on beside the laws of its commands: the generators of keys, the key
  store, the files and the operations of hypersdk that the other commands forward to submit
  nothing, as long as what they are given does not. \<open>spam run\<close> is left out.
\<close>

locale client_spec =
  fixes P :: "('k, 'g, 'sk, 'ws, 'x, 'bf, 'w) program" and sent :: "'w \<Rightarrow> 'x list" and action_of :: "'x \<Rightarrow> action option"
  assumes opens: "P_New P ctl w = (r, w') \<Longrightarrow> sent w' = sent w"
    and commands: "P_New P ctl w = (Inr h, w') \<Longrightarrow> cli_world_spec (env_of P h) sent action_of"
    and generators:
      "Ed_GeneratePrivateKey (CE_keys (P_env P)) v = (r1, v') \<Longrightarrow> sent v' = sent v"
      "Secp_GeneratePrivateKey (CE_keys (P_env P)) v = (r1, v') \<Longrightarrow> sent v' = sent v"
      "Bls_GeneratePrivateKey (CE_keys (P_env P)) v = (r2, v') \<Longrightarrow> sent v' = sent v"
    and files: "WriteFile (P_env P) f b v = (r3, v') \<Longrightarrow> sent v' = sent v"
    and stores: "P_New P ctl w = (Inr h, w') \<Longrightarrow> StoreKey h priv v = (r3, v') \<Longrightarrow> sent v' = sent v"
      "P_New P ctl w = (Inr h, w') \<Longrightarrow> StoreDefaultKey h a v = (r3, v') \<Longrightarrow> sent v' = sent v"
    and forwards: "P_New P ctl w = (Inr h, w') \<Longrightarrow> quiet sent (ImportChain h)"
      "P_New P ctl w = (Inr h, w') \<Longrightarrow> quiet sent (ImportANR h)"
      "P_New P ctl w = (Inr h, w') \<Longrightarrow> quiet sent (ImportOps h path)"
      "P_New P ctl w = (Inr h, w') \<Longrightarrow> quiet sent (SetDefaultChain h)"
      "P_New P ctl w = (Inr h, w') \<Longrightarrow> quiet sent (PrintChainInfo h)"
      "P_New P ctl w = (Inr h, w') \<Longrightarrow> quiet sent (GeneratePrometheus h uri browser start promFile promData panels)"
      "P_New P ctl w = (Inr h, w') \<Longrightarrow> quiet sent (CloseDatabase h)"
    and watches: "P_New P ctl w = (Inr h, w') \<Longrightarrow>
      (\<And>uri n i v q cli v'. parse uri n i v = (q, cli, v') \<Longrightarrow> sent v' = sent v) \<Longrightarrow>
      quiet sent (WatchChain h hide parse summary)"
    and lookups: "P_New P ctl w = (Inr h, w') \<Longrightarrow> (\<And>ch ad uri n i. quiet sent (look ch ad uri n i)) \<Longrightarrow>
        quiet sent (SetKey h look)"
      "P_New P ctl w = (Inr h, w') \<Longrightarrow> (\<And>ad uri n i. quiet sent (look' ad uri n i)) \<Longrightarrow>
        quiet sent (Root_Balance h check quietly look')"
begin

lemma generate_quiet: "quiet sent (generatePrivateKey (CE_keys (P_env P)) k)"
  unfolding generatePrivateKey_def
  by (simp, intro conjI impI quiet_attempt quiet_call) (auto dest: generators)

lemma load_quiet: "quiet sent (loadPrivateKey (CE_keys (P_env P)) k path)"
  unfolding loadPrivateKey_def quiet_def by (auto split: if_splits)

lemma genKey_quiet:
  assumes "P_New P ctl w = (Inr h, w')"
  shows "quiet sent (genKeyCmd (CE_keys (P_env P)) (cli_handler.truncate h) args)"
  unfolding genKeyCmd_def
  by (intro quiet_attempt quiet_call) (auto intro: generate_quiet dest: stores [OF assms])

lemma importKey_quiet:
  assumes "P_New P ctl w = (Inr h, w')"
  shows "quiet sent (importKeyCmd (CE_keys (P_env P)) (cli_handler.truncate h) args)"
  unfolding importKeyCmd_def
  by (intro quiet_attempt quiet_call) (auto intro: load_quiet dest: stores [OF assms])

lemma genGenesis_quiet: "quiet sent (genGenesisCmd (P_env P) B G F args)"
  unfolding genGenesisCmd_def Let_def
  by (intro quiet_attempt quiet_call) (auto dest: files)

lemma lookups_quiet:
  assumes "P_New P ctl w = (Inr h, w')"
  shows "quiet sent (lookupSetKeyBalance (env_of P h) ch ad uri n i)" "quiet sent (lookupKeyBalance (env_of P h) a uri n i)"
proof -
  note keeps = cli_world_spec.rpc_calls_keep [OF commands [OF assms]]
    cli_world_spec.Handler_GetBalance_keeps [OF commands [OF assms]]
  note quiet_keeps = keeps [unfolded cli_world_spec.keeps_def [OF commands [OF assms]], folded quiet_def]
  show "quiet sent (lookupSetKeyBalance (env_of P h) ch ad uri n i)"
    unfolding lookupSetKeyBalance_def Let_def by (intro quiet_attempt quiet_keeps quiet_simps)
  show "quiet sent (lookupKeyBalance (env_of P h) a uri n i)"
    unfolding lookupKeyBalance_def by (intro quiet_attempt quiet_keeps quiet_simps)
qed

lemma watch_quiet:
  assumes "P_New P ctl w = (Inr h, w')"
  shows "quiet sent (watchChainCmd P F h)"
  unfolding watchChainCmd_def
proof (rule watches [OF assms])
  fix uri n i v q cli v'
  assume "Client_Parser (CE_rpc (P_env P)) (NewJSONRPCClient uri n i) v = (q, cli, v')"
  then show "sent v' = sent v"
    using cli_world_spec.Client_keeps(3) [OF commands [OF assms], of "NewJSONRPCClient uri n i" v q cli v']
    by (simp add: env_of_def)
qed

text \<open>The commands that do not act on the chain, but for \<open>spam run\<close>.\<close>

lemma other_commands_quiet:
  assumes "P_New P ctl w = (Inr h, w1)" "RunE P c = Some run" "acts c = None" "c \<noteq> RunSpamCmd"
    and "run F args (Some (NewHandler h), v) = Some (r, s)"
  shows "sent (snd s) = sent v"
proof -
  have set: "quiet sent (setKeyCmd P h)"
    unfolding setKeyCmd_def by (rule lookups(1) [OF assms(1) lookups_quiet(1) [OF assms(1)]])
  have bal: "quiet sent (balanceKeyCmd P F h)"
    unfolding balanceKeyCmd_def by (rule lookups(2) [OF assms(1) lookups_quiet(2) [OF assms(1)]])
  have ops: "quiet sent (importAvalancheOpsChainCmd h args)"
    unfolding importAvalancheOpsChainCmd_def by (intro quiet_attempt quiet_simps forwards(3) [OF assms(1)])
  have prom: "quiet sent (generatePrometheusCmd P F h)"
    unfolding generatePrometheusCmd_def by (rule forwards(6) [OF assms(1)])
  note quiet = ops prom set bal forwards(1,2,4,5) [OF assms(1)] genKey_quiet [OF assms(1)] importKey_quiet [OF assms(1)]
    genGenesis_quiet watch_quiet [OF assms(1)]
  show ?thesis
    using assms(2-5) by (cases c) (auto simp: fail_io_def dest: quiet [THEN quietD])
qed

lemma acting_command:
  assumes "RunE P c = Some run" "acts c = Some cc" "run F args (Some (NewHandler h), v) = Some (r, s)"
  shows "run_command (env_of P h) cc v = Some (r, snd s)"
  using assms by (cases c) auto

lemma close_quiet: "P_New P ctl w = (Inr h, w1) \<Longrightarrow> CloseDatabase h v = Some (r, v') \<Longrightarrow> sent v' = sent v"
  by (rule quietD [OF forwards(7)])

definition submitted :: "command \<Rightarrow> ('ws, 'bf, 'sk, 'w) root_handler \<Rightarrow> 'w \<Rightarrow> 'w \<Rightarrow> bool" where
  "submitted c h w w' \<longleftrightarrow> (\<exists>cc x v v'. acts c = Some cc \<and> sent w' = sent w @ [x] \<and>
    submits (CE_handler (env_of P h)) cc (action_of x) \<and>
    PromptContinue (CE_handler (env_of P h)) v = (Inr True, v'))"

lemma command_submitted:
  assumes "P_New P ctl w = (Inr h, w1)" "RunE P c = Some run" "c \<noteq> RunSpamCmd"
    and "run F args (Some (NewHandler h), v) = Some (r, s)"
  shows "sent (snd s) = sent v \<or> submitted c h v (snd s)"
proof (cases "acts c")
  case None
  then show ?thesis using other_commands_quiet [OF assms(1,2) None assms(3,4)] by blast
next
  case (Some cc)
  from cli_world_spec.command_submits [OF commands [OF assms(1)] acting_command [OF assms(2) Some assms(4)]] Some
  show ?thesis unfolding submitted_def by blast
qed

lemma run_submitted:
  assumes "run_ends P c run F args w r w'" "RunE P c = Some run" "c \<noteq> RunSpamCmd"
  shows "sent w' = sent w \<or>
    (\<exists>h w1. P_New P (NewController (dbPath F)) w = (Inr h, w1) \<and> PreRunE c args = None \<and> submitted c h w w')"
  using assms(1)
proof cases
  case (command_fails h w1 err g)
  from command_submitted [OF command_fails(2) assms(2,3) command_fails(4)] opens [OF command_fails(2)] command_fails(2,3)
  show ?thesis by (auto simp: submitted_def)
next
  case (database_closed h w1 w2)
  from command_submitted [OF database_closed(1) assms(2,3) database_closed(3)] opens [OF database_closed(1)]
    close_quiet [OF database_closed(1,4)] database_closed(1,2)
  show ?thesis by (auto simp: submitted_def)
qed (auto dest: opens)

end

section \<open>A reference program\<close>

definition ref_root :: "i64 \<Rightarrow> bool \<Rightarrow> (unit, nat, 384 word, cli_world) root_handler" where
  "ref_root n yes = cli_handler.extend (ref_handler n yes)
    (root_handler.fields (return_io ()) (return_io ()) (\<lambda>path. return_io ()) (return_io ()) (return_io ())
      (\<lambda>hide parse summary. return_io ()) (\<lambda>look. attempt (look 0 ''a'' ''uri'' 1 2) (\<lambda>_. return_io ()))
      (\<lambda>check quietly look. look 2 ''uri'' 1 2) (\<lambda>backlog fee recipient calls. return_io ())
      (\<lambda>uri browser start promFile promData panels. return_io ()) (return_io ()))"

definition ref_program ::
  "i64 \<Rightarrow> bool \<Rightarrow> (nat \<times> 384 word, nat \<times> 768 word, 384 word, unit, ID \<times> action option, nat, cli_world) program" where
  "ref_program n yes =
    \<lparr>P_env = ref_cli n yes, P_New = (\<lambda>ctl w. (Inr (ref_root n yes), w)), P_merkledb = ref_merkledb,
     P_genesis = ref_genesis_lib,
     P_panels = \<lparr>InboundBandwidth = '''', InboundCompressionSavingsPercent = '''', DecompressionTime = '''',
       OutboundBandwidth = '''', OutboundCompressionSavingsPercent = '''', CompressionTime = '''', OutboundFailed = ''''\<rparr>,
     P_ids = \<lparr>ID_Hex = (\<lambda>i. ''i''), ID_String = (\<lambda>i. ''i'')\<rparr>, P_FormatBalance = (\<lambda>b d. '''')\<rparr>"

lemma ref_root_truncate [simp]: "cli_handler.truncate (ref_root n yes) = ref_handler n yes"
  by (simp add: ref_root_def cli_handler.truncate_def cli_handler.extend_def)

lemma ref_env [simp]: "env_of (ref_program n yes) (ref_root n yes) = ref_cli n yes"
  by (simp add: env_of_def ref_program_def ref_cli_def)

lemma ref_New: "P_New (ref_program n yes) ctl w = (Inr h, w') \<longleftrightarrow> h = ref_root n yes \<and> w' = w"
  by (auto simp: ref_program_def)

lemma ref_root_fields:
  "ImportChain (ref_root n yes) = return_io ()" "ImportANR (ref_root n yes) = return_io ()"
  "ImportOps (ref_root n yes) path = return_io ()" "SetDefaultChain (ref_root n yes) = return_io ()"
  "PrintChainInfo (ref_root n yes) = return_io ()" "WatchChain (ref_root n yes) hide parse summary = return_io ()"
  "SetKey (ref_root n yes) look = attempt (look 0 ''a'' ''uri'' 1 2) (\<lambda>_. return_io ())"
  "Root_Balance (ref_root n yes) check quietly look' = look' 2 ''uri'' 1 2"
  "GeneratePrometheus (ref_root n yes) uri browser start promFile promData panels = return_io ()"
  "CloseDatabase (ref_root n yes) = return_io ()"
  "StoreKey (ref_root n yes) = StoreKey (ref_handler n yes)"
  "StoreDefaultKey (ref_root n yes) = StoreDefaultKey (ref_handler n yes)"
  by (simp_all add: ref_root_def root_handler.defs cli_handler.defs)

interpretation ref_program: client_spec "ref_program n yes" W_sent snd for n yes
proof (rule client_spec.intro)
  fix h and w w' :: cli_world and ctl
  assume "P_New (ref_program n yes) ctl w = (Inr h, w')"
  then have h: "h = ref_root n yes" by (simp add: ref_New)
  show "cli_world_spec (env_of (ref_program n yes) h) W_sent snd"
    unfolding h ref_env by (rule ref_cli.cli_world_spec_axioms)
next
  fix h and w w' :: cli_world and ctl
    and look :: "nat \<Rightarrow> string \<Rightarrow> string \<Rightarrow> u32 \<Rightarrow> ID \<Rightarrow> (nat \<times> string \<times> string \<times> u64, cli_world) io"
  assume "P_New (ref_program n yes) ctl w = (Inr h, w')" "\<And>ch ad uri n i. quiet W_sent (look ch ad uri n i)"
  then show "quiet W_sent (SetKey h look)"
    by (simp add: ref_New ref_root_fields quiet_attempt)
qed (auto simp: ref_New ref_root_fields ref_program_def ref_cli_def ref_keys_def ref_handler_def)

text \<open>The registration of the reference client, from its arguments to its exit code.\<close>

lemma ref_testing_register:
  "ref_Find F0 [''testing'', ''register''] = Some (RegisterCmd, F0, [])"
  by (simp add: ref_Find_def name_of_def)

lemma ref_main:
  obtains w' where "client_main ref_Execute (ref_program 3 True) now [''testing'', ''register''] ref_world = Some (0, w')"
    "length (W_sent w') = 1"
proof -
  obtain w' where w': "run_command (ref_cli 3 True) RegisterCommand ref_world = Some (Inr (), w')" "length (W_sent w') = 1"
    by (rule ref_register)
  let ?P = "ref_program 3 True" and ?H = "Some (NewHandler (ref_root 3 True))"
  have pre: "PersistentPreRunE ?P F (None, ref_world) = Some (Inr (), (?H, ref_world))" for F
    by (simp add: PersistentPreRunE_Some ref_New)
  have run: "with_handler (\<lambda>h. run_command (env_of ?P h) RegisterCommand) (?H, ref_world) = Some (Inr (), (?H, w'))"
    using w'(1) by simp
  have post: "PersistentPostRunE (?H, w') = Some (Inr (), (?H, w'))"
    by (simp add: PersistentPostRunE_def ref_root_fields return_io_def)
  have "ref_Execute (client_hooks ?P) F0 [''testing'', ''register''] (None, ref_world) = Some (Inr (), (?H, w'))" for F0
    by (simp add: ref_Execute_def ref_testing_register client_hooks_def lifecycle_def pre run post checked_def return_io_def
        del: with_handler_Some run_command.simps)
  then have "client_main ref_Execute ?P now [''testing'', ''register''] ref_world = Some (0, w')"
    by (simp add: client_main_def)
  then show thesis using w'(2) by (rule that)
qed

text \<open>
  C24: one run of the client, whatever its arguments are, submits at most one transaction, if it
  is not \<open>spam run\<close>: the arguments select a command that acts on the chain, the database is
  opened, the transaction is of the kind of the command and the user can confirm.
\<close>

theorem client_submits:
  assumes "client_spec P sent action_of" "cobra Execute Find"
    and "client_main Execute P now argv w = Some (code, w')"
    and "\<And>F args. Find (init_flags now) argv \<noteq> Some (RunSpamCmd, F, args)"
  shows "sent w' = sent w \<or>
    (\<exists>c cc F args h w1 x v v'. Find (init_flags now) argv = Some (c, F, args) \<and> acts c = Some cc \<and>
      P_New P (NewController (dbPath F)) w = (Inr h, w1) \<and> PreRunE c args = None \<and>
      sent w' = sent w @ [x] \<and> submits (CE_handler (env_of P h)) cc (action_of x) \<and>
      PromptContinue (CE_handler (env_of P h)) v = (Inr True, v'))"
proof -
  obtain r s where run: "Execute (client_hooks P) (init_flags now) argv (None, w) = Some (r, s)" "w' = snd s"
    using assms(3) by (auto simp: client_main_def bind_eq_Some_conv)
  show ?thesis
  proof (cases "Find (init_flags now) argv")
    case None
    then show ?thesis using cobra.not_found [OF assms(2) None run(1)] run(2) by simp
  next
    case (Some cFa)
    obtain c F args where cFa: "cFa = (c, F, args)" by (metis prod.exhaust)
    note found = Some [unfolded cFa]
    show ?thesis
    proof (cases "Hook_RunE (client_hooks P) c")
      case None
      then show ?thesis using cobra.help_text [OF assms(2) found None run(1)] run(2) by simp
    next
      case (Some runs)
      then have c: "RunE P c = Some runs" by (simp add: client_hooks_def)
      have "run_ends P c runs F args w r w'"
        using lifecycle_ends [OF c] run unfolding cobra.found [OF assms(2) found Some] by blast
      from client_spec.run_submitted [OF assms(1) this c] assms(4) found show ?thesis
        unfolding client_spec.submitted_def [OF assms(1)] by blast
    qed
  qed
qed

theorem client_submits_witness:
  "\<exists>w'. client_main ref_Execute (ref_program 3 True) ''0'' [''testing'', ''register''] ref_world = Some (0, w') \<and>
    (\<exists>x. W_sent w' = [x] \<and> submits (ref_handler 3 True) RegisterCommand (snd x))"
proof -
  obtain w' where w': "client_main ref_Execute (ref_program 3 True) ''0'' [''testing'', ''register''] ref_world = Some (0, w')"
    "length (W_sent w') = 1"
    by (rule ref_main)
  have start: "W_sent ref_world = []"
    by (simp add: ref_world_def empty_world_def)
  have handler: "CE_handler (ref_cli 3 True) = ref_handler 3 True"
    by (simp add: ref_cli_def)
  have "\<exists>x. W_sent w' = [x] \<and> submits (ref_handler 3 True) RegisterCommand (snd x)"
    using client_submits [OF ref_program.client_spec_axioms ref_cobra.cobra_axioms w'(1)] w'(2) start
    by (auto simp: ref_testing_register ref_New handler)
  with w'(1) show ?thesis by blast
qed

end
