(* ===== verification/Client_Network.thy ===== *)
theory Client_Network
  imports Network_Claims Paid_Chain Cli_Run
begin

text \<open>
  The command-line client over the network: its requests are answered by nodes of a network in
  states that are reached. The balances that its commands work with are those of the abstract
  ledger, and it is shown when a transfer that the client submits succeeds on the chain.
\<close>

section \<open>What a paid transfer needs\<close>

lemma debit_other: "b \<noteq> a \<Longrightarrow> debit acc a v b = acc b"
  and debit_other': "a \<noteq> b \<Longrightarrow> debit acc a v b = acc b"
  by (simp_all add: debit_def)

lemma paid_transfer_succeeds:
  assumes "Tx_action (Paid_tx p) = ActionTransfer t" "Tx_actor (Paid_tx p) = a"
  shows "fst (ledger_paid L W p l) = Some True \<longleftrightarrow> Transfer_Value t \<noteq> 0 \<and>
    unat (Paid_fee p) + unat (Transfer_Value t) \<le> unat (amount_of (Accounts l a)) \<and>
    (a = Transfer_To t \<or> unat (amount_of (Accounts l (Transfer_To t))) + unat (Transfer_Value t) < 2 ^ 64)"
proof -
  let ?b = "amount_of (Accounts l a)"
  have "Transfer_Value t \<le> ?b - Paid_fee p \<longleftrightarrow> unat (Paid_fee p) + unat (Transfer_Value t) \<le> unat ?b"
    if "Paid_fee p \<le> ?b"
    using that by (auto simp: word_le_nat_alt unat_sub)
  moreover have "Paid_fee p \<le> ?b" if "unat (Paid_fee p) + unat (Transfer_Value t) \<le> unat ?b"
    using that by (simp add: word_le_nat_alt)
  ultimately show ?thesis
    using assms by (cases "a = Transfer_To t") (auto simp: ledger_paid_def Let_def case_prod_unfold can_pay_def charged_def ledger_tx_def
        transfer_fits_def debit_amount debit_other debit_other')
qed

section \<open>A client of the network\<close>

text \<open>
  \<open>net v\<close> is the network when the client's world is \<open>v\<close>: it is reached from \<open>S0\<close>, and the node
  that answers then is one of its nodes, which reads the committed state. An address is parsed
  back from its text, and an amount that is prompted for is at most the balance that is given.
\<close>

locale network_client =
  fixes X :: "('r, 'b, 'd, 'nw, 'g, 'sk2, 'm, 'bf, 'k, 'sk, 'tx, 'vm, 's) net_env"
    and kv :: "'s \<Rightarrow> (bytes \<rightharpoonup> bytes)" and signer_of :: "'sk ed25519_factory \<Rightarrow> address"
    and S0 :: "('f, 'bf, 'k, 'sk, 'd, 'nw, 'vm, 's) network"
    and E :: "('ck, 'cg, 'csk, 'ws, 'x, 'bf, 'w) cli_env"
    and sent :: "'w \<Rightarrow> 'x list" and action_of :: "'x \<Rightarrow> action option"
    and net :: "'w \<Rightarrow> ('f, 'bf, 'k, 'sk, 'd, 'nw, 'vm, 's) network" and C :: "'w \<Rightarrow> 'bf rpc_controller" and parse :: bech32
  assumes network: "net_contract X kv signer_of"
    and start: "net_start X S0" "wf_state (kv (Net_chain S0))"
    and commands: "cli_world_spec E sent action_of"
    and transport: "rpc_transport (CE_rpc E) C parse"
    and runs: "reachable X S0 (net v)"
    and served: "\<exists>k f. k < length (Net_nodes (net v)) \<and> committed_read f (kv (Net_chain (net v))) \<and>
      C v = controller_rpc (NE_fees (NX_node X k)) (NE_db (NX_node X k)) f (Node_ctl (Net_nodes (net v) ! k))"
    and bech32: "AddressBech32 E HRP a = Inr shown \<Longrightarrow> parse HRP shown = Inr a"
    and prompted: "PromptAmount (CE_handler E) l d bal v = (Inr n, v') \<Longrightarrow> n \<le> bal"
begin

definition ledger_at :: "'w \<Rightarrow> ledger" where
  "ledger_at v = ledger_run (NX_bls X) (NX_warp X) (Net_txs (net v)) (ledger_of (kv (Net_chain S0)))"

lemma seen_state:
  "wf_state (kv (Net_chain (net v)))" "ledger_of (kv (Net_chain (net v))) = ledger_at v"
proof -
  have "net_contract.chain_inv X kv S0 (net v)"
    using net_contract.reachable_inv [OF network runs start] by simp
  then show "wf_state (kv (Net_chain (net v)))" "ledger_of (kv (Net_chain (net v))) = ledger_at v"
    unfolding net_contract.chain_inv_def [OF network] ledger_at_def by simp_all
qed

lemma seen_account: "Accounts (ledger_at v) = account (kv (Net_chain (net v)))"
  using seen_state(2) [of v] by (metis ledger_of_sel(1))

lemma served_balance:
  "RC_GetBalanceFromState (C v) a = Some (amount_of (Accounts (ledger_at v) a), None)"
proof -
  obtain k f where k: "committed_read f (kv (Net_chain (net v)))"
    "C v = controller_rpc (NE_fees (NX_node X k)) (NE_db (NX_node X k)) f (Node_ctl (Net_nodes (net v) ! k))"
    using served by blast
  from seen_state(1) [of v] seen_account [of v] show ?thesis
    by (simp add: k(2) controller_rpc_def Controller_GetBalanceFromState_def wf_state_def
        committed_read.Balance_read [OF k(1)])
qed

lemma shown_balance:
  assumes "Client_Balance (CE_rpc E) cli shown v = ((b, None), v')" "AddressBech32 E HRP a = Inr shown"
  shows "b = amount_of (Accounts (ledger_at v) a)"
proof -
  obtain a' where "parse HRP shown = Inr a'" "RC_GetBalanceFromState (C v) a' = Some (b, None)"
    by (rule rpc_transport.Balance_reports [OF transport assms(1)])
  then show ?thesis
    using bech32 [OF assms(2)] served_balance [of v a] by simp
qed

lemma GetBalance_ledger:
  assumes "Handler_GetBalance E cli a v = Some (Inr b, v')"
  shows "b = amount_of (Accounts (ledger_at v) a)"
  using assms by (auto simp: Handler_GetBalance_def split: if_splits dest: shown_balance)

definition covered :: "address \<Rightarrow> action option \<Rightarrow> bool" where
  "covered a act \<longleftrightarrow> (\<exists>t v. act = Some (ActionTransfer t) \<and> Transfer_Value t \<le> amount_of (Accounts (ledger_at v) a))"

lemma transfer_covered:
  assumes "transferCmd E w = Some (r, w')"
  shows "sent w' = sent w \<or> (\<exists>x a priv w1. GetDefaultKey (CE_handler E) True w = (Inr (a, priv), w1) \<and>
    sent w' = sent w @ [x] \<and> covered a (action_of x))"
proof -
  note keeps = cli_world_spec.keeps_def [OF commands]
  have actor: "sent w1 = sent w" if "actor_of E w = Some (q, w1)" for q w1
    using cli_world_spec.actor_keeps [OF commands] that unfolding keeps by blast
  let ?k = "\<lambda>act. attempt (Handler_GetBalance E (Actor_bcli act) (PrivateKey_Address (Actor_priv act))) (\<lambda>balance.
    if balance = 0 then return_io ()
    else
      attempt (call (PromptAddress (CE_handler E) ''recipient'')) (\<lambda>recipient.
      attempt (call (PromptAmount (CE_handler E) ''amount'' Decimals balance)) (\<lambda>amount.
      confirmed (CE_handler E)
        (send_action E act (Some (ActionTransfer \<lparr>Transfer_To = recipient, Transfer_Value = amount\<rparr>))))))"
  consider q where "actor_of E w = Some (q, w')" | act w1 where "actor_of E w = Some (Inr act, w1)" "?k act w1 = Some (r, w')"
    using assms unfolding transferCmd_def attempt_Some [of "actor_of E"] by blast
  then show ?thesis
  proof cases
    case 1
    then show ?thesis using actor by simp
  next
    case (2 act w1)
    let ?a = "PrivateKey_Address (Actor_priv act)"
    note intros = cli_world_spec.sends_attempt [OF commands] cli_world_spec.sends_confirmed [OF commands]
      cli_world_spec.send_action_sends [OF commands]
    note silent = cli_world_spec.calls_keep [OF commands] cli_world_spec.Handler_GetBalance_keeps [OF commands]
      cli_world_spec.keeps_simps [OF commands]
    have "cli_world_spec.sends sent action_of (?k act) (covered ?a)"
    proof (rule intros(1) [OF silent(11)])
      fix balance v v'
      assume "Handler_GetBalance E (Actor_bcli act) ?a v = Some (Inr balance, v')"
      then have "balance = amount_of (Accounts (ledger_at v) ?a)" by (rule GetBalance_ledger)
      then have fits: "covered ?a (Some (ActionTransfer \<lparr>Transfer_To = recipient, Transfer_Value = amount\<rparr>))"
        if "amount \<le> balance" for recipient amount
        using that by (auto simp: covered_def)
      show "cli_world_spec.sends sent action_of (if balance = 0 then return_io ()
        else
          attempt (call (PromptAddress (CE_handler E) ''recipient'')) (\<lambda>recipient.
          attempt (call (PromptAmount (CE_handler E) ''amount'' Decimals balance)) (\<lambda>amount.
          confirmed (CE_handler E)
            (send_action E act (Some (ActionTransfer \<lparr>Transfer_To = recipient, Transfer_Value = amount\<rparr>)))))) (covered ?a)"
        by (auto intro!: intros silent cli_world_spec.keeps_sends [OF commands silent(12)] fits dest: prompted)
    qed
    from cli_world_spec.sendsD [OF commands this 2(2)]
    have "sent w' = sent w \<or> (\<exists>x. sent w' = sent w @ [x] \<and> covered ?a (action_of x))"
      using actor [OF 2(1)] by simp
    moreover obtain v where "GetDefaultKey (CE_handler E) True w = (Inr (?a, PrivateKey_Bytes (Actor_priv act)), v)"
      using 2(1) unfolding actor_of_def by (rule DefaultActor_priv)
    ultimately show ?thesis by blast
  qed
qed

text \<open>The transfer on the chain that was seen.\<close>

lemma transfer_outcome:
  assumes "Tx_action (Paid_tx p) = ActionTransfer t" "Tx_actor (Paid_tx p) = a" "Paid_unused p \<le> Paid_fee p"
  shows "\<exists>ok s'. run_paid (NX_math X) (NX_bls X) (NX_warp X) (NX_view X) p (Net_chain (net v)) = Some (ok, s') \<and>
    (ok = Some True \<longleftrightarrow> Transfer_Value t \<noteq> 0 \<and>
      unat (Paid_fee p) + unat (Transfer_Value t) \<le> unat (amount_of (account (kv (Net_chain (net v))) a)) \<and>
      (a = Transfer_To t \<or>
        unat (amount_of (account (kv (Net_chain (net v))) (Transfer_To t))) + unat (Transfer_Value t) < 2 ^ 64))"
proof -
  note chain = net_contract.view [OF network] net_contract.math [OF network]
  have fits: "image_fits (Tx_action (Paid_tx p))" using assms(1) by simp
  from paid_simulates [where p = p and s = "Net_chain (net v)" and L = "NX_bls X" and W = "NX_warp X",
      OF chain seen_state(1) fits assms(3)] obtain ok s'
    where "run_paid (NX_math X) (NX_bls X) (NX_warp X) (NX_view X) p (Net_chain (net v)) = Some (ok, s')"
      "ok = fst (ledger_paid (NX_bls X) (NX_warp X) p (ledger_of (kv (Net_chain (net v)))))"
    by (metis fst_conv)
  with paid_transfer_succeeds [OF assms(1,2), of "NX_bls X" "NX_warp X" "ledger_of (kv (Net_chain (net v)))"]
  show ?thesis by simp
qed

lemma transfer_on_chain:
  assumes "transferCmd E w = Some (r, w')"
  shows "sent w' = sent w \<or> (\<exists>x t v a priv w1. sent w' = sent w @ [x] \<and> action_of x = Some (ActionTransfer t) \<and>
    GetDefaultKey (CE_handler E) True w = (Inr (a, priv), w1) \<and> reachable X S0 (net v) \<and>
    Transfer_Value t \<le> amount_of (account (kv (Net_chain (net v))) a) \<and>
    (\<forall>p. Tx_action (Paid_tx p) = ActionTransfer t \<longrightarrow> Tx_actor (Paid_tx p) = a \<longrightarrow> Paid_unused p \<le> Paid_fee p \<longrightarrow>
      (\<exists>ok s'. run_paid (NX_math X) (NX_bls X) (NX_warp X) (NX_view X) p (Net_chain (net v)) = Some (ok, s') \<and>
        (ok = Some True \<longleftrightarrow> Transfer_Value t \<noteq> 0 \<and>
          unat (Paid_fee p) + unat (Transfer_Value t) \<le> unat (amount_of (account (kv (Net_chain (net v))) a)) \<and>
          (a = Transfer_To t \<or>
            unat (amount_of (account (kv (Net_chain (net v))) (Transfer_To t))) + unat (Transfer_Value t) < 2 ^ 64)))))"
  using transfer_covered [OF assms] transfer_outcome runs unfolding covered_def seen_account by blast

end

section \<open>A reference client\<close>

text \<open>
  The reference client at the reference network, whose chain holds 100 tokens for the default
  key: one node answers from the committed state, and 40 tokens are asked for.
\<close>

definition own_address :: address where "own_address = NewBLSAddress ref_address_lib ref_bls (1, 7)"

definition funded_net ::
  "(nat, nat, nat \<times> 384 word, byte, bytes \<rightharpoonup> bytes, http_request list \<times> bytes list, action list, bytes \<rightharpoonup> bytes) network" where
  "funded_net = ref_net\<lparr>Net_chain := one_account own_address 100\<rparr>"

definition funded_node :: "nat rpc_controller" where
  "funded_node = controller_rpc ref_fees ref_db (read_view (one_account own_address 100)) (Node_ctl ref_running)"

definition funded_rpc :: "(nat, cli_world) rpc_requester" where
  "funded_rpc =
    \<lparr>Send_genesis = (\<lambda>m r w. (fst (answer (\<lambda>c. Some (Server_Genesis c r)) r [funded_node]), w)),
     Send_tx = (\<lambda>m a r w. (fst (answer (\<lambda>c. Server_Tx c a r) r [funded_node]), w)),
     Send_balance = (\<lambda>m a r w. (fst (answer (\<lambda>c. Server_Balance ref_bech32 c a r) r [funded_node]), w)),
     Send_bytes = (\<lambda>m b w. (None, w)),
     Send_verifyStatus = (\<lambda>m a r w. (fst (answer (\<lambda>c. Server_VerifyStatus c a r) r [funded_node]), w)),
     ErrorText = ref_text\<rparr>"

text \<open>The text of an address has its value as its length.\<close>

definition unary_bech32 :: "string \<Rightarrow> address \<Rightarrow> error + string" where
  "unary_bech32 hrp a = (if a = 0 then Inl (ErrExternal ''bech32'') else Inr (replicate (unat a) (CHR ''a'')))"

lemma unary_bech32_parsed: "unary_bech32 hrp a = Inr shown \<Longrightarrow> ref_bech32 hrp shown = Inr a"
  by (auto simp: unary_bech32_def ref_bech32_def unat_eq_0 split: if_splits)

definition funded_cli ::
  "(nat \<times> 384 word, nat \<times> 768 word, 384 word, unit, ID \<times> action option, nat, cli_world) cli_env" where
  "funded_cli = (ref_cli 1 True)\<lparr>CE_handler := (ref_handler 1 True)\<lparr>PromptAmount :=
      \<lambda>l d b w. (if 40 \<le> b then Inr 40 else Inl (ErrExternal ''insufficient balance''), w)\<rparr>,
    CE_rpc := funded_rpc, AddressBech32 := unary_bech32\<rparr>"

interpretation funded_transport: rpc_transport funded_rpc "\<lambda>w. funded_node" ref_bech32
proof
  show "(err = None \<and> Server_Tx funded_node args reply = Some (None, resp)) \<or>
      (\<exists>e e' r. err = Some e' \<and> Server_Tx funded_node args reply = Some (Some e, r) \<and>
        ErrorText funded_rpc e' = ErrorText funded_rpc e) \<or>
      (\<exists>e'. err = Some e' \<and> \<not> Contains (ErrorText funded_rpc e') (ErrorText funded_rpc ErrTxNotFound))"
    if "Send_tx funded_rpc ''tx'' args reply w = ((err, resp), w')" for args reply err resp w w'
    using that by (cases err) (auto simp: funded_rpc_def answer_def down_text split: option.splits)
qed (auto simp: funded_rpc_def answer_def split: option.splits)

interpretation funded_cli: cli_world_spec funded_cli W_sent snd
  by unfold_locales
    (auto simp: funded_cli_def ref_cli_def ref_handler_def ref_sdk_def funded_rpc_def split: list.splits)

lemma funded_net_start: "net_start ref_net_env funded_net" "wf_state (Net_chain funded_net)"
  by (simp_all add: net_start_def funded_net_def ref_net_def ref_running_def ref_net_env_def)

interpretation funded: network_client ref_net_env "\<lambda>s. s" "\<lambda>f. 3" funded_net funded_cli W_sent snd "\<lambda>w. funded_net"
  "\<lambda>w. funded_node" ref_bech32
proof (rule network_client.intro)
  show "\<exists>k f. k < length (Net_nodes funded_net) \<and> committed_read f (Net_chain funded_net) \<and>
      funded_node = controller_rpc (NE_fees (NX_node ref_net_env k)) (NE_db (NX_node ref_net_env k)) f
        (Node_ctl (Net_nodes funded_net ! k))"
    by (intro exI [of _ 0] exI [of _ "read_view (one_account own_address 100)"])
      (simp add: funded_net_def ref_net_def funded_node_def ref_net_env_def ref_node_env_def read_view.committed_read_axioms)
  show "rpc_transport (CE_rpc funded_cli) (\<lambda>w. funded_node) ref_bech32"
    using funded_transport.rpc_transport_axioms by (simp add: funded_cli_def)
  show "cli_world_spec funded_cli W_sent snd" by (rule funded_cli.cli_world_spec_axioms)
qed (auto simp: funded_cli_def unary_bech32_parsed funded_net_start ref_net.net_contract_axioms split: if_splits)

text \<open>The default key sees its 100 tokens.\<close>

lemma own_address_nonzero: "own_address \<noteq> 0"
proof -
  have "ucast (drop_bit 256 own_address) = BLSID"
    by (simp add: own_address_def NewBLSAddress_def ref_address_lib_def ref_address_parts(2) del: push_bit_or drop_bit_or)
  then show ?thesis by (auto simp: BLSID_def)
qed

lemma funded_balance:
  "Handler_GetBalance funded_cli cli own_address w = Some (Inr 100, w)"
proof -
  have "RC_GetBalanceFromState funded_node own_address = Some (100, None)"
    by (simp add: funded_node_def controller_rpc_def Controller_GetBalanceFromState_def
        read_view.Balance_read)
  then show ?thesis
    using own_address_nonzero unary_bech32_parsed [of HRP own_address]
    by (simp add: Handler_GetBalance_def funded_cli_def funded_rpc_def Client_Balance_def rpc_call_def Server_Balance_def answer_def
        unary_bech32_def attempt_def pure_def return_io_def)
qed

lemma funded_transfer:
  obtains w' where "transferCmd funded_cli ref_world = Some (Inr (), w')"
    "W_sent w' = [(9, Some (ActionTransfer \<lparr>Transfer_To = 2, Transfer_Value = 40\<rparr>))]"
proof -
  obtain act where act: "actor_of (ref_cli 1 True) ref_world = Some (Inr act, ref_world)" "Actor_jcli act = ''uri''"
    "Actor_bcli act = NewJSONRPCClient ''uri'' 1 2"
    by (rule ref_actor)
  let ?a = "Some (ActionTransfer \<lparr>Transfer_To = 2, Transfer_Value = 40\<rparr>)"
  obtain b w' where w': "sendAndWait (ref_handler 1 True) ref_sdk ref_rpc ?a
      ''uri'' () (Actor_factory act) True (NewJSONRPCClient ''uri'' 1 2) ref_world = Some (Inr (True, 9), b, w')"
    "W_sent w' = [(9, ?a)]"
    by (rule ref_sendAndWait)
  have actor: "actor_of funded_cli ref_world = Some (Inr act, ref_world)"
    using act(1) by (simp add: actor_of_def DefaultActor_def funded_cli_def ref_cli_def ref_handler_def)
  have own: "PrivateKey_Address (Actor_priv act) = own_address"
    using act(1) unfolding actor_of_def
    by (rule DefaultActor_priv) (simp add: ref_cli_def ref_handler_def ref_world_def own_address_def)
  have parser: "Client_Parser funded_rpc (NewJSONRPCClient ''uri'' 1 2) w = Client_Parser ref_rpc (NewJSONRPCClient ''uri'' 1 2) w" for w
    by (simp add: Client_Parser_def Client_Genesis_def NewJSONRPCClient_def ref_rpc_def funded_rpc_def answer_def
        Server_Genesis_def funded_node_def controller_rpc_def Controller_Genesis_def ref_running_def ref_controller_def)
  have "PrintStatus (CE_handler funded_cli) = PrintStatus (ref_handler 1 True)"
    by (simp add: funded_cli_def)
  then have send: "send_tx (CE_handler funded_cli) = send_tx (ref_handler 1 True)"
    by (intro ext) (simp only: send_tx_def)
  have env: "CE_sdk funded_cli = ref_sdk" "CE_rpc funded_cli = funded_rpc"
    by (simp_all add: funded_cli_def ref_cli_def)
  have wait: "sendAndWait (CE_handler funded_cli) (CE_sdk funded_cli) (CE_rpc funded_cli) ?a
      ''uri'' () (Actor_factory act) True (NewJSONRPCClient ''uri'' 1 2) ref_world = Some (Inr (True, 9), b, w')"
    using w'(1) unfolding sendAndWait_def env send parser .
  have cli: "PromptContinue (CE_handler funded_cli) w = (Inr True, w)" "PromptAddress (CE_handler funded_cli) l w = (Inr 2, w)"
    "PromptAmount (CE_handler funded_cli) l d 100 w = (Inr 40, w)" for w l d
    by (simp_all add: funded_cli_def ref_cli_def ref_handler_def)
  have "transferCmd funded_cli ref_world = Some (Inr (), w')"
    by (simp add: transferCmd_def actor own funded_balance cli act confirmed_def send_action_def wait ex_bool_eq)
  then show thesis using w'(2) by (rule that)
qed

section \<open>The claim\<close>

text \<open>
  C25: the client's transfer on the chain. What \<open>action transfer\<close> submits, if anything, is one
  transfer by the default key, of at most the balance that its account has in some state the
  network has reached. In that state, the transaction is executed and succeeds, for a fee that
  is given, exactly when the value is not zero, the balance covers the fee and the value, and
  the recipient's balance does not overflow: to accept an amount up to the whole balance is
  not enough.
\<close>

theorem transfers_are_covered:
  assumes "network_client X kv signer_of S0 E sent action_of net C parse"
    and "transferCmd E w = Some (r, w')" "sent w' \<noteq> sent w"
  shows "\<exists>x t v a priv w1. sent w' = sent w @ [x] \<and> action_of x = Some (ActionTransfer t) \<and>
    GetDefaultKey (CE_handler E) True w = (Inr (a, priv), w1) \<and> reachable X S0 (net v) \<and>
    Transfer_Value t \<le> amount_of (account (kv (Net_chain (net v))) a) \<and>
    (\<forall>p. Tx_action (Paid_tx p) = ActionTransfer t \<longrightarrow> Tx_actor (Paid_tx p) = a \<longrightarrow> Paid_unused p \<le> Paid_fee p \<longrightarrow>
      (\<exists>ok s'. run_paid (NX_math X) (NX_bls X) (NX_warp X) (NX_view X) p (Net_chain (net v)) = Some (ok, s') \<and>
        (ok = Some True \<longleftrightarrow> Transfer_Value t \<noteq> 0 \<and>
          unat (Paid_fee p) + unat (Transfer_Value t) \<le> unat (amount_of (account (kv (Net_chain (net v))) a)) \<and>
          (a = Transfer_To t \<or>
            unat (amount_of (account (kv (Net_chain (net v))) (Transfer_To t))) + unat (Transfer_Value t) < 2 ^ 64))))"
  using network_client.transfer_on_chain [OF assms(1,2)] assms(3) by blast

theorem transfers_are_covered_witness:
  "\<exists>w' x t. transferCmd funded_cli ref_world = Some (Inr (), w') \<and> W_sent w' = [x] \<and> snd x = Some (ActionTransfer t) \<and>
    (\<exists>s'. run_paid ref_math ref_bls ref_warp mem_view (ref_paid (ActionTransfer t) own_address 9)
      (one_account own_address 100) = Some (Some True, s'))"
proof -
  obtain w' where w': "transferCmd funded_cli ref_world = Some (Inr (), w')"
    "W_sent w' = [(9, Some (ActionTransfer \<lparr>Transfer_To = 2, Transfer_Value = 40\<rparr>))]"
    by (rule funded_transfer)
  have start: "W_sent ref_world = []"
    by (simp add: ref_world_def empty_world_def)
  then have more: "W_sent w' \<noteq> W_sent ref_world"
    using w'(2) by simp
  from transfers_are_covered [OF funded.network_client_axioms w'(1) more]
  obtain t a priv w1 where t: "ActionTransfer t = ActionTransfer \<lparr>Transfer_To = 2, Transfer_Value = 40\<rparr>"
    and a: "GetDefaultKey (CE_handler funded_cli) True ref_world = (Inr (a, priv), w1)"
    and runs: "\<forall>p :: (nat, nat \<times> 384 word) paid. Tx_action (Paid_tx p) = ActionTransfer t \<longrightarrow> Tx_actor (Paid_tx p) = a \<longrightarrow>
      Paid_unused p \<le> Paid_fee p \<longrightarrow>
      (\<exists>ok s'. run_paid ref_math ref_bls ref_warp mem_view p (one_account own_address 100) = Some (ok, s') \<and>
        (ok = Some True \<longleftrightarrow> Transfer_Value t \<noteq> 0 \<and>
          unat (Paid_fee p) + unat (Transfer_Value t) \<le> unat (amount_of (account (one_account own_address 100) a)) \<and>
          (a = Transfer_To t \<or> unat (amount_of (account (one_account own_address 100) (Transfer_To t))) +
            unat (Transfer_Value t) < 2 ^ 64)))"
    using w'(2) start by (auto simp: ref_net_env_def funded_net_def ref_net_def)
  have a: "a = own_address"
    using a by (simp add: funded_cli_def ref_cli_def ref_handler_def ref_world_def own_address_def)
  have "amount_of (account (one_account own_address 100) own_address) = 100"
    by simp
  moreover have "unat (amount_of (account (one_account own_address 100) 2)) + 40 < 2 ^ 64"
    by simp
  ultimately have "\<exists>s'. run_paid ref_math ref_bls ref_warp mem_view (ref_paid (ActionTransfer t) own_address 9)
      (one_account own_address 100) = Some (Some True, s')"
    using runs [rule_format, of "ref_paid (ActionTransfer t) own_address 9"] t a
    by (auto simp: ref_paid_def ref_tx_def)
  with w' t show ?thesis by auto
qed

end
