(* ===== verification/Verification_Flow.thy ===== *)
theory Verification_Flow
  imports Trustless Chain
begin

text \<open>
  The way of a proof through the whole system: a user's submission is executed and opens the
  window, the verifier service of a validator hands its result to the listener of the node,
  the node signs and submits a vote, and the chain executes the vote. The components are those
  of \<open>Chain\<close>, \<open>Trustless\<close> and \<open>Actions_Vote\<close>; the claim composes their lemmas.
\<close>

text \<open>A vote that is signed by a validator and in time, of an actor that has not voted.\<close>

lemma timely_vote_outcome:
  assumes "deadline m (Vote_TxID v) = Some d" "sint ts \<le> sint d" "\<not> has_voted m (Vote_TxID v) actor"
    and "Bls_PublicKeyFromBytes L (Vote_PublicKey v) = Inr pk" "Bls_SignatureFromBytes L (Vote_Signature v) = Inr sig"
    and "Vote_PublicKey v \<in> snd (Rules_f r ())" "signed_vote L W r v pk sig"
  shows "vote_outcome L W r v ts actor m =
    (case matching pk (fst (Rules_f r ())) of [] \<Rightarrow> Ignored | [vdr] \<Rightarrow> Counted (Validator_Weight vdr) | _ \<Rightarrow> Rejected)"
  using assms by (simp add: vote_outcome_def not_less split: list.split)

lemma timely_vote_runs:
  assumes "state_view M kv scope" "checked_math A" "wf_verify (kv s)" "vote_keys v actor \<subseteq> scope"
    and "deadline (kv s) (Vote_TxID v) = Some d" "sint ts \<le> sint d" "\<not> has_voted (kv s) (Vote_TxID v) actor"
    and "Bls_PublicKeyFromBytes L (Vote_PublicKey v) = Inr pk" "Bls_SignatureFromBytes L (Vote_Signature v) = Inr sig"
    and "Vote_PublicKey v \<in> snd (Rules_f r ())" "signed_vote L W r v pk sig"
  shows "\<exists>res s'. ValidatorVote_Execute A L W r M v s ts actor tx = Some (res, s') \<and>
    (length (matching pk (fst (Rules_f r ()))) \<le> 1 \<longleftrightarrow> success res) \<and>
    (matching pk (fst (Rules_f r ())) = [] \<longrightarrow> s' = s) \<and>
    (\<forall>vdr. matching pk (fst (Rules_f r ())) = [vdr] \<longrightarrow> has_voted (kv s') (Vote_TxID v) actor \<and>
      (Vote_Vote v \<longrightarrow> weight_of (kv s') (Vote_TxID v) =
        Some (amount_of (weight_of (kv s) (Vote_TxID v)) + Validator_Weight vdr)))"
proof -
  note outcome = timely_vote_outcome [OF assms(5-11)]
  obtain res s' where run: "ValidatorVote_Execute A L W r M v s ts actor tx = Some (res, s')"
    and eff: "case vote_outcome L W r v ts actor (kv s) of
       Rejected \<Rightarrow> \<not> success res
     | Ignored \<Rightarrow> success res \<and> s' = s
     | Counted w \<Rightarrow> success res \<and> kv s' = cast_vote scope v actor w (kv s)"
    using state_view.ValidatorVote_eval [OF assms(1-4)] by blast
  consider (none) "matching pk (fst (Rules_f r ())) = []" | (one) vdr where "matching pk (fst (Rules_f r ())) = [vdr]"
    | (more) x y zs where "matching pk (fst (Rules_f r ())) = x # y # zs"
    by (metis neq_Nil_conv)
  then show ?thesis
    by cases (use run eff in \<open>auto simp: outcome split: option.split\<close>)
qed

section \<open>The claim\<close>

text \<open>
  C13: from a submission to the effect of a vote. A submission is executed as transaction \<open>i\<close> at
  time \<open>ts0\<close>; its deadline is still there when, before it has passed, the chain executes the
  vote that the node of a validator has made of a result it was handed for \<open>i\<close>. The vote is for
  that result, and it is rejected only when the key that is parsed from it is found twice among
  the validators: when it is found once, the vote is recorded and a yes adds the weight of
  that validator, and when it is found nowhere nothing happens.
\<close>

theorem result_reaches_chain:
  assumes "checked_math A" "bls_spec L" "warp_signer L W (Signer_Sign E) (Trustless_publicKey t)"
    and "state_view M0 kv scope0" "TimeOutKey i \<in> scope0" "action_timeout a = Some n"
    and "Action_Execute A L W r0 M0 a s0 ts0 user i = Some (res0, s1)"
    and "deadline (kv s) i = deadline (kv s1) i" "wf_verify (kv s)" "sint ts \<le> sint (ts0 + clamp_timeout n * 1000)"
    and "DecodeSubmitResult E body = Inr \<lparr>SubmitResult_TxID = txt, SubmitResult_IsValid = b\<rparr>" "IDFromString E txt = Inr i"
    and "submitResult L W E n1 n2 t body w = Some ([ResultSubmitted txID], t', w')"
    and "Rules_NetworkID r = Rules_NetworkID (Env_rules E 0)" "Rules_ChainID r = Rules_ChainID (Env_rules E 0)"
    and "Bls_PublicKeyToBytes L (Trustless_publicKey t) \<in> snd (Rules_f r ())"
    and "state_view M kv scope" "{TimeOutKey i, WeightKey i, VoteKey i actor} \<subseteq> scope" "\<not> has_voted (kv s) i actor"
  shows "success res0 \<and> (\<exists>v err pk res s'.
    GenerateTransaction E n1 n2 (ActionValidatorVote v) (Trustless_authFactory t) w = Some ((txID, err), w') \<and>
    Vote_TxID v = i \<and> Vote_Vote v = b \<and>
    Bls_PublicKeyFromBytes L (Bls_PublicKeyToBytes L (Trustless_publicKey t)) = Inr pk \<and>
    Action_Execute A L W r M (ActionValidatorVote v) s ts actor vtx = Some (res, s') \<and>
    (length (matching pk (fst (Rules_f r ()))) \<le> 1 \<longleftrightarrow> success res) \<and>
    (matching pk (fst (Rules_f r ())) = [] \<longrightarrow> s' = s) \<and>
    (\<forall>vdr. matching pk (fst (Rules_f r ())) = [vdr] \<longrightarrow> has_voted (kv s') i actor \<and>
      (b \<longrightarrow> weight_of (kv s') i = Some (amount_of (weight_of (kv s) i) + Validator_Weight vdr))))"
proof -
  have sub: "success res0" "deadline (kv s1) i = Some (ts0 + clamp_timeout n * 1000)"
    using submission_runs [OF assms(4-6), of A L W r0 s0 ts0 user] assms(7) by auto
  obtain v err pk sig where v: "GenerateTransaction E n1 n2 (ActionValidatorVote v) (Trustless_authFactory t) w = Some ((txID, err), w')"
    "Vote_PublicKey v = Bls_PublicKeyToBytes L (Trustless_publicKey t)"
    "Bls_PublicKeyFromBytes L (Vote_PublicKey v) = Inr pk" "Bls_SignatureFromBytes L (Vote_Signature v) = Inr sig"
    "signed_vote L W (Env_rules E 0) v pk sig" and i: "Vote_TxID v = i" "Vote_Vote v = b"
    using submitted_vote [OF assms(2,3,13)] assms(11,12) by auto
  have keys: "vote_keys v actor \<subseteq> scope"
    using assms(18) by (auto simp: vote_keys_def i)
  have d: "deadline (kv s) (Vote_TxID v) = Some (ts0 + clamp_timeout n * 1000)"
    using assms(8) sub(2) i by simp
  have signed: "signed_vote L W r v pk sig"
    using v(5) by (simp add: signed_vote_def assms(14,15))
  from timely_vote_runs [OF assms(17,1,9) keys d assms(10) _ v(3,4) _ signed, of vtx] assms(16,19) v(2)
  obtain res s' where "ValidatorVote_Execute A L W r M v s ts actor vtx = Some (res, s')"
    "length (matching pk (fst (Rules_f r ()))) \<le> 1 \<longleftrightarrow> success res"
    "matching pk (fst (Rules_f r ())) = [] \<longrightarrow> s' = s"
    "\<forall>vdr. matching pk (fst (Rules_f r ())) = [vdr] \<longrightarrow> has_voted (kv s') i actor \<and>
      (b \<longrightarrow> weight_of (kv s') i = Some (amount_of (weight_of (kv s) i) + Validator_Weight vdr))"
    by (auto simp: i)
  with sub(1) v(1,2,3) i show ?thesis by auto
qed

text \<open>
  Bob submits an SP1 proof as transaction 1, its result is posted as valid, and the vote of the
  node, whose key the chain knows with weight 10, is executed at time 50.
\<close>

theorem result_reaches_chain_witness:
  "\<exists>res0 s1 v res s'. Action_Execute ref_math ref_bls ref_warp (ref_rules 0) (mem_view {TimeOutKey 1})
      (ActionSP1 \<lparr>SP1_ImageID = 1, SP1_ProofValType = 2, SP1_TimeOutBlocks = 100\<rparr>) Map.empty 5 2 1 =
      Some (res0, s1) \<and>
    Action_Execute ref_math ref_bls ref_warp (ref_rules 0) (mem_view {TimeOutKey 1, WeightKey 1, VoteKey 1 3})
      (ActionValidatorVote v) s1 50 3 9 = Some (res, s') \<and> success res \<and> weight_of s' 1 = Some 10"
proof -
  let ?a = "ActionSP1 \<lparr>SP1_ImageID = 1, SP1_ProofValType = 2, SP1_TimeOutBlocks = 100\<rparr>"
  let ?scope = "{TimeOutKey 1, WeightKey 1, VoteKey 1 3}"
  obtain res0 s1 where run: "Action_Execute ref_math ref_bls ref_warp (ref_rules 0) (mem_view {TimeOutKey 1}) ?a Map.empty 5 2 1 =
      Some (res0, s1)" and s1: "s1 = [TimeOutKey 1 \<mapsto> AppendUint64 (5 + clamp_timeout 100 * 1000)]"
    using submission_runs [OF mem_view.state_view_axioms, of 1 "{TimeOutKey 1}" ?a 100 ref_math ref_bls ref_warp "ref_rules 0"
        Map.empty 5 2] by auto
  obtain t' w' where r: "submitResult ref_bls ref_warp ref_env 0 0 ref_trustless [1, 65] [] = Some ([ResultSubmitted 9], t', w')"
    by (simp add: submitResult_def ref_env_def ref_warp_def ref_signer_def bytes_string_def
        GenerateTransaction_def index_def Let_def)
  have signer: "warp_signer ref_bls ref_warp (Signer_Sign ref_env) (Trustless_publicKey ref_trustless)"
    using ref_signer.warp_signer_axioms by (simp add: ref_env_def ref_trustless_def)
  have decoded: "DecodeSubmitResult ref_env [1, 65] =
      Inr \<lparr>SubmitResult_TxID = bytes_string [65], SubmitResult_IsValid = True\<rparr>"
    "IDFromString ref_env (bytes_string [65]) = Inr 1"
    by (simp_all add: ref_env_def bytes_string_def)
  have rules: "Rules_NetworkID (ref_rules 0) = Rules_NetworkID (Env_rules ref_env 0)"
    "Rules_ChainID (ref_rules 0) = Rules_ChainID (Env_rules ref_env 0)"
    "Bls_PublicKeyToBytes ref_bls (Trustless_publicKey ref_trustless) \<in> snd (Rules_f (ref_rules 0) ())"
    "Bls_PublicKeyFromBytes ref_bls (Bls_PublicKeyToBytes ref_bls (Trustless_publicKey ref_trustless)) = Inr (0, 5)"
    "matching (0, 5) (fst (Rules_f (ref_rules 0) ())) = [\<lparr>Validator_PublicKey = (0, 5), Validator_Weight = 10\<rparr>]"
    by (simp_all add: ref_env_def ref_rules_def Genesis_Rules_def Rules_NetworkID_def Rules_ChainID_def
        ref_trustless_def ref_bls_def)
  have state: "wf_verify s1" "\<not> has_voted s1 1 3" "weight_of s1 1 = None"
    by (auto simp: s1 wf_verify_def has_voted_def weight_of_def)
  have time: "sint (50 :: i64) \<le> sint (5 + clamp_timeout 100 * 1000 :: i64)"
    by (simp add: clamp_timeout_def)
  from result_reaches_chain [where kv = "\<lambda>s. s" and scope = ?scope and actor = 3 and vtx = 9, OF ref_math.checked_math_axioms ref_bls.bls_spec_axioms signer
      mem_view.state_view_axioms _ _ run refl state(1) time decoded r rules(1-3) mem_view.state_view_axioms] state(2)
  obtain v res s' where "Action_Execute ref_math ref_bls ref_warp (ref_rules 0) (mem_view ?scope)
      (ActionValidatorVote v) s1 50 3 9 = Some (res, s')" "success res" "weight_of s' 1 = Some 10"
    by (auto simp: rules(4,5) state(3))
  with run show ?thesis by blast
qed

end
