(* ===== verification/Spec2Isabelle.thy ===== *)
theory Spec2Isabelle
  imports Client_Network Verification_Flow
begin

text \<open>
  \<^bold>\<open>What is verified.\<close> \<open>hyper-pvzk\<close> is a blockchain (a VM on hypersdk) on which users submit
  zero-knowledge proofs and validators vote on their verification. The Go code of the chain, of
  a node and of its command-line client is modelled here, function by function, from the
  sources under \<open>src/\<close>. Definitions keep the names of the source; methods are prefixed with
  their type.

  \<^bold>\<open>How Go is read\<close> (\<open>Go_Prelude\<close>). Integers are words of their width, with \<open>i64\<close> read by
  \<^const>\<open>sint\<close>; byte arrays are words, slices lists of bytes. A function that can panic
  returns an option, \<^const>\<open>None\<close> being the panic; an \<open>error\<close> result is an option of the
  datatype \<open>error\<close>, or the left side of a sum where the code returns no value with it. State is
  passed explicitly. Pointers that are compared (the public keys of BLS) are references of a
  type variable of their own; the parser of keys is a parameter that returns a reference, and
  nothing is assumed of which: Go's allocates a new one for each call, the case of
  \<open>fresh_key_votes_ignored\<close> and \<open>no_vote_counts\<close>, and the theorems about votes that count
  speak of a parser that finds the reference of the validator list, which amounts to comparing
  keys by their bytes. Logging, tracing and console output are left out. The other
  packages (hypersdk, avalanchego, the standard library's HTTP client and JSON codec) are
  parameters, records of functions; what the code relies on is a locale for each, which a
  theorem that needs it names as a hypothesis, and a reference instance interprets it.

  \<^bold>\<open>The parts and their theories\<close>, in the order in which they build on each other.
  \<^item> \<open>Host\<close>: the checked arithmetic (\<open>checked_math\<close>) and the view of the chain state that a
    transaction has through its declared keys (\<open>state_view\<close>).
  \<^item> \<open>Storage_Keys\<close>, \<open>Storage_Balance\<close>, \<open>Storage_Verify\<close>, \<open>Storage_Tx\<close>: \<open>storage/\<close>. The keys
    (injective, disjoint), balances with the fee interface of \<open>StateManager\<close>, the records of
    verifications (hash, deadline, weight, status, votes) and the records of accepted
    transactions in the metadata database. An account is the partial function \<open>account\<close> over
    the state, well-formedness of the stored bytes is \<open>wf_balances\<close> and \<open>wf_verify\<close>; the locale
    \<open>balance_store\<close> is the contract of the balance operations.
  \<^item> \<open>Codec\<close>, \<open>Actions_Base\<close>, \<open>Actions_Basic\<close>, \<open>Actions_Proofs\<close>, \<open>Actions_Vote\<close>: \<open>actions/\<close>. Every
    method of \<open>chain.Action\<close> for the nine actions; the codec of each is composed from the
    fields by the calculus \<open>writes\<close>/\<open>reads\<close>. The abstract specifications are \<open>move\<close> (a transfer
    on the accounts), \<open>opens_window\<close> (a submission) and \<open>cast_vote\<close> with \<open>vote_outcome\<close>.
  \<^item> \<open>Auth\<close>, \<open>Auth_Batch\<close>: \<open>auth/\<close>. The three signature schemes with the locale \<open>auth_scheme\<close>,
    and the batch verifier with its invariant.
  \<^item> \<open>Requester\<close>, \<open>Accept_Handlers\<close>: \<open>requester/\<close> and \<open>accept_handlers/\<close>, what a node sends to
    its hub and its verifier service. In the locale \<open>http_service\<close> the network has a trace of the
    requests with what came back; \<open>exchange_log\<close> says which trace a submission leaves.
  \<^item> \<open>Genesis\<close>, \<open>Config\<close>: \<open>genesis/\<close> and \<open>config/\<close>, the parameters, the allocation of the initial
    balances (whose list may have \<open>nil\<close> entries), the rules, and the handshake at start-up.
  \<^item> \<open>Registry\<close>, \<open>Chain\<close>: \<open>registry/\<close>, the interface \<open>action\<close> over the actions and its parser;
    and the run of any sequence of transactions (\<open>run_chain\<close>), with what every transaction
    keeps (\<open>keeps\<close>).
  \<^item> \<open>Ledger\<close>: the abstract specification of the whole chain. The record \<open>ledger\<close> is the meaning
    of the state (\<open>ledger_of\<close>), \<open>ledger_tx\<close> the effect of a transaction on it, free of keys and
    bytes; \<open>simulates\<close> is the relation every action is shown to satisfy.
  \<^item> \<open>Paid_Chain\<close>: transactions with their fees, in the order in which hypersdk uses the fee
    interface of \<open>StateManager\<close> (check, deduct, execute with roll-back, refund), and the ledger
    with fees that they refine; \<open>paid_cost\<close> is what a transaction costs in the end. The fee and
    its unused part are given with each transaction, since hypersdk computes them.
  \<^item> \<open>Vote_Counting\<close>: the votes that a history of transactions counts: none, when parsed keys
    are new references; and, if keys were compared by their bytes, votes that are submitted again
    from other accounts.
  \<^item> \<open>Trustless\<close>, \<open>Controller\<close>, \<open>Accepted_Blocks\<close>: \<open>trustless/\<close> and \<open>controller/\<close>, the listener that
    turns results into votes, and what a node does for an accepted block.
  \<^item> \<open>Rpc\<close>, \<open>Rpc_Claims\<close>: \<open>rpc/\<close>, server and client; the client is verified over the server over
    the controller (\<open>rpc_transport\<close>, \<open>committed_read\<close>, \<open>wait_spec\<close>).
  \<^item> \<open>Node\<close>: a node as a state machine, whose steps are accepted blocks and requests to the
    listener, in any order. What a block does to the VM (its prices) is a parameter, and the
    errors that accepting returns are kept in the state. The locale \<open>responsive\<close> is a listener
    that returns, \<open>steady_vm\<close> a VM that takes every vote.
  \<^item> \<open>Verification_Flow\<close>: the way of a proof from its submission over the result handed to a
    node to the effect of the vote, composed of the lemmas of the parts.
  \<^item> \<open>Network\<close>, \<open>Network_Claims\<close>: the whole system. A network is the state of the chain with its
    nodes; a step is a request to the listener of a node, or a block that every node executes
    and accepts. The locale \<open>net_contract\<close> says what is relied on, \<open>reachable\<close> is closed by its
    invariant \<open>reachable_inv\<close>.
  \<^item> \<open>Cli_Keys\<close>, \<open>Cli_Commands\<close>, \<open>Cli_Claims\<close>: \<open>cmd/morpheus-cli\<close>, keys, commands, the loop that
    waits for a transaction, the load generator's closures and the genesis file.
  \<^item> \<open>Cli_Prometheus\<close>: the queries of the dashboard, in \<open>prometheus.go\<close>, and what is printed.
  \<^item> \<open>Cli_Root\<close>, \<open>Cli_Run\<close>: the command tree with its flags and hooks (\<open>root.go\<close>, \<open>chain.go\<close>), both
    \<open>main\<close> functions and the version. cobra is a parameter with the documented order of the
    hooks (the locale \<open>cobra\<close>), as is the handler of hypersdk (\<open>client_spec\<close>); a run of the
    client is \<open>client_main\<close>, and \<open>run_ends\<close> are the ways in which it ends.
  \<^item> \<open>Client_Network\<close>: the client over the network. In the locale \<open>network_client\<close> its requests are
    answered by nodes in states that the network reaches, so that the balances it shows are those
    of the abstract ledger.

  \<^bold>\<open>What is shown.\<close> Of the chain: from genesis on it computes, transaction by
  transaction, the abstract ledger (in \<open>Ledger\<close>), and with fees (in \<open>Paid_Chain\<close>) the ledger with
  fees, in which every token of the genesis is accounted for as a balance or a cost; it never
  panics and makes no token; and, in this theory, no verification ever gets a status, so that no
  client is ever told one (a flaw of the declared keys of a vote). Of the actions: each refines its specification, touches only
  the keys it declares and announces its units. Of votes: the ledger of weights over any
  history, the order of the guards, and that the comparison of key pointers makes every vote
  ineffective when the parsed key is a new reference. Of a node: exactly which requests,
  records and votes follow from blocks and results, that their interleaving changes nothing but
  the fees of the votes, and that a timely result of a validator reaches the chain as a vote that
  is not rejected. Of the
  network: weights come only from results that were posted to nodes, nothing gets stuck, and the
  client of any node learns the verdict of the abstract ledger. Of the
  clients: what they learn is what the node recorded, waiting ends, keys sign for their
  addresses, a run of the client submits at most one transaction, that of its command, after a
  confirmation, and when a transfer that it submits succeeds on the chain.

  \<^bold>\<open>Loops and bounds.\<close> The loops of the chain and of a node are structural recursions over the
  slices that they range over, and total. The loop of \<open>sendAndWait\<close> may wait for ever: it is a
  \<open>partial_function (option)\<close> whose return is characterised by \<open>await_iff\<close>. \<open>rpc.Wait\<close> is a
  parameter with a patience, and only its reference instance has fuel: the patience. The
  iteration order of Go maps (the validators of a vote) is the order of a list that the
  theorems quantify over.

  \<^bold>\<open>Not modelled.\<close> \<open>actions/gnark.go\<close> and \<open>network/main.go\<close> are commented out. How cobra finds a
  command and parses flags, and what hypersdk does for the commands that forward to it (the
  load generator \<open>spam run\<close> among them), is outside the repository; the tests are not modelled. The
  helpers \<open>WriteFile\<close> and \<open>DecodeClientResponse\<close> of \<open>actions/utils.go\<close> are file and HTTP I/O
  without a caller. Concurrency is modelled at the granularity of the handlers, which the code
  runs under a lock or touching disjoint fields of the module; the goroutine that serves the listener is the
  second kind of step of \<open>Node\<close>. That \<open>Client_Network\<close> looks at a transfer in the state in which the
  balance was shown leaves out what other transactions do to the account before its block. The
  blocks of \<open>Network\<close> carry transactions without their fees, which \<open>Paid_Chain\<close> treats for the
  chain alone; how hypersdk computes a fee and fills a block is outside the repository.
\<close>

section \<open>The chain\<close>

text \<open>Alice pays Bob, and Bob submits an SP1 proof.\<close>

definition two_transactions :: "(nat, nat \<times> 384 word) transaction list" where
  "two_transactions =
    [\<lparr>Tx_action = ActionTransfer \<lparr>Transfer_To = 2, Transfer_Value = 40\<rparr>, Tx_actor = 1, Tx_id = 7,
      Tx_time = 0, Tx_rules = ref_rules 0\<rparr>,
     \<lparr>Tx_action = ActionSP1 \<lparr>SP1_ImageID = 1, SP1_ProofValType = 2, SP1_TimeOutBlocks = 100\<rparr>, Tx_actor = 2,
      Tx_id = 8, Tx_time = 0, Tx_rules = ref_rules 0\<rparr>]"

text \<open>
  C12: no client ever learns that a verification is done: after a genesis that loads into an
  empty state, and any sequence of transactions, votes included, asking any node of the
  chain for the status of any transaction ends with an error. A vote declares the status
  entry of its own transaction and writes that of the transaction it votes on.
\<close>

theorem status_never_reported:
  assumes "\<And>keys. state_view (M keys) kv keys" "checked_math A" "kv s0 = Map.empty"
    and "\<And>al a. Some al \<in> set (CustomAllocation g) \<Longrightarrow> parse HRP (CustomAllocation_Address al) = Inr a \<Longrightarrow>
      BalanceKey a \<in> scope"
    and "Load A B parse (M scope) g s0 = Some (None, s)"
    and "\<forall>t \<in> set ts. \<not> names_itself (Tx_action t) (Tx_id t)"
    and "run_chain A L W M ts s = Some s'"
    and "committed_read readState (kv s')" "rpc_transport R C parse'" "C w = controller_rpc F D readState c"
    and "Client_VerifyStatus R cli i w = ((status, err), w')"
  shows "err \<noteq> None"
proof
  assume "err = None"
  let ?S = "set (parsed_addresses parse (CustomAllocation g)) \<union> (\<Union>t \<in> set ts. participants (Tx_action t) (Tx_actor t))"
  have fin: "finite ?S"
    by (auto intro: finite_participants)
  have part: "\<forall>t \<in> set ts. participants (Tx_action t) (Tx_actor t) \<subseteq> ?S \<and> \<not> names_itself (Tx_action t) (Tx_id t)"
    using assms(6) by blast
  have sub: "set (parsed_addresses parse (CustomAllocation g)) \<subseteq> ?S" by blast
  have wf: "wf_state (kv s)"
    by (rule genesis_facts(1) [OF assms(1,2) _ assms(3,5) fin sub], rule assms(4))
  have none: "kv s (StatusKey i) = None"
    by (rule genesis_facts(3) [OF assms(1,2) _ assms(3,5) fin sub], rule assms(4))
  from run_chain_keeps [OF assms(1,2) fin part wf, where L = L and W = W] assms(7) have "kv s' (StatusKey i) = None"
    by (auto simp: keeps_def none)
  from committed_read.VerifyStatus_read [OF assms(8) this]
  have "RC_GetVerifyStatusFromState (C w) i = Some (False, Some ErrNotFound)"
    by (simp add: assms(10) controller_rpc_def Controller_GetVerifyStatusFromState_def)
  with rpc_transport.VerifyStatus_reports [OF assms(9)] assms(11) show False
    by (simp add: \<open>err = None\<close>)
qed

text \<open>The chain of the example, asked for the status of the proof that Bob submitted.\<close>

theorem status_never_reported_witness:
  "\<exists>s s'. Load ref_math ref_merkledb ref_bech32 (mem_view {BalanceKey 1, BalanceKey 2})
      ((Default ref_merkledb)\<lparr>CustomAllocation := two_allocations\<rparr>) Map.empty = Some (None, s) \<and>
    run_chain ref_math ref_bls ref_warp mem_view two_transactions s = Some s' \<and>
    (\<forall>status err w'. Client_VerifyStatus ref_requester (NewJSONRPCClient ''uri'' 1 2) 8
        [controller_rpc ref_fees ref_db (read_view s') ref_controller] = ((status, err), w') \<longrightarrow> err \<noteq> None)"
proof -
  let ?g = "(Default ref_merkledb)\<lparr>CustomAllocation := two_allocations\<rparr>"
  obtain s where s: "Load ref_math ref_merkledb ref_bech32 (mem_view {BalanceKey 1, BalanceKey 2}) ?g Map.empty = Some (None, s)"
    by (rule two_allocations_load)
  have names: "\<forall>t \<in> set two_transactions. \<not> names_itself (Tx_action t) (Tx_id t)"
    by (simp add: two_transactions_def)
  have part: "\<forall>t \<in> set two_transactions. participants (Tx_action t) (Tx_actor t) \<subseteq> {1, 2} \<and> \<not> names_itself (Tx_action t) (Tx_id t)"
    by (simp add: two_transactions_def)
  have wf: "wf_state s"
    using genesis_facts(1) [where kv = "\<lambda>s. s", OF mem_view.state_view_axioms ref_math.checked_math_axioms _ _ s, of "{1, 2}"]
      two_allocations_facts by simp
  obtain s' where run: "run_chain ref_math ref_bls ref_warp mem_view two_transactions s = Some s'"
    using run_chain_keeps [where kv = "\<lambda>s. s", OF mem_view.state_view_axioms ref_math.checked_math_axioms _ part wf] by auto
  have "err \<noteq> None"
    if "Client_VerifyStatus ref_requester (NewJSONRPCClient ''uri'' 1 2) 8
      [controller_rpc ref_fees ref_db (read_view s') ref_controller] = ((status, err), w')" for status err w'
    using status_never_reported [where kv = "\<lambda>s. s", OF mem_view.state_view_axioms ref_math.checked_math_axioms _ _ s names run
        read_view.committed_read_axioms ref_transport.rpc_transport_axioms _ that,
        where F = ref_fees and D = ref_db and c = ref_controller] two_allocations_facts
    by simp
  with s run show ?thesis by blast
qed

section \<open>The actions\<close>

text \<open>
  A submission of a proof, of any of the five proving systems, opens the voting window of
  its transaction and does nothing else: it succeeds within its announced units and stores
  the block time plus the requested time-out, clamped, as the deadline.
\<close>

theorem submission_opens_window:
  assumes "state_view M kv scope" "TimeOutKey tx \<in> scope" "action_timeout a = Some t"
  shows "\<exists>res s'. Action_Execute A L W r M a s ts actor tx = Some (res, s') \<and> success res \<and>
    units res \<le> Action_MaxComputeUnits a \<and> Action_StateKeys a actor tx = {TimeOutKey tx} \<and>
    kv s' = (kv s)(TimeOutKey tx \<mapsto> AppendUint64 (ts + clamp_timeout t * 1000)) \<and>
    deadline (kv s') tx = Some (ts + clamp_timeout t * 1000)"
  by (rule submission_runs [OF assms])

theorem submission_opens_window_witness:
  "\<exists>res s'. Action_Execute ref_math ref_bls ref_warp (ref_rules 0) (mem_view {TimeOutKey 8})
      (ActionSP1 \<lparr>SP1_ImageID = 1, SP1_ProofValType = 2, SP1_TimeOutBlocks = 100\<rparr>) Map.empty 5 2 8 = Some (res, s') \<and>
    success res \<and> deadline s' 8 = Some 100005"
  using submission_opens_window [OF mem_view.state_view_axioms, of 8 "{TimeOutKey 8}"
      "ActionSP1 \<lparr>SP1_ImageID = 1, SP1_ProofValType = 2, SP1_TimeOutBlocks = 100\<rparr>" 100 ref_math ref_bls ref_warp
      "ref_rules 0" Map.empty 5 2]
  by (auto simp: clamp_timeout_def)

text \<open>
  C31: an action other than a vote touches no state outside the keys it declares, whatever the
  view would let it write, and reports at most the units it announces: the two facts hypersdk
  relies on to run transactions in parallel and to bound a block.
\<close>

theorem declared_footprint:
  assumes "state_view M kv scope" "Action_Execute A L W r M a s ts actor tx = Some (res, s')"
    and "\<forall>v. a \<noteq> ActionValidatorVote v" "k \<notin> Action_StateKeys a actor tx"
  shows "kv s' k = kv s k \<and> units res \<le> Action_MaxComputeUnits a"
proof (cases a)
  case (ActionTransfer x)
  then show ?thesis
    using assms(2,4) transfer.footprint [OF assms(1)] transfer.bounded by simp
next
  case (ActionRegister x)
  then show ?thesis
    using assms(2,4) register.footprint [OF assms(1)] register.bounded by simp
next
  case (ActionRegisterImage x)
  then show ?thesis
    using assms(2,4) register_image.footprint [OF assms(1)] register_image.bounded by simp
next
  case (ActionSP1 x)
  then show ?thesis
    using assms(2,4) sp1.action.footprint [OF assms(1)] sp1.action.bounded by simp
next
  case (ActionRiscZero x)
  then show ?thesis
    using assms(2,4) risc_zero.action.footprint [OF assms(1)] risc_zero.action.bounded by simp
next
  case (ActionMiden x)
  then show ?thesis
    using assms(2,4) miden.action.footprint [OF assms(1)] miden.action.bounded by simp
next
  case (ActionJolt x)
  then show ?thesis
    using assms(2,4) jolt.action.footprint [OF assms(1)] jolt.action.bounded by simp
next
  case (ActionPLONKY2 x)
  then show ?thesis
    using assms(2,4) plonky2.action.footprint [OF assms(1)] plonky2.action.bounded by simp
qed (use assms(3) in simp)

theorem declared_footprint_witness:
  "\<exists>res s'. Action_Execute ref_math ref_bls ref_warp (ref_rules 0) (mem_view UNIV)
      (ActionTransfer \<lparr>Transfer_To = 2, Transfer_Value = 40\<rparr>) (one_account 1 100) 0 1 7 = Some (res, s') \<and>
    account s' 3 = None"
proof -
  obtain res s' where r: "Action_Execute ref_math ref_bls ref_warp (ref_rules 0) (mem_view UNIV)
      (ActionTransfer \<lparr>Transfer_To = 2, Transfer_Value = 40\<rparr>) (one_account 1 100) 0 1 7 = Some (res, s')"
    using state_view.Transfer_returns [where kv = "\<lambda>s. s", OF mem_view.state_view_axioms [of UNIV] one_account_wf_state [of 1 100]]
    by fastforce
  from declared_footprint [OF mem_view.state_view_axioms r, of "BalanceKey 3"]
  have "s' (BalanceKey 3) = None"
    by (simp add: Transfer_StateKeys_def one_account_def)
  with r show ?thesis
    by (auto simp: account_def)
qed

text \<open>
  C39: under the default genesis no image, proof or vote fits a block: when one of them
  succeeds, the compute units it reports are more than the default limit of a whole block in
  that dimension (index 1 of the dimensions).
\<close>

theorem default_block_limit:
  assumes "Action_Execute A L W r M a s ts actor tx = Some (res, s')" "success res"
    and "\<forall>x. a \<noteq> ActionTransfer x" "\<forall>x. a \<noteq> ActionRegister x"
  shows "MaxBlockUnits (Default B) ! 1 < units res"
proof -
  have "4000 \<le> units res"
    using assms
    by (cases a)
      (auto simp: submission_defs RegisterImage_Execute_def Let_def unit_defs
        split: prod.splits option.splits dest: ValidatorVote_success_units)
  then have "2000 < units res"
    by (simp add: word_le_nat_alt word_less_nat_alt)
  then show ?thesis by (simp add: Default_def)
qed

theorem default_block_limit_witness:
  "\<exists>res s'. Action_Execute ref_math ref_bls ref_warp (ref_rules 0) (mem_view {TimeOutKey 8})
      (ActionSP1 \<lparr>SP1_ImageID = 1, SP1_ProofValType = 2, SP1_TimeOutBlocks = 100\<rparr>) Map.empty 5 2 8 = Some (res, s') \<and>
    MaxBlockUnits (Default ref_merkledb) ! 1 < units res"
proof -
  obtain s' where "SP1_Execute (mem_view {TimeOutKey 8}) \<lparr>SP1_ImageID = 1, SP1_ProofValType = 2, SP1_TimeOutBlocks = 100\<rparr>
      Map.empty 5 2 8 = Some (result True 8000 NoOutput None, s')"
    using sp1.opens_window [OF mem_view.state_view_axioms, of 8 "{TimeOutKey 8}"
      "\<lparr>SP1_ImageID = 1, SP1_ProofValType = 2, SP1_TimeOutBlocks = 100\<rparr>" Map.empty 5 2] by auto
  then have "Action_Execute ref_math ref_bls ref_warp (ref_rules 0) (mem_view {TimeOutKey 8})
      (ActionSP1 \<lparr>SP1_ImageID = 1, SP1_ProofValType = 2, SP1_TimeOutBlocks = 100\<rparr>) Map.empty 5 2 8 =
      Some (result True 8000 NoOutput None, s')" by simp
  from default_block_limit [OF this, of ref_merkledb] this show ?thesis by fastforce
qed

section \<open>The wire\<close>

text \<open>
  C30: every action survives the wire: the registry is built without a panic, and for each
  action whose required fields are set, the unmarshaller found under the action's type
  identifier reads what \<open>Marshal\<close> wrote back as the same action and leaves what follows.
\<close>

theorem registry_parses_actions:
  assumes "type_parser_spec R" "type_parser_spec R'" "packer_spec P written unread encS encB"
    and "action_valid Lb a" "written w = []" "PackerErr P (Action_Marshal P a w) = None"
    and "PackerErr P p = None" "unread p = written (Action_Marshal P a w) @ rest"
  shows "\<exists>t t' u p'. Registry_init R R' Le Ls Lb P = Some (t, t') \<and>
    LookupIndex R t (Action_GetTypeID a) = Some (u, False) \<and>
    u p = (Inr a, p') \<and> PackerErr P p' = None \<and> unread p' = rest"
proof -
  obtain t where t: "register_all R (NewTypeParser R) (action_registrations Lb P) = (None, t)"
    "LookupIndex R t = map_of (action_registrations Lb P)"
    by (rule type_parser_spec.register_all_new [OF assms(1) action_ids_distinct])
  obtain t' where t': "register_all R' (NewTypeParser R') (auth_registrations Le Ls Lb P) = (None, t')"
    by (rule type_parser_spec.register_all_new [OF assms(2) auth_ids_distinct])
  obtain u where u: "map_of (action_registrations Lb P) (Action_GetTypeID a) = Some (u, False)"
    "reads P unread u (Inr a) (action_enc encS encB a)"
    by (rule packer_spec.Action_reads [OF assms(3,4)])
  have "written (Action_Marshal P a w) = action_enc encS encB a"
    using packer_spec.Action_writes [OF assms(3), of a] assms(5,6) by (auto simp: writes_def)
  then obtain p' where "u p = (Inr a, p')" "PackerErr P p' = None" "unread p' = rest"
    using readsE [OF u(2) assms(7), of rest] assms(8) by auto
  with t t' u(1) show ?thesis
    by (simp add: Registry_init_def)
qed

theorem registry_parses_actions_witness:
  "\<exists>t t' u p'. Registry_init ref_type_parser ref_type_parser ref_ed25519 ref_secp256r1 ref_bls ref_packer = Some (t, t') \<and>
    t 0 = Some (u, False) \<and> u (addr_bytes 2 @ be_bytes 8 (40 :: u64), None) =
      (Inr (ActionTransfer \<lparr>Transfer_To = 2, Transfer_Value = 40\<rparr>), p')"
  using registry_parses_actions [OF ref_type_parser.type_parser_spec_axioms ref_type_parser.type_parser_spec_axioms
      ref_packer.packer_spec_axioms, of ref_bls "ActionTransfer \<lparr>Transfer_To = 2, Transfer_Value = 40\<rparr>"
      "([], None)" "(addr_bytes 2 @ be_bytes 8 (40 :: u64), None)" "[]" ref_ed25519 ref_secp256r1]
  by (fastforce simp: transfer_valid_def Transfer_Marshal_def ref_write_def type_id_defs ref_type_parser_def)

text \<open>
  C40: the sizes the actions report, against the bytes that their \<open>Marshal\<close> writes: exact for
  \<open>Transfer\<close>, \<open>Register\<close>, \<open>SP1\<close> and \<open>Jolt\<close>; 16 bytes short for \<open>PLONKY2\<close>, whose \<open>Size\<close> counts two
  of its four numbers; short by the length fields of the strings and byte slices in the others.
\<close>

theorem action_sizes:
  assumes "packer_spec P written unread encS encB" "written w = []" "PackerErr P (Action_Marshal P a w) = None"
    and "\<And>t. length (encS t) = lenS + length t" "\<And>v. length (encB v) = lenB + length v"
  shows "length (written (Action_Marshal P a w)) = Action_Size a +
    (case a of ActionPLONKY2 _ \<Rightarrow> 16 | ActionRegisterImage _ \<Rightarrow> lenS | ActionRiscZero _ \<Rightarrow> lenS
     | ActionMiden _ \<Rightarrow> 3 * lenS | ActionValidatorVote _ \<Rightarrow> 2 * lenB | _ \<Rightarrow> 0)"
proof -
  have "written (Action_Marshal P a w) = action_enc encS encB a"
    using packer_spec.Action_writes [OF assms(1), of a] assms(2,3) by (auto simp: writes_def)
  then show ?thesis
    by (cases a) (simp_all add: size_defs assms(4,5))
qed

theorem action_sizes_witness:
  "length (fst (Action_Marshal ref_packer (ActionPLONKY2 \<lparr>PLONKY2_ImageID = 1, PLONKY2_ProofValType = 2,
      PLONKY2_CommonDataValType = 3, PLONKY2_VerifierDataValType = 4, PLONKY2_TimeOutBlocks = 5\<rparr>) ([], None))) = 64"
proof -
  let ?a = "ActionPLONKY2 \<lparr>PLONKY2_ImageID = 1, PLONKY2_ProofValType = 2, PLONKY2_CommonDataValType = 3,
    PLONKY2_VerifierDataValType = 4, PLONKY2_TimeOutBlocks = 5\<rparr>"
  have "PackerErr ref_packer (Action_Marshal ref_packer ?a ([], None)) = None"
    by (simp add: PLONKY2_Marshal_def ref_write_def)
  from action_sizes [OF ref_packer.packer_spec_axioms _ this, of 2 4] show ?thesis
    by (simp add: ref_enc_string_def ref_enc_bytes_def PLONKY2_Size_def)
qed

end
